(* ===== verification/DoPrelude.thy ===== *)
theory DoPrelude
  imports Main "HOL-Library.Word"
begin

text \<open>
  Shared vocabulary of the development: the machine types of
  client-lite/src/include/basic_types.h, C++ exceptions as values, the two result monads
  (pure results and results over an explicit state that survives a throw), NUL-terminated
  views of strings, and decimal printing and reading with their round trip.
\<close>

section \<open>Machine types and exceptions\<close>

type_synonym hresult = "32 word"
type_synonym u16 = "16 word"
type_synonym u32 = "32 word"
type_synonym u64 = "64 word"

text \<open>
  The exceptions the code distinguishes when it converts one to an HRESULT. The payload of
  \<open>StdExn\<close> names the standard exception class; \<open>UnknownExn\<close> is anything caught by
  a bare \<^verbatim>\<open>catch (...)\<close> only.
\<close>

datatype exn =
    DOResult hresult
  | BoostSystemError "32 word"
  | BadAlloc
  | StdExn string
  | UnknownExn

type_synonym 'a res = "exn + 'a"

named_theorems hr_defs "HRESULT constants"
named_theorems res_defs "unfolding rules of the result monads"
named_theorems do_defs "unfolding rules of component operations"

section \<open>Results\<close>

definition rbind :: "'a res \<Rightarrow> ('a \<Rightarrow> 'b res) \<Rightarrow> 'b res" where
  "rbind m f = (case m of Inl e \<Rightarrow> Inl e | Inr x \<Rightarrow> f x)"

definition rguard :: "bool \<Rightarrow> exn \<Rightarrow> unit res" where
  "rguard ok e = (if ok then Inr () else Inl e)"

lemma rbind_simps [simp]:
  "rbind (Inl e) f = Inl e"
  "rbind (Inr x) f = f x"
  by (simp_all add: rbind_def)

lemma rbind_Inr_iff: "rbind m f = Inr y \<longleftrightarrow> (\<exists>x. m = Inr x \<and> f x = Inr y)"
  by (cases m) auto

lemma rbind_assoc: "rbind (rbind m f) g = rbind m (\<lambda>x. rbind (f x) g)"
  by (cases m) auto

lemma rguard_simps [simp]:
  "rguard True e = Inr ()"
  "rguard False e = Inl e"
  by (simp_all add: rguard_def)

section \<open>Results over a state\<close>

text \<open>
  A C++ member function that may throw: the state after the call is part of the result in
  either case, because whatever the function wrote before the throw stays written.
\<close>

type_synonym ('s, 'a) sm = "'s \<Rightarrow> 'a res \<times> 's"

definition sret :: "'a \<Rightarrow> ('s, 'a) sm" where
  "sret x s = (Inr x, s)"

definition sthrow :: "exn \<Rightarrow> ('s, 'a) sm" where
  "sthrow e s = (Inl e, s)"

definition sbind :: "('s, 'a) sm \<Rightarrow> ('a \<Rightarrow> ('s, 'b) sm) \<Rightarrow> ('s, 'b) sm" where
  "sbind m f s = (case m s of (Inl e, s') \<Rightarrow> (Inl e, s') | (Inr x, s') \<Rightarrow> f x s')"

definition sthen :: "('s, 'a) sm \<Rightarrow> ('s, 'b) sm \<Rightarrow> ('s, 'b) sm" where
  "sthen m n = sbind m (\<lambda>_. n)"

definition sget :: "('s \<Rightarrow> 'a) \<Rightarrow> ('s, 'a) sm" where
  "sget f s = (Inr (f s), s)"

definition smod :: "('s \<Rightarrow> 's) \<Rightarrow> ('s, unit) sm" where
  "smod f s = (Inr (), f s)"

definition sres :: "'a res \<Rightarrow> ('s, 'a) sm" where
  "sres r s = (r, s)"

definition swhen :: "bool \<Rightarrow> ('s, unit) sm \<Rightarrow> ('s, unit) sm" where
  "swhen b m = (if b then m else sret ())"

text \<open>\<open>scatch m h\<close>: \<^verbatim>\<open>try { m } catch (...) { h }\<close>, the handler sees the exception.\<close>

definition scatch :: "('s, 'a) sm \<Rightarrow> (exn \<Rightarrow> ('s, 'a) sm) \<Rightarrow> ('s, 'a) sm" where
  "scatch m h s = (case m s of (Inl e, s') \<Rightarrow> h e s' | (Inr x, s') \<Rightarrow> (Inr x, s'))"

lemma sm_run [simp]:
  "sret x s = (Inr x, s)"
  "sthrow e s = (Inl e, s)"
  "sget f s = (Inr (f s), s)"
  "smod g s = (Inr (), g s)"
  "sres r s = (r, s)"
  by (simp_all add: sret_def sthrow_def sget_def smod_def sres_def)

lemma sbind_run [res_defs]:
  "sbind m f s = (case m s of (Inl e, s') \<Rightarrow> (Inl e, s') | (Inr x, s') \<Rightarrow> f x s')"
  by (simp add: sbind_def)

lemma sthen_run [res_defs]:
  "sthen m n s = (case m s of (Inl e, s') \<Rightarrow> (Inl e, s') | (Inr x, s') \<Rightarrow> n s')"
  by (simp add: sthen_def sbind_def)

lemma swhen_run [simp]:
  "swhen True m = m"
  "swhen False m = sret ()"
  by (simp_all add: swhen_def)

lemma swhen_app: "swhen b m s = (if b then m s else (Inr (), s))"
  by (simp add: swhen_def)

lemma scatch_run [res_defs]:
  "scatch m h s = (case m s of (Inl e, s') \<Rightarrow> h e s' | (Inr x, s') \<Rightarrow> (Inr x, s'))"
  by (simp add: scatch_def)

text \<open>
  An invariant that a step keeps whatever its outcome; it composes along the monad, so an
  operation keeps it when its parts do.
\<close>

definition skeeps :: "('s \<Rightarrow> bool) \<Rightarrow> ('s, 'a) sm \<Rightarrow> bool" where
  "skeeps P m \<longleftrightarrow> (\<forall>s. P s \<longrightarrow> P (snd (m s)))"

lemma skeepsD: "skeeps P m \<Longrightarrow> P s \<Longrightarrow> m s = (r, s') \<Longrightarrow> P s'"
  by (metis skeeps_def snd_conv)

lemma skeeps_sret [intro]: "skeeps P (sret x)"
  by (simp add: skeeps_def)

lemma skeeps_sthrow [intro]: "skeeps P (sthrow e)"
  by (simp add: skeeps_def)

lemma skeeps_sget [intro]: "skeeps P (sget f)"
  by (simp add: skeeps_def)

lemma skeeps_sres [intro]: "skeeps P (sres r)"
  by (simp add: skeeps_def)

lemma skeeps_smod [intro]: "(\<And>s. P s \<Longrightarrow> P (f s)) \<Longrightarrow> skeeps P (smod f)"
  by (simp add: skeeps_def)

lemma skeeps_sbind [intro]:
  assumes "skeeps P m" and "\<And>x. skeeps P (f x)"
  shows "skeeps P (sbind m f)"
  using assms by (auto simp: skeeps_def sbind_def split: prod.splits sum.splits)

lemma skeeps_sthen [intro]: "skeeps P m \<Longrightarrow> skeeps P n \<Longrightarrow> skeeps P (sthen m n)"
  by (auto simp: sthen_def)

lemma skeeps_swhen [intro]: "(b \<Longrightarrow> skeeps P m) \<Longrightarrow> skeeps P (swhen b m)"
  by (auto simp: swhen_def)

lemma skeeps_if [intro]: "(b \<Longrightarrow> skeeps P m) \<Longrightarrow> (\<not> b \<Longrightarrow> skeeps P n) \<Longrightarrow> skeeps P (if b then m else n)"
  by auto

lemma skeeps_scatch [intro]:
  assumes "skeeps P m" and "\<And>e. skeeps P (h e)"
  shows "skeeps P (scatch m h)"
  using assms by (auto simp: skeeps_def scatch_def split: prod.splits sum.splits)

lemmas skeeps_intros = skeeps_sret skeeps_sthrow skeeps_sget skeeps_sres skeeps_smod skeeps_sbind
  skeeps_sthen skeeps_swhen skeeps_if skeeps_scatch

section \<open>Strings\<close>

text \<open>\<open>std::string::c_str()\<close> read up to its first NUL, as every \<open>const char*\<close> consumer does.\<close>

definition NUL :: char where "NUL = CHR 0x00"

definition c_str :: "string \<Rightarrow> string" where
  "c_str s = takeWhile (\<lambda>c. c \<noteq> NUL) s"

lemma c_str_id: "NUL \<notin> set s \<Longrightarrow> c_str s = s"
  by (auto simp: c_str_def takeWhile_eq_all_conv)

lemma c_str_no_NUL: "NUL \<notin> set (c_str s)"
  by (auto simp: c_str_def dest: set_takeWhileD)

definition ord :: "char \<Rightarrow> nat" where
  "ord c = of_char c"

lemma ord_less [simp]: "ord c < 256"
  using of_char_mod_256 [of c, where 'a = nat] by (metis ord_def mod_less_divisor zero_less_numeral)

lemma char_of_ord [simp]: "char_of (ord c) = c"
  by (simp add: ord_def)

lemma ord_char_of [simp]: "n < 256 \<Longrightarrow> ord (char_of n) = n"
  by (simp add: ord_def of_char_of)

lemma ord_inject [simp]: "ord c = ord d \<longleftrightarrow> c = d"
  by (metis char_of_ord)

text \<open>The C-locale classification functions of <cctype>.\<close>

definition isdigit :: "char \<Rightarrow> bool" where
  "isdigit c \<longleftrightarrow> 48 \<le> ord c \<and> ord c \<le> 57"

definition isupper :: "char \<Rightarrow> bool" where
  "isupper c \<longleftrightarrow> 65 \<le> ord c \<and> ord c \<le> 90"

definition islower :: "char \<Rightarrow> bool" where
  "islower c \<longleftrightarrow> 97 \<le> ord c \<and> ord c \<le> 122"

definition isalpha :: "char \<Rightarrow> bool" where
  "isalpha c \<longleftrightarrow> isupper c \<or> islower c"

definition isalnum :: "char \<Rightarrow> bool" where
  "isalnum c \<longleftrightarrow> isalpha c \<or> isdigit c"

definition isspace :: "char \<Rightarrow> bool" where
  "isspace c \<longleftrightarrow> ord c = 32 \<or> (9 \<le> ord c \<and> ord c \<le> 13)"

definition tolower :: "char \<Rightarrow> char" where
  "tolower c = (if isupper c then char_of (ord c + 32) else c)"

definition toupper :: "char \<Rightarrow> char" where
  "toupper c = (if islower c then char_of (ord c - 32) else c)"

lemmas ctype_defs = isdigit_def isupper_def islower_def isalpha_def isalnum_def isspace_def

lemma tolower_idem [simp]: "tolower (tolower c) = tolower c"
  by (auto simp: tolower_def isupper_def)

lemma map_tolower_idem [simp]: "map tolower (map tolower s) = map tolower s"
  by (simp add: comp_def)

section \<open>Decimal numbers\<close>

definition digit_char :: "nat \<Rightarrow> char" where
  "digit_char n = char_of (48 + n)"

definition digit_val :: "char \<Rightarrow> nat" where
  "digit_val c = ord c - 48"

fun show_nat :: "nat \<Rightarrow> string" where
  "show_nat n = (if n < 10 then [digit_char n] else show_nat (n div 10) @ [digit_char (n mod 10)])"

declare show_nat.simps [simp del]

definition show_int :: "int \<Rightarrow> string" where
  "show_int i = (if i < 0 then CHR ''-'' # show_nat (nat (- i)) else show_nat (nat i))"

fun dec_acc :: "nat \<Rightarrow> string \<Rightarrow> nat" where
  "dec_acc a [] = a"
| "dec_acc a (c # cs) = dec_acc (10 * a + digit_val c) cs"

definition dec_val :: "string \<Rightarrow> nat" where
  "dec_val s = dec_acc 0 s"

lemma digit_val_char [simp]: "n < 10 \<Longrightarrow> digit_val (digit_char n) = n"
  by (simp add: digit_val_def digit_char_def)

lemma digit_char_eval:
  "digit_char 0 = CHR ''0''" "digit_char 1 = CHR ''1''" "digit_char (Suc 0) = CHR ''1''"
  "digit_char 2 = CHR ''2''" "digit_char 3 = CHR ''3''" "digit_char 4 = CHR ''4''"
  "digit_char 5 = CHR ''5''" "digit_char 6 = CHR ''6''" "digit_char 7 = CHR ''7''"
  "digit_char 8 = CHR ''8''" "digit_char 9 = CHR ''9''"
  by code_simp+

lemmas show_nat_eval = show_nat.simps digit_char_eval show_int_def

lemma isdigit_digit_char [simp]: "n < 10 \<Longrightarrow> isdigit (digit_char n)"
  by (simp add: isdigit_def digit_char_def)

lemma dec_acc_append: "dec_acc a (xs @ ys) = dec_acc (dec_acc a xs) ys"
  by (induction a xs rule: dec_acc.induct) auto

lemma dec_val_show_nat [simp]: "dec_val (show_nat n) = n"
proof (induction n rule: show_nat.induct)
  case (1 n)
  then show ?case
    by (subst show_nat.simps) (auto simp: dec_val_def dec_acc_append)
qed

lemma show_nat_digits: "\<forall>c \<in> set (show_nat n). isdigit c"
proof (induction n rule: show_nat.induct)
  case (1 n)
  then show ?case by (subst show_nat.simps) auto
qed

lemma show_nat_nonempty [simp]: "show_nat n \<noteq> []"
  by (subst show_nat.simps) simp

lemma length_show_nat: "n < 10 ^ k \<Longrightarrow> 0 < k \<Longrightarrow> length (show_nat n) \<le> k"
proof (induction n arbitrary: k rule: show_nat.induct)
  case (1 n)
  show ?case
  proof (cases "n < 10")
    case True
    with 1(3) show ?thesis by (subst show_nat.simps) simp
  next
    case False
    with 1(2) have k: "1 < k" by (cases k; cases "k - 1") auto
    with 1(2) have "n div 10 < 10 ^ (k - 1)"
      by (simp add: less_mult_imp_div_less power_eq_if mult.commute)
    with 1(1) False k have "length (show_nat (n div 10)) \<le> k - 1" by simp
    with False k show ?thesis by (subst show_nat.simps) simp
  qed
qed

section \<open>Generic list facts\<close>

lemma takeWhile_append_stop:
  "\<forall>x \<in> set xs. P x \<Longrightarrow> \<not> P y \<Longrightarrow> takeWhile P (xs @ y # ys) = xs"
  by (induction xs) auto

lemma dropWhile_append_stop:
  "\<forall>x \<in> set xs. P x \<Longrightarrow> \<not> P y \<Longrightarrow> dropWhile P (xs @ y # ys) = y # ys"
  by (induction xs) auto

lemma takeWhile_all: "\<forall>x \<in> set xs. P x \<Longrightarrow> takeWhile P xs = xs"
  by (induction xs) auto

lemma dropWhile_all: "\<forall>x \<in> set xs. P x \<Longrightarrow> dropWhile P xs = []"
  by (induction xs) auto

lemma length_dropWhile_less: "xs \<noteq> [] \<Longrightarrow> P (hd xs) \<Longrightarrow> length (dropWhile P xs) < length xs"
  by (cases xs) (auto simp: length_dropWhile_le less_Suc_eq_le)

section \<open>Ordered maps\<close>

text \<open>
  \<open>std::map\<close> with comparator \<open>lt\<close>, as the list of its entries in iteration order. Two
  keys neither of which is less than the other are the same key.
\<close>

fun omap_put :: "('k \<Rightarrow> 'k \<Rightarrow> bool) \<Rightarrow> 'k \<Rightarrow> 'v \<Rightarrow> ('k \<times> 'v) list \<Rightarrow> ('k \<times> 'v) list" where
  "omap_put lt k v [] = [(k, v)]"
| "omap_put lt k v ((k', v') # m) =
     (if lt k k' then (k, v) # (k', v') # m
      else if lt k' k then (k', v') # omap_put lt k v m
      else (k', v) # m)"

fun omap_get :: "('k \<Rightarrow> 'k \<Rightarrow> bool) \<Rightarrow> 'k \<Rightarrow> ('k \<times> 'v) list \<Rightarrow> 'v option" where
  "omap_get lt k [] = None"
| "omap_get lt k ((k', v') # m) = (if \<not> lt k k' \<and> \<not> lt k' k then Some v' else omap_get lt k m)"

fun omap_del :: "('k \<Rightarrow> 'k \<Rightarrow> bool) \<Rightarrow> 'k \<Rightarrow> ('k \<times> 'v) list \<Rightarrow> ('k \<times> 'v) list" where
  "omap_del lt k [] = []"
| "omap_del lt k ((k', v') # m) =
     (if \<not> lt k k' \<and> \<not> lt k' k then omap_del lt k m else (k', v') # omap_del lt k m)"

locale ordered_map =
  fixes lt :: "'k \<Rightarrow> 'k \<Rightarrow> bool" and eqv :: "'k \<Rightarrow> 'k \<Rightarrow> bool"
  assumes neither: "\<not> lt a b \<and> \<not> lt b a \<longleftrightarrow> eqv a b"
    and eqv_sym: "eqv a b \<Longrightarrow> eqv b a"
    and eqv_trans: "eqv a b \<Longrightarrow> eqv b c \<Longrightarrow> eqv a c"
begin

lemma get_put: "omap_get lt k (omap_put lt k' v m) = (if eqv k k' then Some v else omap_get lt k m)"
proof (induction m)
  case Nil
  show ?case using neither by auto
next
  case (Cons p m)
  obtain k'' v'' where p: "p = (k'', v'')" by (cases p)
  consider (new) "lt k' k''" | (later) "\<not> lt k' k''" "lt k'' k'" | (old) "eqv k' k''"
    using neither by blast
  then show ?case
  proof cases
    case new
    then show ?thesis using neither by (auto simp: p)
  next
    case later
    then have "\<not> eqv k' k''" using neither by blast
    then have "eqv k k'' \<Longrightarrow> \<not> eqv k k'" using eqv_sym eqv_trans by blast
    with later Cons show ?thesis using neither by (auto simp: p)
  next
    case old
    then have "\<not> lt k' k''" "\<not> lt k'' k'" using neither by blast+
    moreover have "eqv k k'' \<longleftrightarrow> eqv k k'" using old eqv_sym eqv_trans by blast
    ultimately show ?thesis using neither by (auto simp: p)
  qed
qed

lemma get_del: "omap_get lt k (omap_del lt k' m) = (if eqv k k' then None else omap_get lt k m)"
proof (induction m)
  case (Cons p m)
  obtain k'' v'' where p: "p = (k'', v'')" by (cases p)
  have "eqv k' k'' \<Longrightarrow> eqv k k'' \<longleftrightarrow> eqv k k'"
    and "eqv k k'' \<Longrightarrow> eqv k k' \<Longrightarrow> eqv k' k''"
    using eqv_sym eqv_trans by blast+
  with Cons show ?case using neither by (auto simp: p)
qed simp

end

lemma omap_put_fst: "fst ` set (omap_put lt k v m) \<subseteq> insert k (fst ` set m)"
  by (induction lt k v m rule: omap_put.induct) auto

text \<open>\<open>std::less<std::string>\<close> compares bytes as unsigned numbers.\<close>

fun str_less :: "string \<Rightarrow> string \<Rightarrow> bool" where
  "str_less _ [] = False"
| "str_less [] (_ # _) = True"
| "str_less (a # as) (b # bs) =
     (if ord a < ord b then True else if ord b < ord a then False else str_less as bs)"

lemma str_less_neither: "\<not> str_less a b \<and> \<not> str_less b a \<longleftrightarrow> a = b"
proof (induction a b rule: str_less.induct)
  case (1 a)
  then show ?case by (cases a) auto
next
  case (3 a as b bs)
  then show ?case by (auto simp: ord_inject [symmetric] simp del: ord_inject)
qed auto

interpretation str_map: ordered_map str_less "(=)"
  by unfold_locales (use str_less_neither in auto)

section \<open>Codecs\<close>

text \<open>A printer and a reader that undoes it on the values the printer is meant for.\<close>

locale codec =
  fixes enc :: "'a \<Rightarrow> 'b" and dec :: "'b \<Rightarrow> 'a res" and okay :: "'a \<Rightarrow> bool"
  assumes dec_enc: "okay x \<Longrightarrow> dec (enc x) = Inr x"
begin

lemma enc_inj: "okay x \<Longrightarrow> okay y \<Longrightarrow> enc x = enc y \<longleftrightarrow> x = y"
  using dec_enc by (metis sum.inject(2))

lemma enc_unique: "okay x \<Longrightarrow> dec (enc x) = Inr y \<Longrightarrow> y = x"
  using dec_enc by simp

end

section \<open>Invariants of machines\<close>

text \<open>
  A machine whose steps all keep an invariant keeps it along every run. Every state machine of
  the development (parsers, queues, downloads) is an instance.
\<close>

fun run_steps :: "('s \<Rightarrow> 'e \<Rightarrow> 's) \<Rightarrow> 's \<Rightarrow> 'e list \<Rightarrow> 's" where
  "run_steps step s [] = s"
| "run_steps step s (e # es) = run_steps step (step s e) es"

lemma run_steps_append: "run_steps step s (xs @ ys) = run_steps step (run_steps step s xs) ys"
  by (induction step s xs rule: run_steps.induct) auto

locale inductive_machine =
  fixes init :: "'s" and step :: "'s \<Rightarrow> 'e \<Rightarrow> 's" and inv :: "'s \<Rightarrow> bool"
  assumes init_inv: "inv init"
    and step_inv: "inv s \<Longrightarrow> inv (step s e)"
begin

lemma run_inv_from: "inv s \<Longrightarrow> inv (run_steps step s es)"
  by (induction es arbitrary: s) (auto intro: step_inv)

lemma run_inv: "inv (run_steps step init es)"
  by (rule run_inv_from) (rule init_inv)

end

end
