(* ===== verification/Errors.thy ===== *)
theory Errors
  imports DoPrelude
begin

unbundle bit_operations_syntax

text \<open>
  HRESULTs (client-lite/src/include/hresult_helpers.h, do_error.h), the error macros that throw
  and catch them (client-lite/src/util/error_macros.h and .cpp) and the checked 64-bit
  arithmetic of client-lite/src/util/safe_int.h. An HRESULT is a 32-bit word read as signed.
\<close>

section \<open>Codes\<close>

definition S_OK :: hresult where [hr_defs]: "S_OK = 0"
definition S_FALSE :: hresult where [hr_defs]: "S_FALSE = 1"
definition E_NOTIMPL :: hresult where [hr_defs]: "E_NOTIMPL = 0x80004001"
definition E_FAIL :: hresult where [hr_defs]: "E_FAIL = 0x80004005"
definition E_UNEXPECTED :: hresult where [hr_defs]: "E_UNEXPECTED = 0x8000FFFF"
definition E_OUTOFMEMORY :: hresult where [hr_defs]: "E_OUTOFMEMORY = 0x8007000E"
definition E_INVALIDARG :: hresult where [hr_defs]: "E_INVALIDARG = 0x80070057"
definition E_NOT_SET :: hresult where [hr_defs]: "E_NOT_SET = 0x80070490"
definition WININET_E_TIMEOUT :: hresult where [hr_defs]: "WININET_E_TIMEOUT = 0x80072EE2"
definition INET_E_INVALID_URL :: hresult where [hr_defs]: "INET_E_INVALID_URL = 0x800C0002"
definition E_UNSUPPORTED :: hresult where [hr_defs]: "E_UNSUPPORTED = 0x80070032"
definition STRSAFE_E_INSUFFICIENT_BUFFER :: hresult where
  [hr_defs]: "STRSAFE_E_INSUFFICIENT_BUFFER = 0x8007007A"
definition INTSAFE_E_ARITHMETIC_OVERFLOW :: hresult where
  [hr_defs]: "INTSAFE_E_ARITHMETIC_OVERFLOW = 0x80070216"

definition HTTP_E_STATUS_UNEXPECTED :: hresult where
  [hr_defs]: "HTTP_E_STATUS_UNEXPECTED = 0x80190001"
definition HTTP_E_STATUS_UNEXPECTED_REDIRECTION :: hresult where
  [hr_defs]: "HTTP_E_STATUS_UNEXPECTED_REDIRECTION = 0x80190003"
definition HTTP_E_STATUS_BAD_REQUEST :: hresult where
  [hr_defs]: "HTTP_E_STATUS_BAD_REQUEST = 0x80190190"
definition HTTP_E_STATUS_DENIED :: hresult where [hr_defs]: "HTTP_E_STATUS_DENIED = 0x80190191"
definition HTTP_E_STATUS_FORBIDDEN :: hresult where
  [hr_defs]: "HTTP_E_STATUS_FORBIDDEN = 0x80190193"
definition HTTP_E_STATUS_NOT_FOUND :: hresult where
  [hr_defs]: "HTTP_E_STATUS_NOT_FOUND = 0x80190194"
definition HTTP_E_STATUS_NONE_ACCEPTABLE :: hresult where
  [hr_defs]: "HTTP_E_STATUS_NONE_ACCEPTABLE = 0x80190196"
definition HTTP_E_STATUS_PROXY_AUTH_REQ :: hresult where
  [hr_defs]: "HTTP_E_STATUS_PROXY_AUTH_REQ = 0x80190197"
definition HTTP_E_STATUS_REQUEST_TIMEOUT :: hresult where
  [hr_defs]: "HTTP_E_STATUS_REQUEST_TIMEOUT = 0x80190198"
definition HTTP_E_STATUS_REQUEST_TOO_LARGE :: hresult where
  [hr_defs]: "HTTP_E_STATUS_REQUEST_TOO_LARGE = 0x8019019D"
definition HTTP_E_STATUS_SERVER_ERROR :: hresult where
  [hr_defs]: "HTTP_E_STATUS_SERVER_ERROR = 0x801901F4"
definition HTTP_E_STATUS_NOT_SUPPORTED :: hresult where
  [hr_defs]: "HTTP_E_STATUS_NOT_SUPPORTED = 0x801901F5"
definition HTTP_E_STATUS_BAD_GATEWAY :: hresult where
  [hr_defs]: "HTTP_E_STATUS_BAD_GATEWAY = 0x801901F6"

definition DO_E_NO_SERVICE :: hresult where [hr_defs]: "DO_E_NO_SERVICE = 0x80D01001"
definition DO_E_DOWNLOAD_NO_PROGRESS :: hresult where
  [hr_defs]: "DO_E_DOWNLOAD_NO_PROGRESS = 0x80D02002"
definition DO_E_UNKNOWN_PROPERTY_ID :: hresult where
  [hr_defs]: "DO_E_UNKNOWN_PROPERTY_ID = 0x80D02011"
definition DO_E_READ_ONLY_PROPERTY :: hresult where
  [hr_defs]: "DO_E_READ_ONLY_PROPERTY = 0x80D02012"
definition DO_E_INVALID_STATE :: hresult where [hr_defs]: "DO_E_INVALID_STATE = 0x80D02013"
definition DO_E_FILE_DOWNLOADSINK_UNSPECIFIED :: hresult where
  [hr_defs]: "DO_E_FILE_DOWNLOADSINK_UNSPECIFIED = 0x80D02018"
definition DO_E_INSUFFICIENT_RANGE_SUPPORT :: hresult where
  [hr_defs]: "DO_E_INSUFFICIENT_RANGE_SUPPORT = 0x80D05011"
definition DO_E_DOWNLOAD_NO_URI :: hresult where [hr_defs]: "DO_E_DOWNLOAD_NO_URI = 0x80D02200"
definition DO_E_BLOCKED_BY_NO_NETWORK :: hresult where
  [hr_defs]: "DO_E_BLOCKED_BY_NO_NETWORK = 0x80D03805"

definition ERROR_ALREADY_EXISTS :: u64 where "ERROR_ALREADY_EXISTS = 183"
definition ERROR_BAD_LENGTH :: u64 where "ERROR_BAD_LENGTH = 24"
definition ERROR_UNHANDLED_EXCEPTION :: u64 where "ERROR_UNHANDLED_EXCEPTION = 574"
definition ERROR_INVALID_STATE :: u64 where "ERROR_INVALID_STATE = 5023"
definition ERROR_WINHTTP_NAME_NOT_RESOLVED :: u64 where
  "ERROR_WINHTTP_NAME_NOT_RESOLVED = 12007"
definition ERROR_WINHTTP_CANNOT_CONNECT :: u64 where "ERROR_WINHTTP_CANNOT_CONNECT = 12029"

lemmas win32_defs = ERROR_ALREADY_EXISTS_def ERROR_BAD_LENGTH_def ERROR_UNHANDLED_EXCEPTION_def
  ERROR_INVALID_STATE_def ERROR_WINHTTP_NAME_NOT_RESOLVED_def ERROR_WINHTTP_CANNOT_CONNECT_def

section \<open>Macros\<close>

definition SUCCEEDED :: "hresult \<Rightarrow> bool" where
  "SUCCEEDED hr \<longleftrightarrow> 0 \<le> sint hr"

definition FAILED :: "hresult \<Rightarrow> bool" where
  "FAILED hr \<longleftrightarrow> sint hr < 0"

definition FACILITY_WIN32 :: nat where "FACILITY_WIN32 = 7"
definition FACILITY_DELIVERY_OPTIMIZATION :: nat where "FACILITY_DELIVERY_OPTIMIZATION = 208"

definition HRESULT_FACILITY :: "hresult \<Rightarrow> hresult" where
  "HRESULT_FACILITY hr = (drop_bit 16 hr) AND 0x1FFF"

definition HRESULT_CODE :: "hresult \<Rightarrow> hresult" where
  "HRESULT_CODE hr = hr AND 0xFFFF"

text \<open>\<open>unsigned long\<close> is 64 bits wide on the platforms the agent is built for.\<close>

definition HRESULT_FROM_WIN32 :: "u64 \<Rightarrow> hresult" where
  "HRESULT_FROM_WIN32 x =
     (if sint (ucast x :: 32 word) \<le> 0 then ucast x
      else (ucast (x AND 0x0000FFFF)) OR (push_bit 16 (of_nat FACILITY_WIN32)) OR 0x80000000)"

definition HRESULT_FROM_XPLAT_SYSERR :: "32 word \<Rightarrow> hresult" where
  "HRESULT_FROM_XPLAT_SYSERR err =
     0xC0000000 OR push_bit 16 (of_nat FACILITY_DELIVERY_OPTIMIZATION) OR (err AND 0x0000FFFF)"

text \<open>An \<open>error_code\<close> converts to \<open>true\<close> when its value is not zero.\<close>

definition HRESULT_FROM_STDCPP :: "32 word \<Rightarrow> hresult" where
  "HRESULT_FROM_STDCPP ec = (if ec \<noteq> 0 then HRESULT_FROM_XPLAT_SYSERR ec else S_OK)"

definition HRESULT_FROM_BOOST :: "32 word \<Rightarrow> hresult" where
  "HRESULT_FROM_BOOST ec = (if ec \<noteq> 0 then HRESULT_FROM_XPLAT_SYSERR ec else S_OK)"

definition E_NOT_VALID_STATE :: hresult where
  "E_NOT_VALID_STATE = HRESULT_FROM_WIN32 ERROR_INVALID_STATE"

lemma FAILED_iff_not_SUCCEEDED: "FAILED hr \<longleftrightarrow> \<not> SUCCEEDED hr"
  by (auto simp: FAILED_def SUCCEEDED_def)

lemma FAILED_bit31: "FAILED hr \<longleftrightarrow> bit hr 31"
  using bit_last_iff [of hr] by (simp add: FAILED_def)

section \<open>Throwing\<close>

datatype FailureType = FT_Exception | FT_Return | FT_Log | FT_FailFast

text \<open>
  \<open>LogFailure\<close> turns a success code that leaks into a failure path into
  \<open>E_UNEXPECTED\<close>; \<open>ReportFailure\<close> throws for the \<open>Exception\<close> kind only.
\<close>

definition LogFailure :: "hresult \<Rightarrow> hresult" where
  "LogFailure hr = (if SUCCEEDED hr then E_UNEXPECTED else hr)"

definition ReportFailure :: "FailureType \<Rightarrow> hresult \<Rightarrow> unit res" where
  "ReportFailure type hr =
     (case type of
        FT_FailFast \<Rightarrow> Inr ()
      | FT_Exception \<Rightarrow> Inl (DOResult (LogFailure hr))
      | _ \<Rightarrow> Inr ())"

definition Throw_Hr :: "hresult \<Rightarrow> unit res" where
  "Throw_Hr hr = ReportFailure FT_Exception hr"

definition Throw_HrIf :: "hresult \<Rightarrow> bool \<Rightarrow> bool res" where
  "Throw_HrIf hr cond =
     rbind (if cond then Throw_Hr hr else Inr ()) (\<lambda>_. Inr cond)"

definition Throw_IfFailed :: "hresult \<Rightarrow> hresult res" where
  "Throw_IfFailed hr = rbind (if FAILED hr then Throw_Hr hr else Inr ()) (\<lambda>_. Inr hr)"

text \<open>The exception value a \<open>THROW_HR\<close> raises, and the two guards over a state.\<close>

definition hr_exn :: "hresult \<Rightarrow> exn" where
  "hr_exn hr = DOResult (LogFailure hr)"

definition throw_hr :: "hresult \<Rightarrow> ('s, 'a) sm" where
  "throw_hr hr = sthrow (hr_exn hr)"

definition throw_hr_if :: "hresult \<Rightarrow> bool \<Rightarrow> ('s, unit) sm" where
  "throw_hr_if hr cond = (if cond then throw_hr hr else sret ())"

definition throw_if_failed :: "hresult \<Rightarrow> ('s, unit) sm" where
  "throw_if_failed hr = (if FAILED hr then throw_hr hr else sret ())"

lemma throw_hr_run [simp]: "throw_hr hr s = (Inl (hr_exn hr), s)"
  by (simp add: throw_hr_def)

lemma throw_hr_if_run: "throw_hr_if hr c s = (if c then (Inl (hr_exn hr), s) else (Inr (), s))"
  by (simp add: throw_hr_if_def)

lemma throw_if_failed_run:
  "throw_if_failed hr s = (if FAILED hr then (Inl (hr_exn hr), s) else (Inr (), s))"
  by (simp add: throw_if_failed_def)

lemma skeeps_throw_hr_if [intro]: "skeeps P (throw_hr_if hr c)"
  by (auto simp: throw_hr_if_def throw_hr_def)

lemma skeeps_throw_if_failed [intro]: "skeeps P (throw_if_failed hr)"
  by (auto simp: throw_if_failed_def throw_hr_def)

lemma Throw_Hr_exn: "Throw_Hr hr = Inl (hr_exn hr)"
  by (simp add: Throw_Hr_def ReportFailure_def hr_exn_def)

section \<open>Catching\<close>

text \<open>
  \<open>ResultFromCaughtExceptionInternal\<close> in the order of its handlers; \<open>S_OK\<close> stands for an
  exception it could not map, which \<open>ReportFailure_CaughtExceptionCommon\<close> then reports as an
  unhandled exception.
\<close>

fun ResultFromCaughtExceptionInternal :: "exn \<Rightarrow> hresult" where
  "ResultFromCaughtExceptionInternal (DOResult hr) = hr"
| "ResultFromCaughtExceptionInternal (BoostSystemError ec) = HRESULT_FROM_BOOST ec"
| "ResultFromCaughtExceptionInternal BadAlloc = E_OUTOFMEMORY"
| "ResultFromCaughtExceptionInternal (StdExn _) = HRESULT_FROM_WIN32 ERROR_UNHANDLED_EXCEPTION"
| "ResultFromCaughtExceptionInternal UnknownExn = S_OK"

definition ReportFailure_CaughtExceptionCommon :: "FailureType \<Rightarrow> exn \<Rightarrow> hresult res" where
  "ReportFailure_CaughtExceptionCommon type e =
     (let hr0 = ResultFromCaughtExceptionInternal e;
          known = FAILED hr0;
          hr = (if \<not> known then HRESULT_FROM_WIN32 ERROR_UNHANDLED_EXCEPTION else hr0);
          type' = (if \<not> known then FT_FailFast else type)
      in rbind (ReportFailure type' hr) (\<lambda>_. Inr hr))"

definition ResultFromCaughtException :: "exn \<Rightarrow> hresult" where
  "ResultFromCaughtException e =
     (let hr = ResultFromCaughtExceptionInternal e
      in if FAILED hr then hr else HRESULT_FROM_WIN32 ERROR_UNHANDLED_EXCEPTION)"

text \<open>
  The value \<open>CATCH_RETURN\<close> returns and \<open>LOG_CAUGHT_EXCEPTION\<close> yields: neither kind
  throws, so the result is always there.
\<close>

definition caught :: "exn \<Rightarrow> hresult" where
  "caught e = (case ReportFailure_CaughtExceptionCommon FT_Return e of Inr hr \<Rightarrow> hr | Inl _ \<Rightarrow> S_OK)"

definition catch_return :: "('s, hresult) sm \<Rightarrow> 's \<Rightarrow> hresult \<times> 's" where
  "catch_return m s = (case m s of (Inl e, s') \<Rightarrow> (caught e, s') | (Inr hr, s') \<Rightarrow> (hr, s'))"

lemma catch_return_snd [simp]: "snd (catch_return m s) = snd (m s)"
  by (simp add: catch_return_def split: prod.splits sum.splits)

lemma hr_unhandled: "HRESULT_FROM_WIN32 ERROR_UNHANDLED_EXCEPTION = 0x8007023E"
  by (simp add: HRESULT_FROM_WIN32_def ERROR_UNHANDLED_EXCEPTION_def FACILITY_WIN32_def)

lemma FAILED_unhandled [simp]: "FAILED (HRESULT_FROM_WIN32 ERROR_UNHANDLED_EXCEPTION)"
  by (simp add: hr_unhandled FAILED_def)

lemma FAILED_LogFailure [simp]: "FAILED (LogFailure hr)"
  by (auto simp: LogFailure_def FAILED_iff_not_SUCCEEDED E_UNEXPECTED_def SUCCEEDED_def)

lemma LogFailure_id [simp]: "FAILED hr \<Longrightarrow> LogFailure hr = hr"
  by (simp add: LogFailure_def FAILED_iff_not_SUCCEEDED)

lemma caught_eq: "caught e = ResultFromCaughtException e"
  by (auto simp: caught_def ReportFailure_CaughtExceptionCommon_def ResultFromCaughtException_def
      ReportFailure_def Let_def)

lemma FAILED_caught [simp]: "FAILED (caught e)"
  by (auto simp: caught_eq ResultFromCaughtException_def Let_def)

lemma caught_hr_exn [simp]: "caught (hr_exn hr) = LogFailure hr"
  by (simp add: caught_eq ResultFromCaughtException_def hr_exn_def)

lemma hr_failed [simp]:
  "FAILED E_INVALIDARG" "FAILED E_NOTIMPL" "FAILED E_UNEXPECTED" "FAILED E_OUTOFMEMORY"
  "FAILED E_NOT_SET" "FAILED E_FAIL" "FAILED E_UNSUPPORTED" "FAILED INET_E_INVALID_URL"
  "FAILED DO_E_NO_SERVICE" "FAILED DO_E_INVALID_STATE" "FAILED DO_E_READ_ONLY_PROPERTY"
  "FAILED DO_E_UNKNOWN_PROPERTY_ID" "FAILED DO_E_DOWNLOAD_NO_URI"
  "FAILED DO_E_FILE_DOWNLOADSINK_UNSPECIFIED" "FAILED DO_E_DOWNLOAD_NO_PROGRESS"
  "FAILED DO_E_BLOCKED_BY_NO_NETWORK" "FAILED INTSAFE_E_ARITHMETIC_OVERFLOW"
  "FAILED WININET_E_TIMEOUT" "FAILED DO_E_INSUFFICIENT_RANGE_SUPPORT"
  "FAILED STRSAFE_E_INSUFFICIENT_BUFFER"
  by (simp_all add: hr_defs FAILED_def)

lemma hr_succeeded [simp]:
  "\<not> FAILED S_OK" "\<not> FAILED S_FALSE" "SUCCEEDED S_OK" "SUCCEEDED S_FALSE"
  by (simp_all add: hr_defs FAILED_def SUCCEEDED_def)

section \<open>Conversions keep the failure and the code\<close>

lemma xplat_code: "HRESULT_CODE (HRESULT_FROM_XPLAT_SYSERR err) = err AND 0xFFFF"
  by (simp add: HRESULT_CODE_def HRESULT_FROM_XPLAT_SYSERR_def FACILITY_DELIVERY_OPTIMIZATION_def
      bit.conj_disj_distrib2 and.assoc and.left_commute)

lemma xplat_facility: "HRESULT_FACILITY (HRESULT_FROM_XPLAT_SYSERR err) = 208"
proof -
  have "drop_bit 16 (err AND 0xFFFF) = (0 :: 32 word)"
    by (simp add: drop_bit_and)
  then show ?thesis
    by (simp add: HRESULT_FACILITY_def HRESULT_FROM_XPLAT_SYSERR_def drop_bit_or
        FACILITY_DELIVERY_OPTIMIZATION_def)
qed

lemma xplat_failed [simp]: "FAILED (HRESULT_FROM_XPLAT_SYSERR err)"
  by (simp add: FAILED_bit31 HRESULT_FROM_XPLAT_SYSERR_def bit_or_iff bit_and_iff)

section \<open>Checked arithmetic\<close>

definition UInt64Add :: "u64 \<Rightarrow> u64 \<Rightarrow> u64 res" where
  "UInt64Add a b = rbind (Throw_HrIf INTSAFE_E_ARITHMETIC_OVERFLOW (a + b < a)) (\<lambda>_. Inr (a + b))"

definition UInt64Sub :: "u64 \<Rightarrow> u64 \<Rightarrow> u64 res" where
  "UInt64Sub a b = rbind (Throw_HrIf INTSAFE_E_ARITHMETIC_OVERFLOW (a < b)) (\<lambda>_. Inr (a - b))"

lemma Throw_HrIf_simps [simp]:
  "Throw_HrIf hr True = Inl (hr_exn hr)"
  "Throw_HrIf hr False = Inr False"
  by (simp_all add: Throw_HrIf_def Throw_Hr_exn)

lemma word_add_overflow_iff: "(a :: u64) + b < a \<longleftrightarrow> 2 ^ 64 \<le> unat a + unat b"
proof -
  have "unat a < 2 ^ LENGTH(64)" "unat b < 2 ^ LENGTH(64)"
    by (rule unsigned_less)+
  then show ?thesis
    by (cases "unat a + unat b < 2 ^ 64")
      (auto simp: word_less_nat_alt unat_word_ariths mod_if)
qed

lemma UInt64Add_exact:
  "UInt64Add a b = (if unat a + unat b < 2 ^ 64 then Inr (a + b)
                    else Inl (DOResult INTSAFE_E_ARITHMETIC_OVERFLOW))"
  by (auto simp: UInt64Add_def word_add_overflow_iff hr_exn_def)

lemma UInt64Add_value: "UInt64Add a b = Inr c \<Longrightarrow> unat c = unat a + unat b"
  by (auto simp: UInt64Add_exact unat_word_ariths split: if_splits)

lemma UInt64Sub_exact:
  "UInt64Sub a b = (if unat b \<le> unat a then Inr (a - b)
                    else Inl (DOResult INTSAFE_E_ARITHMETIC_OVERFLOW))"
  by (auto simp: UInt64Sub_def word_less_nat_alt hr_exn_def)

lemma UInt64Sub_value: "UInt64Sub a b = Inr c \<Longrightarrow> unat c = unat a - unat b"
  by (auto simp: UInt64Sub_exact unat_sub_if_size word_size split: if_splits)

end
