(* ===== verification/StringOps.thy ===== *)
theory StringOps
  imports Errors
begin

text \<open>
  client-lite/src/util/string_ops.h and string_ops.cpp: case-insensitive comparison, bounded
  concatenation and formatting, partitioning, and the conversion of property values to UINT.
  A \<open>char\<close> is a byte; where the code compares the \<open>int\<close> that \<open>std::tolower\<close> returns, bytes
  above 127 are negative (\<open>char\<close> is signed on x86-64).
\<close>

section \<open>Ordering and comparison\<close>

definition schar :: "char \<Rightarrow> int" where
  "schar c = (if ord c < 128 then int (ord c) else int (ord c) - 256)"

definition ch_iless :: "char \<Rightarrow> char \<Rightarrow> bool" where
  "ch_iless c1 c2 \<longleftrightarrow> schar (tolower c1) < schar (tolower c2)"

text \<open>\<open>std::lexicographical_compare\<close> with \<open>ch_iless\<close>.\<close>

fun str_iless :: "string \<Rightarrow> string \<Rightarrow> bool" where
  "str_iless _ [] = False"
| "str_iless [] (_ # _) = True"
| "str_iless (a # as) (b # bs) =
     (if ch_iless a b then True else if ch_iless b a then False else str_iless as bs)"

definition case_insensitive_str_less :: "string \<Rightarrow> string \<Rightarrow> bool" where
  "case_insensitive_str_less l r = str_iless l r"

text \<open>
  \<open>StringCompareCaseInsensitive\<close> walks two C strings; its arguments here are the strings up to
  their terminating NUL, so the loop ends when one of the lists does.
\<close>

fun compare_loop :: "string \<Rightarrow> string \<Rightarrow> int" where
  "compare_loop (l # ls) (r # rs) =
     (if schar (toupper l) < schar (toupper r) then - 1
      else if schar (toupper l) > schar (toupper r) then 1
      else compare_loop ls rs)"
| "compare_loop [] (_ # _) = - 1"
| "compare_loop (_ # _) [] = 1"
| "compare_loop [] [] = 0"

definition StringCompareCaseInsensitive :: "string \<Rightarrow> string \<Rightarrow> int" where
  "StringCompareCaseInsensitive left right = compare_loop (c_str left) (c_str right)"

lemma schar_inject [simp]: "schar a = schar b \<longleftrightarrow> a = b"
proof
  assume "schar a = schar b"
  moreover have "ord a < 256" "ord b < 256" by simp_all
  ultimately have "ord a = ord b"
    unfolding schar_def by (simp split: if_splits; linarith)
  then show "a = b" by simp
qed simp

lemma ch_iless_neither: "\<not> ch_iless a b \<and> \<not> ch_iless b a \<longleftrightarrow> tolower a = tolower b"
  unfolding ch_iless_def by (metis linorder_less_linear less_irrefl schar_inject)

lemma ch_iless_trans: "ch_iless a b \<Longrightarrow> ch_iless b c \<Longrightarrow> ch_iless a c"
  by (auto simp: ch_iless_def)

lemma ch_iless_eq_trans:
  "tolower a = tolower b \<Longrightarrow> ch_iless b c \<longleftrightarrow> ch_iless a c"
  "tolower b = tolower c \<Longrightarrow> ch_iless a b \<longleftrightarrow> ch_iless a c"
  by (auto simp: ch_iless_def)

lemma ch_iless_asym: "ch_iless a b \<Longrightarrow> \<not> ch_iless b a"
  by (simp add: ch_iless_def)

lemma str_iless_irrefl: "\<not> str_iless s s"
  by (induction s) (auto simp: ch_iless_def)

lemma str_iless_neither:
  "\<not> str_iless l r \<and> \<not> str_iless r l \<longleftrightarrow> map tolower l = map tolower r"
proof (induction l r rule: str_iless.induct)
  case (3 a as b bs)
  then show ?case
    using ch_iless_neither [of a b] by (auto dest: ch_iless_asym)
qed (auto elim: str_iless.elims)

lemma str_iless_trans: "str_iless a b \<Longrightarrow> str_iless b c \<Longrightarrow> str_iless a c"
proof (induction a c arbitrary: b rule: str_iless.induct)
  case (1 x)
  then show ?case by simp
next
  case (2 c cs)
  then show ?case by simp
next
  case (3 x xs z zs)
  then obtain y ys where b: "b = y # ys" by (cases b) auto
  show ?case
  proof (cases "ch_iless x y \<or> ch_iless y z")
    case True
    then have "ch_iless x z"
      using 3(2,3) b ch_iless_trans ch_iless_eq_trans ch_iless_neither
      by (metis str_iless.simps(3))
    then show ?thesis by simp
  next
    case False
    with 3(2,3) b have eq: "tolower x = tolower y" "tolower y = tolower z"
      and rest: "str_iless xs ys" "str_iless ys zs"
      using ch_iless_neither by (auto split: if_splits)
    then have "\<not> ch_iless x z" "\<not> ch_iless z x" using ch_iless_neither [of x z] by auto
    with 3(1) rest show ?thesis by simp
  qed
qed

lemma compare_loop_zero: "compare_loop l r = 0 \<longleftrightarrow> map toupper l = map toupper r"
proof (induction l r rule: compare_loop.induct)
  case (1 l ls r rs)
  have "\<not> schar (toupper l) < schar (toupper r) \<and> \<not> schar (toupper r) < schar (toupper l)
      \<longleftrightarrow> toupper l = toupper r"
    by (metis linorder_less_linear less_irrefl schar_inject)
  with 1 show ?case by auto
qed auto

lemma ord_toupper: "ord (toupper c) = (if 97 \<le> ord c \<and> ord c \<le> 122 then ord c - 32 else ord c)"
  by (auto simp: toupper_def islower_def intro: ord_char_of)

lemma ord_tolower: "ord (tolower c) = (if 65 \<le> ord c \<and> ord c \<le> 90 then ord c + 32 else ord c)"
  by (simp add: tolower_def isupper_def)

lemma toupper_eq_iff: "toupper a = toupper b \<longleftrightarrow> tolower a = tolower b"
  unfolding ord_inject [symmetric] ord_toupper ord_tolower
  by (cases "97 \<le> ord a \<and> ord a \<le> 122"; cases "97 \<le> ord b \<and> ord b \<le> 122";
      cases "65 \<le> ord a \<and> ord a \<le> 90"; cases "65 \<le> ord b \<and> ord b \<le> 90")
    (simp_all del: ord_inject, (linarith | simp)+)

section \<open>Cleanup, partition, concatenation, formatting\<close>

text \<open>One turn of the loop erases the first character of the set; the loop ends when none is left.\<close>

fun erase_first_of :: "string \<Rightarrow> string \<Rightarrow> string option" where
  "erase_first_of rm [] = None"
| "erase_first_of rm (c # cs) =
     (if c \<in> set rm then Some cs else map_option ((#) c) (erase_first_of rm cs))"

lemma erase_first_of_length: "erase_first_of rm s = Some t \<Longrightarrow> length t < length s"
  by (induction s arbitrary: t) (auto split: if_splits)

function StringCleanup :: "string \<Rightarrow> string \<Rightarrow> string" where
  "StringCleanup s rm = (case erase_first_of rm s of None \<Rightarrow> s | Some t \<Rightarrow> StringCleanup t rm)"
  by pat_completeness auto
termination
  by (relation "measure (length \<circ> fst)") (auto dest: erase_first_of_length)

declare StringCleanup.simps [simp del]

lemma erase_first_of_filter:
  "erase_first_of rm s = Some t \<Longrightarrow> filter (\<lambda>c. c \<notin> set rm) t = filter (\<lambda>c. c \<notin> set rm) s"
  by (induction s arbitrary: t) (auto split: if_splits)

lemma erase_first_of_None: "erase_first_of rm s = None \<longleftrightarrow> (\<forall>c \<in> set s. c \<notin> set rm)"
  by (induction s) auto

lemma StringCleanup_filter: "StringCleanup s rm = filter (\<lambda>c. c \<notin> set rm) s"
proof (induction s rm rule: StringCleanup.induct)
  case (1 s rm)
  show ?case
  proof (cases "erase_first_of rm s")
    case None
    then have "filter (\<lambda>c. c \<notin> set rm) s = s"
      by (simp add: erase_first_of_None filter_id_conv)
    with None show ?thesis by (subst StringCleanup.simps) simp
  next
    case (Some t)
    with 1 show ?thesis
      by (subst StringCleanup.simps) (auto dest: erase_first_of_filter)
  qed
qed

definition StringConcatenate :: "string \<Rightarrow> nat \<Rightarrow> string \<Rightarrow> string \<times> hresult" where
  "StringConcatenate dest cchDest src =
     (let totalLen = length dest + length src
      in if totalLen < cchDest then (dest @ src, S_OK) else (dest, STRSAFE_E_INSUFFICIENT_BUFFER))"

text \<open>
  \<open>snprintf\<close> of a text \<open>txt\<close> into a buffer of \<open>len\<close> characters: what the buffer holds
  before its NUL, and the length it would have needed.
\<close>

definition snprintf :: "nat \<Rightarrow> string \<Rightarrow> string \<times> nat" where
  "snprintf len txt = (take (len - 1) txt, length txt)"

definition StringPrintf :: "nat \<Rightarrow> string \<Rightarrow> string \<times> hresult" where
  "StringPrintf len txt =
     (let (buf, cchWritten) = snprintf len txt
      in (buf, if cchWritten < len then S_OK else STRSAFE_E_INSUFFICIENT_BUFFER))"

text \<open>The overloads that report the number of characters written.\<close>

definition StringPrintfV :: "nat \<Rightarrow> string \<Rightarrow> string \<times> nat \<times> hresult" where
  "StringPrintfV len txt =
     (let (buf, cchWritten) = snprintf len txt
      in if cchWritten < len then (buf, cchWritten, S_OK)
         else (buf, 0, STRSAFE_E_INSUFFICIENT_BUFFER))"

lemma StringPrintf_fits: "length txt < len \<Longrightarrow> StringPrintf len txt = (txt, S_OK)"
  by (simp add: StringPrintf_def snprintf_def)

fun find_char :: "char \<Rightarrow> string \<Rightarrow> nat option" where
  "find_char c [] = None"
| "find_char c (x # xs) = (if x = c then Some 0 else map_option Suc (find_char c xs))"

definition StringPartition :: "string \<Rightarrow> char \<Rightarrow> string list" where
  "StringPartition input separator =
     (case find_char separator input of
        None \<Rightarrow> []
      | Some pos \<Rightarrow>
          (if 0 < pos then [take pos input] else []) @
          (if pos < length input - 1 then [drop (pos + 1) input] else []))"

lemma find_char_None: "find_char c s = None \<longleftrightarrow> c \<notin> set s"
  by (induction s) auto

lemma find_char_split: "c \<notin> set xs \<Longrightarrow> find_char c (xs @ c # ys) = Some (length xs)"
  by (induction xs) auto

lemma find_char_Some:
  "find_char c s = Some n \<Longrightarrow> n < length s \<and> c \<notin> set (take n s) \<and> s = take n s @ c # drop (Suc n) s"
  by (induction s arbitrary: n) (auto split: if_splits)

lemma find_char_nth: "find_char c s = Some n \<Longrightarrow> s ! n = c"
  by (induction s arbitrary: n) (auto split: if_splits)

lemma find_char_append:
  "find_char c (xs @ ys) = (case find_char c xs of Some n \<Rightarrow> Some n
     | None \<Rightarrow> map_option (\<lambda>n. length xs + n) (find_char c ys))"
  by (induction xs) (cases "find_char c ys"; auto split: option.splits)+

lemma StringPartition_split:
  assumes "sep \<notin> set xs"
  shows "StringPartition (xs @ sep # ys) sep = filter (\<lambda>s. s \<noteq> []) [xs, ys]"
  using assms by (cases xs; cases ys) (auto simp: StringPartition_def find_char_split)

section \<open>Numbers\<close>

text \<open>
  \<open>std::stoul\<close> in base 10: skip white space, an optional sign, then the longest run of
  digits; no digit is \<open>invalid_argument\<close>, a value past \<open>ULONG_MAX\<close> is \<open>out_of_range\<close>,
  and a minus sign negates modulo \<open>2 ^ 64\<close>. Text after the digits is ignored.
\<close>

definition stoul :: "string \<Rightarrow> u64 res" where
  "stoul val =
     (let s = dropWhile isspace (c_str val);
          neg = (case s of c # _ \<Rightarrow> c = CHR ''-'' | [] \<Rightarrow> False);
          t = (case s of c # cs \<Rightarrow> if c = CHR ''-'' \<or> c = CHR ''+'' then cs else s | [] \<Rightarrow> []);
          ds = takeWhile isdigit t
      in if ds = [] then Inl (StdExn ''invalid_argument'')
         else if 2 ^ 64 \<le> dec_val ds then Inl (StdExn ''out_of_range'')
         else Inr (if neg then - of_nat (dec_val ds) else of_nat (dec_val ds)))"

text \<open>The same with the bound as an integer, which evaluates.\<close>

lemma stoul_code [code]:
  "stoul val =
     (let s = dropWhile isspace (c_str val);
          neg = (case s of c # _ \<Rightarrow> c = CHR ''-'' | [] \<Rightarrow> False);
          t = (case s of c # cs \<Rightarrow> if c = CHR ''-'' \<or> c = CHR ''+'' then cs else s | [] \<Rightarrow> []);
          ds = takeWhile isdigit t
      in if ds = [] then Inl (StdExn ''invalid_argument'')
         else if (2 :: int) ^ 64 \<le> int (dec_val ds) then Inl (StdExn ''out_of_range'')
         else Inr (if neg then - of_nat (dec_val ds) else of_nat (dec_val ds)))"
proof -
  have "(2 :: int) ^ 64 \<le> int n \<longleftrightarrow> 2 ^ 64 \<le> n" for n :: nat by simp
  then show ?thesis by (simp only: stoul_def)
qed

definition ToUInt :: "string \<Rightarrow> u32 res" where
  "ToUInt val =
     (case stoul val of
        Inr v \<Rightarrow> Inr (ucast v)
      | Inl (StdExn w) \<Rightarrow>
          (if w = ''invalid_argument'' \<or> w = ''out_of_range''
           then Inl (hr_exn E_INVALIDARG) else Inl (StdExn w))
      | Inl e \<Rightarrow> Inl e)"

lemma isdigit_not_space: "isdigit c \<Longrightarrow> \<not> isspace c"
  by (auto simp: isdigit_def isspace_def)

lemma isdigit_not_NUL: "isdigit c \<Longrightarrow> c \<noteq> NUL"
  by (auto simp: isdigit_def NUL_def ord_def)

lemma isdigit_not_sign: "isdigit c \<Longrightarrow> c \<noteq> CHR ''-'' \<and> c \<noteq> CHR ''+''"
  by (auto simp: isdigit_def ord_def)

lemma c_str_show_nat [simp]: "c_str (show_nat n) = show_nat n"
  using show_nat_digits [of n] isdigit_not_NUL by (auto intro!: c_str_id)

lemma stoul_show_nat:
  "stoul (show_nat n) = (if n < 2 ^ 64 then Inr (of_nat n) else Inl (StdExn ''out_of_range''))"
proof -
  obtain c cs where s: "show_nat n = c # cs" using show_nat_nonempty [of n] by (cases "show_nat n") auto
  have d: "\<forall>x \<in> set (show_nat n). isdigit x" by (rule show_nat_digits)
  then have c: "\<not> isspace c" "c \<noteq> CHR ''-''" "c \<noteq> CHR ''+''"
    using s isdigit_not_space isdigit_not_sign by auto
  have tw: "takeWhile isdigit (show_nat n) = show_nat n" using d by (rule takeWhile_all)
  have "dropWhile isspace (c_str (show_nat n)) = show_nat n"
    unfolding c_str_show_nat unfolding s using c(1) by simp
  then have "stoul (show_nat n) =
      (let ds = takeWhile isdigit (show_nat n)
       in if ds = [] then Inl (StdExn ''invalid_argument'')
         else if 2 ^ 64 \<le> dec_val ds then Inl (StdExn ''out_of_range'')
         else Inr (of_nat (dec_val ds)))"
    unfolding stoul_def by (simp only: Let_def) (simp add: s c)
  then show ?thesis by (simp add: tw)
qed

end
