(* ===== verification/Util.thy ===== *)
theory Util
  imports StringOps
begin

text \<open>
  client-lite/src/util: the POSIX file wrapper (do_file), the stop watch, the round-robin proxy
  list (proxy_finder), GUID printing and reading (do_guid).
\<close>

section \<open>Files\<close>

text \<open>
  The file system maps a path to the bytes of a regular file. A system call takes its outcome from
  a list of faults, one per call: \<open>None\<close> lets it behave as POSIX describes, \<open>SysErr\<close> makes it
  fail with that errno, \<open>SysShort n\<close> makes a write store only the first \<open>n\<close> bytes.
\<close>

datatype sys_fault = SysErr "32 word" | SysShort nat

record file_system =
  fs_files :: "string \<Rightarrow> string option"
  fs_faults :: "sys_fault option list"

definition ENOENT :: "32 word" where "ENOENT = 2"
definition EEXIST :: "32 word" where "EEXIST = 17"

definition EBADF :: "32 word" where "EBADF = 9"

definition next_fault :: "(file_system, sys_fault option) sm" where
  "next_fault s =
     (case fs_faults s of
        [] \<Rightarrow> (Inr None, s)
      | f # fs \<Rightarrow> (Inr f, s\<lparr>fs_faults := fs\<rparr>))"

text \<open>
  A \<open>DOFile\<close> holds a descriptor or -1; the descriptor is identified by the path it was opened
  on. Writing to a descriptor whose path has been removed leaves the directory as it is.
\<close>

type_synonym do_file = "string option"

definition IsValid :: "do_file \<Rightarrow> bool" where
  "IsValid f \<longleftrightarrow> f \<noteq> None"

definition errno_hr :: "32 word \<Rightarrow> hresult" where
  "errno_hr e = HRESULT_FROM_XPLAT_SYSERR e"

definition DOFile_Create :: "string \<Rightarrow> (file_system, do_file) sm" where
  "DOFile_Create path =
     sbind next_fault (\<lambda>fault s.
       case fault of
         Some (SysErr e) \<Rightarrow> throw_hr (errno_hr e) s
       | _ \<Rightarrow>
           (if fs_files s path \<noteq> None then throw_hr (errno_hr EEXIST) s
            else (Inr (Some path), s\<lparr>fs_files := (fs_files s)(path \<mapsto> [])\<rparr>)))"

definition DOFile_Open :: "string \<Rightarrow> (file_system, do_file) sm" where
  "DOFile_Open path =
     sbind next_fault (\<lambda>fault s.
       case fault of
         Some (SysErr e) \<Rightarrow> throw_hr (errno_hr e) s
       | _ \<Rightarrow>
           (if fs_files s path = None then throw_hr (errno_hr ENOENT) s
            else (Inr (Some path), s)))"

text \<open>\<open>Delete\<close> logs a failure and never throws.\<close>

definition DOFile_Delete :: "string \<Rightarrow> (file_system, unit) sm" where
  "DOFile_Delete path =
     sbind next_fault (\<lambda>fault s.
       case fault of
         Some (SysErr e) \<Rightarrow> (Inr (), s)
       | _ \<Rightarrow> (Inr (), s\<lparr>fs_files := (fs_files s)(path := None)\<rparr>))"

definition DOFile_Append :: "do_file \<Rightarrow> string \<Rightarrow> (file_system, unit) sm" where
  "DOFile_Append f pData =
     sbind next_fault (\<lambda>fault s.
       case fault of
         Some (SysErr e) \<Rightarrow> throw_hr (errno_hr e) s
       | _ \<Rightarrow>
           (case f of
              None \<Rightarrow> throw_hr (errno_hr EBADF) s
            | Some path \<Rightarrow>
                let stored = (case fault of Some (SysShort n) \<Rightarrow> take n pData | _ \<Rightarrow> pData)
                in throw_hr_if (HRESULT_FROM_WIN32 ERROR_BAD_LENGTH) (length stored \<noteq> length pData)
                     (s\<lparr>fs_files := (fs_files s)(path := map_option (\<lambda>d. d @ stored) (fs_files s path))\<rparr>)))"

definition DOFile_Close :: "do_file \<Rightarrow> (file_system, do_file) sm" where
  "DOFile_Close f =
     (if f \<noteq> None then
        sbind next_fault (\<lambda>fault s.
          case fault of
            Some (SysErr e) \<Rightarrow> throw_hr (errno_hr e) s
          | _ \<Rightarrow> (Inr None, s))
      else sret f)"

lemma DOFile_Append_ok:
  assumes "DOFile_Append (Some path) d s = (Inr (), s')"
  shows "fs_files s' = (fs_files s)(path := map_option (\<lambda>x. x @ d) (fs_files s path))"
  using assms
  by (auto simp: DOFile_Append_def sbind_run next_fault_def Let_def throw_hr_if_run
      split: list.splits option.splits sys_fault.splits if_splits)

lemma DOFile_Append_other:
  "DOFile_Append f d s = (r, s') \<Longrightarrow> f \<noteq> Some path \<Longrightarrow> fs_files s' path = fs_files s path"
  by (auto simp: DOFile_Append_def sbind_run next_fault_def Let_def throw_hr_if_run
      split: list.splits option.splits sys_fault.splits if_splits)

section \<open>Stop watch\<close>

record stop_watch =
  sw_start :: int
  sw_elapsed :: int
  sw_running :: bool

definition sw_new :: stop_watch where
  "sw_new = \<lparr>sw_start = 0, sw_elapsed = 0, sw_running = False\<rparr>"

definition sw_Start :: "int \<Rightarrow> stop_watch \<Rightarrow> stop_watch" where
  "sw_Start now w = (if \<not> sw_running w then w\<lparr>sw_start := now, sw_running := True\<rparr> else w)"

definition sw_StartNew :: "int \<Rightarrow> stop_watch" where
  "sw_StartNew now = sw_Start now sw_new"

definition sw_Stop :: "int \<Rightarrow> stop_watch \<Rightarrow> stop_watch" where
  "sw_Stop now w =
     (if sw_running w then w\<lparr>sw_elapsed := sw_elapsed w + (now - sw_start w), sw_running := False\<rparr> else w)"

definition sw_GetElapsedTime :: "int \<Rightarrow> stop_watch \<Rightarrow> int" where
  "sw_GetElapsedTime now w = (if sw_running w then sw_elapsed w + (now - sw_start w) else sw_elapsed w)"

text \<open>\<open>duration_cast\<close> to milliseconds truncates towards zero; elapsed times are not negative.\<close>

definition sw_GetElapsedInterval :: "int \<Rightarrow> stop_watch \<Rightarrow> int" where
  "sw_GetElapsedInterval now w = sw_GetElapsedTime now w div 1000000"

text \<open>
  Calls to the watch in time order: \<open>running_time\<close> adds up the spans between a start and the
  stop that ends it.
\<close>

datatype sw_call = SwStart int | SwStop int

fun sw_step :: "stop_watch \<Rightarrow> sw_call \<Rightarrow> stop_watch" where
  "sw_step w (SwStart t) = sw_Start t w"
| "sw_step w (SwStop t) = sw_Stop t w"

fun running_time :: "int option \<Rightarrow> sw_call list \<Rightarrow> int \<Rightarrow> int" where
  "running_time None [] now = 0"
| "running_time (Some t0) [] now = now - t0"
| "running_time None (SwStart t # xs) now = running_time (Some t) xs now"
| "running_time None (SwStop t # xs) now = running_time None xs now"
| "running_time (Some t0) (SwStart t # xs) now = running_time (Some t0) xs now"
| "running_time (Some t0) (SwStop t # xs) now = (t - t0) + running_time None xs now"

lemma sw_run:
  "sw_GetElapsedTime now (run_steps sw_step w xs)
   = sw_elapsed w + running_time (if sw_running w then Some (sw_start w) else None) xs now"
proof (induction xs arbitrary: w)
  case Nil
  then show ?case by (simp add: sw_GetElapsedTime_def)
next
  case (Cons x xs)
  then show ?case by (cases x) (auto simp: sw_Start_def sw_Stop_def)
qed

text \<open>
  The elapsed time of a stop watch is the total length of the spans in which it was
  running, whatever the sequence of starts and stops; a second start and a stop of a stopped
  watch change nothing.
\<close>

theorem stop_watch_elapsed:
  "sw_GetElapsedTime now (run_steps sw_step sw_new xs) = running_time None xs now"
  by (simp add: sw_run sw_new_def)

section \<open>Proxies\<close>

text \<open>The list libproxy returns is an argument; \<open>None\<close> stands for a null pointer.\<close>

definition proxy_finder_get :: "string list option \<Rightarrow> string list" where
  "proxy_finder_get proxyList =
     (case proxyList of None \<Rightarrow> [] | Some l \<Rightarrow> filter (\<lambda>cur. cur \<noteq> ''direct://'') l)"

record proxy_list =
  pl_candidates :: "string list"
  pl_it :: nat

definition pl_Reset :: "proxy_list \<Rightarrow> proxy_list" where
  "pl_Reset p = p\<lparr>pl_it := 0\<rparr>"

definition pl_new :: proxy_list where
  "pl_new = pl_Reset \<lparr>pl_candidates = [], pl_it = 0\<rparr>"

definition pl_Refresh :: "string list option \<Rightarrow> proxy_list \<Rightarrow> proxy_list" where
  "pl_Refresh found p = pl_Reset (p\<lparr>pl_candidates := proxy_finder_get found\<rparr>)"

definition pl_Size :: "proxy_list \<Rightarrow> nat" where
  "pl_Size p = length (pl_candidates p)"

definition pl_Empty :: "proxy_list \<Rightarrow> bool" where
  "pl_Empty p \<longleftrightarrow> pl_Size p = 0"

definition pl_Next :: "proxy_list \<Rightarrow> string \<times> proxy_list" where
  "pl_Next p =
     (if pl_Empty p then ([], p)
      else let ret = pl_candidates p ! pl_it p;
               p1 = p\<lparr>pl_it := pl_it p + 1\<rparr>
           in if pl_it p1 = length (pl_candidates p) then (ret, pl_Reset p1) else (ret, p1))"

fun pl_take :: "nat \<Rightarrow> proxy_list \<Rightarrow> string list \<times> proxy_list" where
  "pl_take 0 p = ([], p)"
| "pl_take (Suc n) p = (let (x, p1) = pl_Next p; (xs, p2) = pl_take n p1 in (x # xs, p2))"

definition pl_ok :: "proxy_list \<Rightarrow> bool" where
  "pl_ok p \<longleftrightarrow> (if pl_candidates p = [] then pl_it p = 0 else pl_it p < length (pl_candidates p))"

lemma pl_Next_ok:
  assumes "pl_ok p" "pl_candidates p \<noteq> []"
  shows "fst (pl_Next p) = pl_candidates p ! pl_it p \<and> pl_ok (snd (pl_Next p)) \<and>
    pl_candidates (snd (pl_Next p)) = pl_candidates p \<and>
    pl_it (snd (pl_Next p)) = (pl_it p + 1) mod length (pl_candidates p)"
proof -
  let ?n = "length (pl_candidates p)"
  have i: "pl_it p < ?n" using assms by (simp add: pl_ok_def)
  show ?thesis
  proof (cases "pl_it p + 1 = ?n")
    case True
    then show ?thesis using assms by (simp add: pl_Next_def pl_Empty_def pl_Size_def pl_Reset_def pl_ok_def)
  next
    case False
    with i have "pl_it p + 1 < ?n" by simp
    then show ?thesis using assms by (simp add: pl_Next_def pl_Empty_def pl_Size_def pl_ok_def)
  qed
qed

lemma pl_take_nth:
  "pl_ok p \<Longrightarrow> pl_candidates p \<noteq> [] \<Longrightarrow>
   fst (pl_take n p) = map (\<lambda>i. pl_candidates p ! ((pl_it p + i) mod length (pl_candidates p))) [0..<n]"
proof (induction n arbitrary: p)
  case (Suc n)
  let ?c = "pl_candidates p"
  note nx = pl_Next_ok [OF Suc.prems]
  have "fst (pl_take n (snd (pl_Next p)))
      = map (\<lambda>i. ?c ! (((pl_it p + 1) mod length ?c + i) mod length ?c)) [0..<n]"
    using Suc.IH [of "snd (pl_Next p)"] nx Suc.prems by simp
  also have "\<dots> = map (\<lambda>i. ?c ! ((pl_it p + i) mod length ?c)) [1..<Suc n]"
    by (rule nth_equalityI) (simp_all add: mod_add_left_eq del: upt_Suc)
  finally have "fst (pl_take (Suc n) p) = ?c ! pl_it p # map (\<lambda>i. ?c ! ((pl_it p + i) mod length ?c)) [1..<Suc n]"
    using nx by (simp add: case_prod_unfold Let_def)
  moreover have "pl_it p mod length ?c = pl_it p" using Suc.prems by (simp add: pl_ok_def)
  ultimately show ?case by (simp add: upt_conv_Cons del: upt_Suc)
qed simp

text \<open>
  After a refresh the proxies are handed out in round-robin order: the k-th call returns
  candidate k modulo their number, the pseudo proxy that means a direct connection is never
  returned, and an empty list yields the empty string.
\<close>

theorem proxy_round_robin:
  "(proxy_finder_get found \<noteq> [] \<longrightarrow>
     fst (pl_take n (pl_Refresh found p))
       = map (\<lambda>i. proxy_finder_get found ! (i mod length (proxy_finder_get found))) [0..<n] \<and>
     ''direct://'' \<notin> set (fst (pl_take n (pl_Refresh found p)))) \<and>
   (proxy_finder_get found = [] \<longrightarrow> fst (pl_Next (pl_Refresh found p)) = [])"
proof (intro conjI impI)
  let ?p = "pl_Refresh found p" and ?c = "proxy_finder_get found"
  assume ne: "?c \<noteq> []"
  have "pl_ok ?p" "pl_candidates ?p = ?c" "pl_it ?p = 0"
    using ne by (simp_all add: pl_ok_def pl_Refresh_def pl_Reset_def)
  then show eq: "fst (pl_take n ?p) = map (\<lambda>i. ?c ! (i mod length ?c)) [0..<n]"
    using pl_take_nth [of ?p n] ne by simp
  have "''direct://'' \<notin> set ?c" by (simp add: proxy_finder_get_def split: option.splits)
  moreover have "?c ! (i mod length ?c) \<in> set ?c" for i using ne by simp
  ultimately show "''direct://'' \<notin> set (fst (pl_take n ?p))" unfolding eq by auto
next
  assume "proxy_finder_get found = []"
  then show "fst (pl_Next (pl_Refresh found p)) = []"
    by (simp add: pl_Next_def pl_Empty_def pl_Size_def pl_Refresh_def pl_Reset_def)
qed

theorem proxy_round_robin_witness:
  "fst (pl_take 3 (pl_Refresh (Some [''http://a'', ''direct://'', ''http://b'']) pl_new))
     = [''http://a'', ''http://b'', ''http://a''] \<and>
   fst (pl_Next (pl_Refresh None pl_new)) = []"
proof -
  have "proxy_finder_get (Some [''http://a'', ''direct://'', ''http://b'']) = [''http://a'', ''http://b'']"
    "proxy_finder_get None = []" by (simp_all add: proxy_finder_get_def)
  then show ?thesis
    using proxy_round_robin [of "Some [''http://a'', ''direct://'', ''http://b'']" 3 pl_new]
      proxy_round_robin [of None 0 pl_new] by (simp add: upt_rec numeral_eq_Suc)
qed

section \<open>GUIDs\<close>

record guid =
  Data1 :: "32 word"
  Data2 :: "16 word"
  Data3 :: "16 word"
  Data4 :: "8 word list"

definition GUIDSTR_MAX :: nat where
  "GUIDSTR_MAX = 1 + 8 + 1 + 4 + 1 + 4 + 1 + 4 + 1 + 12 + 1 + 1"

definition GUIDSTR_MIN :: nat where "GUIDSTR_MIN = GUIDSTR_MAX - 2 - 1"

definition hex_lower :: "nat \<Rightarrow> char" where
  "hex_lower n = ''0123456789abcdef'' ! n"

text \<open>\<^verbatim>\<open>%0<w>x\<close> of a value of at most \<open>w\<close> hexadecimal digits.\<close>

fun hex_pad :: "nat \<Rightarrow> nat \<Rightarrow> string" where
  "hex_pad 0 n = []"
| "hex_pad (Suc w) n = hex_pad w (n div 16) @ [hex_lower (n mod 16)]"

datatype scan_item = ScanHex nat | ScanLit char

definition guid_format :: "scan_item list" where
  "guid_format = [ScanHex 8, ScanLit (CHR ''-''), ScanHex 4, ScanLit (CHR ''-''), ScanHex 4, ScanLit (CHR ''-''),
     ScanHex 2, ScanHex 2, ScanLit (CHR ''-''),
     ScanHex 2, ScanHex 2, ScanHex 2, ScanHex 2, ScanHex 2, ScanHex 2]"

definition guid_fields :: "guid \<Rightarrow> nat list" where
  "guid_fields g = [unat (Data1 g), unat (Data2 g), unat (Data3 g)] @ map unat (Data4 g)"

fun print_items :: "scan_item list \<Rightarrow> nat list \<Rightarrow> string" where
  "print_items (ScanHex w # fs) (v # vs) = hex_pad w v @ print_items fs vs"
| "print_items (ScanLit c # fs) vs = c # print_items fs vs"
| "print_items _ _ = []"

definition GuidToString :: "guid \<Rightarrow> string" where
  "GuidToString g = c_str (fst (StringPrintf GUIDSTR_MAX (print_items guid_format (guid_fields g))))"

text \<open>
  \<open>sscanf\<close>: a hexadecimal conversion skips white space, then reads an optional sign, an optional
  0x prefix and digits, at most its width of characters in all; a literal must be there. The
  conversions made before the first failure count.
\<close>

definition hex_digit_of :: "char \<Rightarrow> nat option" where
  "hex_digit_of c =
     (if 48 \<le> ord c \<and> ord c \<le> 57 then Some (ord c - 48)
      else if 65 \<le> ord c \<and> ord c \<le> 70 then Some (ord c - 55)
      else if 97 \<le> ord c \<and> ord c \<le> 102 then Some (ord c - 87)
      else None)"

definition hex_value :: "string \<Rightarrow> nat" where
  "hex_value ds = foldl (\<lambda>a c. 16 * a + the (hex_digit_of c)) 0 ds"

definition scan_hex :: "nat \<Rightarrow> string \<Rightarrow> (int \<times> string) option" where
  "scan_hex w s =
     (let s1 = dropWhile isspace s;
          (sgn, s2, w2) = (case s1 of
             c # cs \<Rightarrow> if 0 < w \<and> c = CHR ''-'' then (- 1, cs, w - 1)
                       else if 0 < w \<and> c = CHR ''+'' then (1, cs, w - 1) else (1, s1, w)
           | [] \<Rightarrow> (1, s1, w));
          (s3, w3) = (case s2 of
             z # x # cs \<Rightarrow> if 2 \<le> w2 \<and> z = CHR ''0'' \<and> (x = CHR ''x'' \<or> x = CHR ''X'') then (cs, w2 - 2) else (s2, w2)
           | _ \<Rightarrow> (s2, w2));
          ds = takeWhile (\<lambda>c. hex_digit_of c \<noteq> None) (take w3 s3)
      in if ds = [] then None else Some (sgn * int (hex_value ds), drop (length ds) s3))"

fun scan_items :: "scan_item list \<Rightarrow> string \<Rightarrow> int list" where
  "scan_items [] s = []"
| "scan_items (ScanHex w # fs) s =
     (case scan_hex w s of None \<Rightarrow> [] | Some (v, rest) \<Rightarrow> v # scan_items fs rest)"
| "scan_items (ScanLit c # fs) s =
     (case s of [] \<Rightarrow> [] | x # rest \<Rightarrow> if x = c then scan_items fs rest else [])"

definition GUID_SEGMENTS :: nat where "GUID_SEGMENTS = 11"

definition StringToGuid :: "string \<Rightarrow> guid option" where
  "StringToGuid guidStr =
     (let s = c_str guidStr; len = length s
      in if GUIDSTR_MIN \<le> len \<and> len \<le> GUIDSTR_MAX - 1 then
           let localGuidStr = map tolower (StringCleanup s ''{}'')
           in if length localGuidStr = GUIDSTR_MIN then
                let vs = scan_items guid_format localGuidStr
                in if length vs = GUID_SEGMENTS
                   then Some \<lparr>Data1 = of_int (vs ! 0), Data2 = of_int (vs ! 1), Data3 = of_int (vs ! 2),
                              Data4 = map of_int (drop 3 vs)\<rparr>
                   else None
              else None
         else None)"

text \<open>\<open>Data4\<close> is an array of eight bytes.\<close>

definition guid_ok :: "guid \<Rightarrow> bool" where
  "guid_ok g \<longleftrightarrow> length (Data4 g) = 8"

lemma hex_lower_facts:
  assumes "n < 16"
  shows "hex_digit_of (hex_lower n) = Some n \<and> \<not> isspace (hex_lower n) \<and> hex_lower n \<noteq> CHR ''-'' \<and>
     hex_lower n \<noteq> CHR ''+'' \<and> hex_lower n \<noteq> CHR ''x'' \<and> hex_lower n \<noteq> CHR ''X'' \<and>
     hex_lower n \<noteq> CHR ''{'' \<and> hex_lower n \<noteq> CHR ''}'' \<and> hex_lower n \<noteq> NUL \<and> tolower (hex_lower n) = hex_lower n"
proof -
  have "list_all (\<lambda>n. hex_digit_of (hex_lower n) = Some n \<and> \<not> isspace (hex_lower n) \<and> hex_lower n \<noteq> CHR ''-'' \<and>
     hex_lower n \<noteq> CHR ''+'' \<and> hex_lower n \<noteq> CHR ''x'' \<and> hex_lower n \<noteq> CHR ''X'' \<and>
     hex_lower n \<noteq> CHR ''{'' \<and> hex_lower n \<noteq> CHR ''}'' \<and> hex_lower n \<noteq> NUL \<and>
     tolower (hex_lower n) = hex_lower n) [0..<16]"
    by code_simp
  with assms show ?thesis by (simp add: list_all_iff del: upt.simps)
qed

lemma hex_pad_length [simp]: "length (hex_pad w n) = w"
  by (induction w arbitrary: n) auto

lemma hex_pad_digits: "c \<in> set (hex_pad w n) \<Longrightarrow> \<exists>d < 16. c = hex_lower d"
proof (induction w arbitrary: n)
  case (Suc w)
  have "n mod 16 < 16" by simp
  with Suc show ?case by (auto simp del: mod_less_divisor)
qed simp

lemma hex_pad_value: "n < 16 ^ w \<Longrightarrow> hex_value (hex_pad w n) = n"
proof (induction w arbitrary: n)
  case (Suc w)
  have "n div 16 < 16 ^ w" using Suc.prems by (simp add: less_mult_imp_div_less mult.commute)
  with Suc.IH [of "n div 16"] show ?case by (simp add: hex_value_def hex_lower_facts)
qed (simp add: hex_value_def)

lemma hex_pad_Suc_cons: "\<exists>d < 16. \<exists>cs. hex_pad (Suc w) n = hex_lower d # cs \<and> (\<forall>c \<in> set cs. \<exists>d < 16. c = hex_lower d)"
proof -
  obtain c cs where "hex_pad (Suc w) n = c # cs" by (cases "hex_pad (Suc w) n") (auto simp flip: length_0_conv)
  then show ?thesis using hex_pad_digits [of _ "Suc w" n] by auto
qed

lemma scan_hex_pad:
  assumes "n < 16 ^ w" "2 \<le> w"
  shows "scan_hex w (hex_pad w n @ rest) = Some (int n, rest)"
proof -
  obtain w' where w: "w = Suc (Suc w')" using assms(2) by (cases w; cases "w - 1") auto
  obtain d cs where d: "hex_pad w n = hex_lower d # cs" "d < 16" and cs: "\<forall>c \<in> set cs. \<exists>d < 16. c = hex_lower d"
    using hex_pad_Suc_cons [of "Suc w'" n] w by auto
  have "length (hex_pad w n) = w" by simp
  then obtain x ys where x: "cs = x # ys" using d(1) w by (cases cs) auto
  have all: "\<forall>c \<in> set (hex_pad w n). hex_digit_of c \<noteq> None"
    using hex_pad_digits [of _ w n] hex_lower_facts by fastforce
  have tk: "takeWhile (\<lambda>c. hex_digit_of c \<noteq> None) (take w (hex_pad w n @ rest)) = hex_pad w n"
    using all by (simp add: takeWhile_all)
  have nx: "x \<noteq> CHR ''x'' \<and> x \<noteq> CHR ''X''" using cs x hex_lower_facts by auto
  have dw: "dropWhile isspace (hex_pad w n @ rest) = hex_pad w n @ rest"
    using d hex_lower_facts [OF d(2)] by simp
  have sg: "(case hex_pad w n @ rest of
             c # cs \<Rightarrow> if 0 < w \<and> c = CHR ''-'' then (- 1, cs, w - 1)
                       else if 0 < w \<and> c = CHR ''+'' then (1, cs, w - 1) else (1, hex_pad w n @ rest, w)
           | [] \<Rightarrow> (1, hex_pad w n @ rest, w)) = (1 :: int, hex_pad w n @ rest, w)"
    using d hex_lower_facts [OF d(2)] by simp
  have px: "(case hex_pad w n @ rest of
             z # x # cs \<Rightarrow> if 2 \<le> w \<and> z = CHR ''0'' \<and> (x = CHR ''x'' \<or> x = CHR ''X'') then (cs, w - 2) else (hex_pad w n @ rest, w)
           | _ \<Rightarrow> (hex_pad w n @ rest, w)) = (hex_pad w n @ rest, w)"
    using d x nx by simp
  have ne: "hex_pad w n \<noteq> []" using d by simp
  show ?thesis
    unfolding scan_hex_def Let_def dw sg case_prod_conv px tk
    using ne hex_pad_value [OF assms(1)] by simp
qed

fun fits_items :: "scan_item list \<Rightarrow> nat list \<Rightarrow> bool" where
  "fits_items (ScanHex w # fs) (v # vs) = (2 \<le> w \<and> v < 16 ^ w \<and> fits_items fs vs)"
| "fits_items (ScanLit c # fs) vs = fits_items fs vs"
| "fits_items [] vs = (vs = [])"
| "fits_items _ _ = False"

lemma scan_print_items: "fits_items fs vs \<Longrightarrow> scan_items fs (print_items fs vs) = map int vs"
  by (induction fs vs rule: fits_items.induct) (auto simp: scan_hex_pad)

lemma print_items_chars:
  "fits_items fs vs \<Longrightarrow> c \<in> set (print_items fs vs) \<Longrightarrow> (\<exists>d < 16. c = hex_lower d) \<or> ScanLit c \<in> set fs"
  by (induction fs vs rule: fits_items.induct) (auto dest: hex_pad_digits)

lemma guid_fits:
  assumes "guid_ok g"
  shows "fits_items guid_format (guid_fields g)"
proof -
  obtain b0 b1 b2 b3 b4 b5 b6 b7 where d: "Data4 g = [b0, b1, b2, b3, b4, b5, b6, b7]"
    using assms by (auto simp: guid_ok_def length_Suc_conv eval_nat_numeral)
  have w8: "unat b < 256" for b :: "8 word"
  proof -
    have "unat b < 2 ^ LENGTH(8)" by (rule unsigned_less)
    then show ?thesis by simp
  qed
  have "unat (Data1 g) < 2 ^ LENGTH(32)" "unat (Data2 g) < 2 ^ LENGTH(16)" "unat (Data3 g) < 2 ^ LENGTH(16)"
    by (rule unsigned_less)+
  then have "unat (Data1 g) < 4294967296" "unat (Data2 g) < 65536" "unat (Data3 g) < 65536"
    by simp_all
  with w8 show ?thesis by (simp add: guid_format_def guid_fields_def d)
qed

text \<open>
  A GUID printed by \<open>GuidToString\<close> is read back by \<open>StringToGuid\<close>, also when braces are
  put around it, and its text has 36 characters.
\<close>

theorem guid_roundtrip:
  assumes "guid_ok g"
  shows "StringToGuid (GuidToString g) = Some g \<and> StringToGuid (''{'' @ GuidToString g @ ''}'') = Some g \<and>
         length (GuidToString g) = GUIDSTR_MIN"
proof -
  let ?t = "print_items guid_format (guid_fields g)"
  note fit = guid_fits [OF assms]
  obtain b0 b1 b2 b3 b4 b5 b6 b7 where d: "Data4 g = [b0, b1, b2, b3, b4, b5, b6, b7]"
    using assms by (auto simp: guid_ok_def length_Suc_conv eval_nat_numeral)
  have len: "length ?t = 36" by (simp add: guid_format_def guid_fields_def d)
  have ch: "c \<in> set ?t \<Longrightarrow> c \<noteq> NUL \<and> c \<noteq> CHR ''{'' \<and> c \<noteq> CHR ''}'' \<and> tolower c = c" for c
  proof -
    have "tolower (CHR ''-'') = CHR ''-''" by code_simp
    then show "c \<in> set ?t \<Longrightarrow> ?thesis"
      using print_items_chars [OF fit, of c] hex_lower_facts by (auto simp: guid_format_def NUL_def)
  qed
  have cs: "c_str ?t = ?t" "c_str (''{'' @ ?t @ ''}'') = ''{'' @ ?t @ ''}''"
    using ch [of NUL] by (auto intro!: c_str_id) (simp_all add: NUL_def)
  have pr: "StringPrintf GUIDSTR_MAX ?t = (?t, S_OK)"
    by (rule StringPrintf_fits) (simp add: len GUIDSTR_MAX_def)
  then have to: "GuidToString g = ?t" using cs by (simp add: GuidToString_def)
  have low: "map tolower ?t = ?t" using ch by (intro map_idI) auto
  have fl: "filter (\<lambda>c. c \<notin> set ''{}'') ?t = ?t" using ch by (intro filter_True) auto
  have cl: "StringCleanup ?t ''{}'' = ?t" "StringCleanup (''{'' @ ?t @ ''}'') ''{}'' = ?t"
    using fl by (simp_all add: StringCleanup_filter)
  have rd: "(let vs = scan_items guid_format ?t
                in if length vs = GUID_SEGMENTS
                   then Some \<lparr>Data1 = of_int (vs ! 0), Data2 = of_int (vs ! 1), Data3 = of_int (vs ! 2),
                              Data4 = map of_int (drop 3 vs)\<rparr> else None) = Some g"
    unfolding scan_print_items [OF fit] by (simp add: guid_fields_def d GUID_SEGMENTS_def)
  show ?thesis
    unfolding to StringToGuid_def cs Let_def cl low
    using rd len by (simp add: GUIDSTR_MIN_def GUIDSTR_MAX_def Let_def)
qed

definition sample_guid :: guid where
  "sample_guid = \<lparr>Data1 = 0xdeadbeef, Data2 = 1, Data3 = 0x2f, Data4 = [0, 1, 2, 3, 4, 5, 6, 255]\<rparr>"

theorem guid_roundtrip_witness:
  "StringToGuid (''{'' @ GuidToString sample_guid @ ''}'') = Some sample_guid"
  using guid_roundtrip [of sample_guid] by (simp add: guid_ok_def sample_guid_def)

end
