(* ===== verification/UriParse.thy ===== *)
theory UriParse
  imports StringOps "HOL-Library.Monad_Syntax"
begin

text \<open>
  common/lib-dohttp/do_cpprest_uri.cpp, the parser and the printer of URIs: the character
  classes, \<open>inner_parse_out::parse_from\<close> and \<open>write_to\<close>, \<open>uri_components::join\<close> and
  the constructors of \<open>uri\<close>. A pointer pair into the input is the text between the two.
\<close>

section \<open>Character classes\<close>

definition is_unreserved :: "char \<Rightarrow> bool" where
  "is_unreserved c \<longleftrightarrow> isalnum c \<or> c = CHR ''-'' \<or> c = CHR ''.'' \<or> c = CHR ''_'' \<or> c = CHR ''~''"

definition is_gen_delim :: "char \<Rightarrow> bool" where
  "is_gen_delim c \<longleftrightarrow> c = CHR '':'' \<or> c = CHR ''/'' \<or> c = CHR ''?'' \<or> c = CHR ''#'' \<or> c = CHR ''[''
     \<or> c = CHR '']'' \<or> c = CHR ''@''"

definition is_sub_delim :: "char \<Rightarrow> bool" where
  "is_sub_delim c \<longleftrightarrow> c \<in> {CHR ''!'', CHR ''$'', CHR ''&'', CHR 0x27, CHR ''('', CHR '')'',
     CHR ''*'', CHR ''+'', CHR '','', CHR '';'', CHR ''=''}"

definition is_reserved :: "char \<Rightarrow> bool" where
  "is_reserved c \<longleftrightarrow> is_gen_delim c \<or> is_sub_delim c"

definition is_scheme_character :: "char \<Rightarrow> bool" where
  "is_scheme_character c \<longleftrightarrow> isalnum c \<or> c = CHR ''+'' \<or> c = CHR ''-'' \<or> c = CHR ''.''"

definition is_user_info_character :: "char \<Rightarrow> bool" where
  "is_user_info_character c \<longleftrightarrow> is_unreserved c \<or> is_sub_delim c \<or> c = CHR ''%'' \<or> c = CHR '':''"

definition is_authority_character :: "char \<Rightarrow> bool" where
  "is_authority_character c \<longleftrightarrow> is_unreserved c \<or> is_sub_delim c \<or> c = CHR ''%'' \<or> c = CHR ''@''
     \<or> c = CHR '':'' \<or> c = CHR ''['' \<or> c = CHR '']''"

definition is_path_character :: "char \<Rightarrow> bool" where
  "is_path_character c \<longleftrightarrow> is_unreserved c \<or> is_sub_delim c \<or> c = CHR ''%'' \<or> c = CHR ''/''
     \<or> c = CHR '':'' \<or> c = CHR ''@''"

definition is_query_character :: "char \<Rightarrow> bool" where
  "is_query_character c \<longleftrightarrow> is_path_character c \<or> c = CHR ''?''"

definition is_fragment_character :: "char \<Rightarrow> bool" where
  "is_fragment_character c \<longleftrightarrow> is_query_character c"

lemmas uri_class_defs = is_unreserved_def is_gen_delim_def is_sub_delim_def is_reserved_def
  is_scheme_character_def is_user_info_character_def is_authority_character_def
  is_path_character_def is_query_character_def is_fragment_character_def

lemma CHR_classes:
  "\<not> isalnum (CHR ''/'')" "\<not> isalnum (CHR '':'')" "\<not> isalnum (CHR ''?'')" "\<not> isalnum (CHR ''#'')"
  "\<not> isalnum (CHR ''@'')" "\<not> isalnum (CHR ''['')" "\<not> isalnum (CHR '']'')" "\<not> isalnum (CHR ''%'')"
  "\<not> isalnum NUL" "\<not> isdigit (CHR '':'')" "\<not> isalnum (CHR ''&'')" "\<not> isalnum (CHR ''='')"
  "\<not> isalnum (CHR '';'')" "\<not> isalnum (CHR ''+'')" "\<not> isalnum (CHR '' '')"
  by (simp_all add: ctype_defs ord_def NUL_def)

section \<open>Parsing\<close>

record uri_components =
  m_scheme :: string
  m_host :: string
  m_user_info :: string
  m_path :: string
  m_query :: string
  m_fragment :: string
  m_port :: int

definition uri_components_init :: uri_components where
  "uri_components_init = \<lparr>m_scheme = [], m_host = [], m_user_info = [], m_path = ''/'', m_query = [],
     m_fragment = [], m_port = - 1\<rparr>"

record inner_parse_out =
  po_scheme :: "string option"
  po_uinfo :: "string option"
  po_host :: "string option"
  po_port :: int
  po_path :: "string option"
  po_query :: "string option"
  po_fragment :: "string option"

text \<open>
  \<open>istream >> int\<close>: the value written, if any, and whether \<open>failbit\<close> is set. With nothing
  but white space in front of the end the extraction does not start and the variable is not
  written; a text without digits writes 0, and a value out of range writes the nearest bound.
\<close>

definition INT_MAX :: int where "INT_MAX = 2147483647"
definition INT_MIN :: int where "INT_MIN = - 2147483648"

definition stream_int :: "string \<Rightarrow> int option \<times> bool" where
  "stream_int str =
     (let s = dropWhile isspace str;
          neg = (case s of c # _ \<Rightarrow> c = CHR ''-'' | [] \<Rightarrow> False);
          t = (case s of c # cs \<Rightarrow> if c = CHR ''-'' \<or> c = CHR ''+'' then cs else s | [] \<Rightarrow> []);
          ds = takeWhile isdigit t;
          v = (if neg then - int (dec_val ds) else int (dec_val ds))
      in if s = [] then (None, True)
         else if ds = [] then (Some 0, True)
         else if v > INT_MAX then (Some INT_MAX, True)
         else if v < INT_MIN then (Some INT_MIN, True)
         else (Some v, False))"

text \<open>The scan for a ':' before the first '/', and the scheme it delimits.\<close>

definition is_relative_reference :: "string \<Rightarrow> bool" where
  "is_relative_reference s \<longleftrightarrow> CHR '':'' \<notin> set (takeWhile (\<lambda>c. c \<noteq> CHR ''/'') s)"

definition parse_scheme :: "string \<Rightarrow> (string option \<times> string) option" where
  "parse_scheme s =
     (if is_relative_reference s then Some (None, s)
      else case s of
             [] \<Rightarrow> None
           | c # cs \<Rightarrow>
               (if \<not> isalpha c then None
                else let sc = takeWhile (\<lambda>c. c \<noteq> CHR '':'') cs
                     in if list_all is_scheme_character sc
                        then Some (Some (c # sc), drop (Suc (length sc)) cs)
                        else None))"

text \<open>
  The port is looked for from the end: over the digits back to the first other character, or to
  the first character of the authority, which is tested for ':' in either case.
\<close>

fun port_scan :: "string \<Rightarrow> nat \<Rightarrow> nat" where
  "port_scan auth 0 = 0"
| "port_scan auth (Suc i) = (if isdigit (auth ! Suc i) then port_scan auth i else Suc i)"

text \<open>
  \<open>junk\<close> is the content of the uninitialised \<open>int retValue\<close>, which an empty port text
  leaves unwritten. The result is the user info, the host and the port of a non-empty authority.
\<close>

definition split_user_info :: "string \<Rightarrow> string option \<times> string" where
  "split_user_info host =
     (let u = takeWhile is_user_info_character host
      in case drop (length u) host of
           c # cs \<Rightarrow> (if c = CHR ''@'' then (Some u, cs) else (None, host))
         | [] \<Rightarrow> (None, host))"

definition split_authority :: "int \<Rightarrow> string \<Rightarrow> string option \<times> string \<times> int" where
  "split_authority junk auth =
     (let port_begin = port_scan auth (length auth - 1);
          has_port = auth ! port_begin = CHR '':'';
          host = (if has_port then take port_begin auth else auth);
          port = (if has_port
                  then (case fst (stream_int (drop (port_begin + 1) auth)) of
                          None \<Rightarrow> junk | Some v \<Rightarrow> v)
                  else 0);
          (uinfo, host') = split_user_info host
      in (uinfo, host', port))"

definition is_auth_end :: "char \<Rightarrow> bool" where
  "is_auth_end c \<longleftrightarrow> c = CHR ''/'' \<or> c = CHR ''?'' \<or> c = CHR ''#''"

definition parse_authority ::
  "int \<Rightarrow> string \<Rightarrow> (string option \<times> string option \<times> int \<times> string) option" where
  "parse_authority junk s =
     (case s of
        a # b # p \<Rightarrow>
          (if a = CHR ''/'' \<and> b = CHR ''/'' then
             let auth = takeWhile (\<lambda>c. \<not> is_auth_end c) p;
                 rest = dropWhile (\<lambda>c. \<not> is_auth_end c) p
             in if \<not> list_all is_authority_character auth then None
                else if auth = [] then Some (None, None, 0, rest)
                else let (uinfo, host, port) = split_authority junk auth
                     in Some (uinfo, Some host, port, rest)
           else Some (None, None, 0, s))
      | _ \<Rightarrow> Some (None, None, 0, s))"

text \<open>
  The three trailing sections have one shape: they start on a given condition, extend to a
  delimiter or the end, and every character of them must be legal.
\<close>

definition parse_path :: "string \<Rightarrow> (string option \<times> string) option" where
  "parse_path s =
     (case s of
        [] \<Rightarrow> Some (None, s)
      | c # _ \<Rightarrow>
          (if c = CHR ''/'' \<or> is_path_character c then
             let t = takeWhile (\<lambda>c. c \<noteq> CHR ''?'' \<and> c \<noteq> CHR ''#'') s
             in if list_all is_path_character t then Some (Some t, drop (length t) s) else None
           else Some (None, s)))"

definition parse_query :: "string \<Rightarrow> (string option \<times> string) option" where
  "parse_query s =
     (case s of
        [] \<Rightarrow> Some (None, s)
      | c # p \<Rightarrow>
          (if c = CHR ''?'' then
             let t = takeWhile (\<lambda>c. c \<noteq> CHR ''#'') p
             in if list_all is_query_character t then Some (Some t, drop (length t) p) else None
           else Some (None, s)))"

definition parse_fragment :: "string \<Rightarrow> string option option" where
  "parse_fragment s =
     (case s of
        [] \<Rightarrow> Some None
      | c # p \<Rightarrow>
          (if c = CHR ''#''
           then (if list_all is_fragment_character p then Some (Some p) else None)
           else Some None))"

definition parse_from :: "int \<Rightarrow> string \<Rightarrow> inner_parse_out option" where
  "parse_from junk encoded = do {
     (sc, p1) \<leftarrow> parse_scheme (c_str encoded);
     (ui, host, port, p2) \<leftarrow> parse_authority junk p1;
     (path, p3) \<leftarrow> parse_path p2;
     (query, p4) \<leftarrow> parse_query p3;
     frag \<leftarrow> parse_fragment p4;
     Some \<lparr>po_scheme = sc, po_uinfo = ui, po_host = host, po_port = port, po_path = path,
           po_query = query, po_fragment = frag\<rparr>
   }"

definition or_empty :: "string option \<Rightarrow> string" where
  "or_empty x = (case x of None \<Rightarrow> [] | Some s \<Rightarrow> s)"

definition inplace_tolower :: "string \<Rightarrow> string" where
  "inplace_tolower s = map tolower s"

text \<open>User info is the one field that keeps the value it had when it was not parsed.\<close>

definition write_to :: "inner_parse_out \<Rightarrow> uri_components \<Rightarrow> uri_components" where
  "write_to po c = c\<lparr>
     m_scheme := inplace_tolower (or_empty (po_scheme po)),
     m_user_info := (case po_uinfo po of Some u \<Rightarrow> u | None \<Rightarrow> m_user_info c),
     m_host := inplace_tolower (or_empty (po_host po)),
     m_port := po_port po,
     m_path := (case po_path po of Some p \<Rightarrow> p | None \<Rightarrow> ''/''),
     m_query := or_empty (po_query po),
     m_fragment := or_empty (po_fragment po)\<rparr>"

section \<open>Joining and constructing\<close>

text \<open>\<open>join\<close> first puts the components in canonical form, in place, then prints them.\<close>

definition join_canon :: "uri_components \<Rightarrow> uri_components" where
  "join_canon c =
     (let c1 = c\<lparr>m_scheme := inplace_tolower (m_scheme c), m_host := inplace_tolower (m_host c)\<rparr>
      in if m_host c1 \<noteq> [] \<and> m_path c1 = [] then c1\<lparr>m_path := ''/''\<rparr>
         else if m_host c1 \<noteq> [] \<and> hd (m_path c1) \<noteq> CHR ''/''
              then c1\<lparr>m_path := CHR ''/'' # m_path c1\<rparr>
         else c1)"

definition join_print :: "uri_components \<Rightarrow> string" where
  "join_print c =
     (if m_scheme c \<noteq> [] then m_scheme c @ '':'' else []) @
     (if m_host c \<noteq> []
      then ''//'' @ (if m_user_info c \<noteq> [] then m_user_info c @ ''@'' else []) @ m_host c @
           (if 0 < m_port c then CHR '':'' # show_int (m_port c) else [])
      else []) @
     (if m_path c \<noteq> []
      then (if m_host c \<noteq> [] \<and> hd (m_path c) \<noteq> CHR ''/'' then ''/'' else []) @ m_path c
      else []) @
     (if m_query c \<noteq> [] then CHR ''?'' # m_query c else []) @
     (if m_fragment c \<noteq> [] then CHR ''#'' # m_fragment c else [])"

definition uri_join :: "uri_components \<Rightarrow> string \<times> uri_components" where
  "uri_join c = (let c' = join_canon c in (join_print c', c'))"

record uri =
  m_uri :: string
  m_components :: uri_components

definition uri_exception :: exn where "uri_exception = StdExn ''uri_exception''"

definition validate :: "string \<Rightarrow> bool" where
  "validate s \<longleftrightarrow> parse_from 0 s \<noteq> None"

definition uri_of_components :: "uri_components \<Rightarrow> uri res" where
  "uri_of_components c =
     (let (s, c') = uri_join c
      in if validate s then Inr \<lparr>m_uri = s, m_components = c'\<rparr> else Inl uri_exception)"

definition uri_of_string :: "int \<Rightarrow> string \<Rightarrow> uri res" where
  "uri_of_string junk str =
     (case parse_from junk str of
        None \<Rightarrow> Inl uri_exception
      | Some out \<Rightarrow>
          let (s, c) = uri_join (write_to out uri_components_init)
          in Inr \<lparr>m_uri = s, m_components = c\<rparr>)"

section \<open>Well-formed components survive printing and parsing\<close>

text \<open>A host that is not read as having a port: no ':' in front of its trailing digits.\<close>

definition no_port_tail :: "string \<Rightarrow> bool" where
  "no_port_tail h \<longleftrightarrow> h ! port_scan h (length h - 1) \<noteq> CHR '':''"

definition uri_wf :: "uri_components \<Rightarrow> bool" where
  "uri_wf c \<longleftrightarrow>
     m_scheme c \<noteq> [] \<and> isalpha (hd (m_scheme c)) \<and> list_all is_scheme_character (m_scheme c) \<and>
     inplace_tolower (m_scheme c) = m_scheme c \<and>
     m_host c \<noteq> [] \<and> inplace_tolower (m_host c) = m_host c \<and>
     list_all is_authority_character (m_host c) \<and> CHR ''@'' \<notin> set (m_host c) \<and>
     0 \<le> m_port c \<and> m_port c \<le> INT_MAX \<and> (m_port c = 0 \<longrightarrow> no_port_tail (m_host c)) \<and>
     list_all is_user_info_character (m_user_info c) \<and>
     m_path c \<noteq> [] \<and> hd (m_path c) = CHR ''/'' \<and> list_all is_path_character (m_path c) \<and>
     list_all is_query_character (m_query c) \<and> list_all is_fragment_character (m_fragment c)"

lemma list_all_no: "list_all P xs \<Longrightarrow> \<not> P c \<Longrightarrow> c \<notin> set xs"
  by (auto simp: list_all_iff)

lemma not_class:
  "\<not> is_scheme_character (CHR ''/'')" "\<not> is_scheme_character (CHR '':'')"
  "\<not> is_scheme_character NUL"
  "\<not> is_authority_character (CHR ''/'')" "\<not> is_authority_character (CHR ''?'')"
  "\<not> is_authority_character (CHR ''#'')" "\<not> is_authority_character NUL"
  "\<not> is_user_info_character (CHR ''@'')" "\<not> is_user_info_character NUL"
  "\<not> is_path_character (CHR ''?'')" "\<not> is_path_character (CHR ''#'')" "\<not> is_path_character NUL"
  "\<not> is_query_character (CHR ''#'')" "\<not> is_query_character NUL" "\<not> is_fragment_character NUL"
  by (simp_all add: CHR_classes uri_class_defs NUL_def CHR_classes(9) [unfolded NUL_def])

lemma user_info_authority: "is_user_info_character c \<Longrightarrow> is_authority_character c"
  by (auto simp: is_user_info_character_def is_authority_character_def)

lemma isdigit_alnum: "isdigit c \<Longrightarrow> isalnum c"
  by (simp add: isalnum_def)

lemma isalpha_scheme: "isalpha c \<Longrightarrow> is_scheme_character c"
  by (simp add: is_scheme_character_def isalnum_def)

lemma parse_scheme_print:
  assumes "sc \<noteq> []" "isalpha (hd sc)" "list_all is_scheme_character sc"
  shows "parse_scheme (sc @ CHR '':'' # rest) = Some (Some sc, rest)"
proof -
  obtain c cs where sc: "sc = c # cs" using assms(1) by (cases sc) auto
  have no: "CHR ''/'' \<notin> set sc" "CHR '':'' \<notin> set sc"
    using list_all_no [OF assms(3)] not_class(1,2) by simp_all
  have "takeWhile (\<lambda>x. x \<noteq> CHR ''/'') (sc @ CHR '':'' # rest)
      = sc @ CHR '':'' # takeWhile (\<lambda>x. x \<noteq> CHR ''/'') rest"
    using no(1) by (subst takeWhile_append2) auto
  then have rel: "\<not> is_relative_reference (sc @ CHR '':'' # rest)"
    by (simp add: is_relative_reference_def)
  have "takeWhile (\<lambda>x. x \<noteq> CHR '':'') (cs @ CHR '':'' # rest) = cs"
    using no(2) sc by (intro takeWhile_append_stop) auto
  with rel assms sc show ?thesis
    by (simp add: parse_scheme_def Let_def)
qed

lemma stream_int_show_nat:
  "stream_int (show_nat n) = (if int n \<le> INT_MAX then (Some (int n), False) else (Some INT_MAX, True))"
proof -
  obtain c cs where s: "show_nat n = c # cs" by (cases "show_nat n") auto
  have d: "\<forall>x \<in> set (show_nat n). isdigit x" by (rule show_nat_digits)
  then have c: "\<not> isspace c" "c \<noteq> CHR ''-''" "c \<noteq> CHR ''+''"
    using s isdigit_not_space isdigit_not_sign by auto
  have tw: "takeWhile isdigit (c # cs) = c # cs"
    using d unfolding s by (rule takeWhile_all)
  have v: "dec_val (c # cs) = n" using dec_val_show_nat [of n] unfolding s .
  show ?thesis
    unfolding stream_int_def s using c
    by (simp add: Let_def v tw del: takeWhile.simps) (simp add: INT_MIN_def)
qed

lemma port_scan_colon:
  assumes "\<forall>x \<in> set ds. isdigit x"
  shows "port_scan (h @ CHR '':'' # ds) (length h + length ds) = length h"
  using assms
proof (induction ds rule: rev_induct)
  case Nil
  have "(h @ [CHR '':'']) ! length h = CHR '':''" by simp
  then show ?case using CHR_classes(10) by (cases "length h") auto
next
  case (snoc x xs)
  have eq: "port_scan (ys @ zs) i = port_scan ys i" if "i < length ys" for ys zs i
    using that by (induction i) (auto simp: nth_append)
  have "(h @ CHR '':'' # xs @ [x]) ! Suc (length h + length xs) = x"
    by (simp add: nth_append)
  then show ?case
    using snoc eq [of "length h + length xs" "h @ CHR '':'' # xs" "[x]"] by simp
qed

lemma split_user_info_none:
  "CHR ''@'' \<notin> set h \<Longrightarrow> split_user_info h = (None, h)"
  by (auto simp: split_user_info_def Let_def split: list.splits)
    (metis in_set_dropD list.set_intros(1))

lemma split_user_info_some:
  assumes "list_all is_user_info_character u"
  shows "split_user_info (u @ CHR ''@'' # h) = (Some u, h)"
proof -
  have "takeWhile is_user_info_character (u @ CHR ''@'' # h) = u"
    using assms not_class(8) by (intro takeWhile_append_stop) (auto simp: list_all_iff)
  then show ?thesis by (simp add: split_user_info_def Let_def)
qed

lemma split_authority_port:
  assumes "int n \<le> INT_MAX"
  shows "split_authority junk (x @ CHR '':'' # show_nat n)
       = (let (uinfo, host) = split_user_info x in (uinfo, host, int n))"
proof -
  have "port_scan (x @ CHR '':'' # show_nat n) (length x + length (show_nat n)) = length x"
    using show_nat_digits by (rule port_scan_colon)
  then show ?thesis
    using assms stream_int_show_nat [of n] by (simp add: split_authority_def Let_def)
qed

lemma split_authority_print:
  assumes u: "list_all is_user_info_character u" and h: "h \<noteq> []" "CHR ''@'' \<notin> set h"
    and p: "0 \<le> p" "p \<le> INT_MAX" "p = 0 \<longrightarrow> no_port_tail ((if u \<noteq> [] then u @ ''@'' else []) @ h)"
  shows "split_authority junk ((if u \<noteq> [] then u @ ''@'' else []) @ h @
           (if 0 < p then CHR '':'' # show_int p else []))
         = (if u \<noteq> [] then Some u else None, h, p)"
proof -
  let ?uh = "(if u \<noteq> [] then u @ ''@'' else []) @ h"
  have ui: "split_user_info ?uh = (if u \<noteq> [] then Some u else None, h)"
    using split_user_info_some [OF u, of h] split_user_info_none [OF h(2)] by simp
  show ?thesis
  proof (cases "0 < p")
    case True
    then have "split_authority junk (?uh @ CHR '':'' # show_nat (nat p))
        = (if u \<noteq> [] then Some u else None, h, p)"
      using split_authority_port [of "nat p" junk ?uh] ui p(2) by simp
    moreover have "show_int p = show_nat (nat p)" using True by (simp add: show_int_def)
    ultimately show ?thesis using True by simp
  next
    case False
    with p have "p = 0" by simp
    with p(3) ui show ?thesis
      by (simp add: split_authority_def Let_def no_port_tail_def)
  qed
qed

lemma no_port_tail_prefix:
  assumes "h \<noteq> []" "no_port_tail h" "CHR ''@'' \<notin> set h"
  shows "no_port_tail (u @ CHR ''@'' # h)"
proof -
  have *: "port_scan (u @ CHR ''@'' # h) (length u + Suc i)
      = (if \<forall>j \<le> i. isdigit (h ! j) then length u else length u + Suc (port_scan h i))"
    if "i < length h" for i
    using that
  proof (induction i)
    case 0
    have "\<not> isdigit (CHR ''@'')" by code_simp
    then have "port_scan (u @ CHR ''@'' # h) (length u) = length u"
      by (cases "length u") (simp_all add: nth_append)
    with 0 show ?case by (auto simp: nth_append)
  next
    case (Suc i)
    then show ?case by (auto simp: nth_append le_Suc_eq)
  qed
  have "length (u @ CHR ''@'' # h) - 1 = length u + Suc (length h - 1)"
    using assms(1) by simp
  with * [of "length h - 1"] assms show ?thesis
    unfolding no_port_tail_def by (auto simp: nth_append)
qed

lemma parse_authority_print:
  assumes "list_all is_authority_character auth" "auth \<noteq> []" "is_auth_end d"
  shows "parse_authority junk (''//'' @ auth @ d # rest)
       = (let (uinfo, host, port) = split_authority junk auth in Some (uinfo, Some host, port, d # rest))"
proof -
  have all: "\<forall>c \<in> set auth. \<not> is_auth_end c"
    using assms(1) not_class(4,5,6) by (auto simp: list_all_iff is_auth_end_def)
  have "takeWhile (\<lambda>c. \<not> is_auth_end c) (auth @ d # rest) = auth"
    "dropWhile (\<lambda>c. \<not> is_auth_end c) (auth @ d # rest) = d # rest"
    using all assms(3) by (simp_all add: takeWhile_append_stop dropWhile_append_stop)
  with assms(1,2) show ?thesis by (simp add: parse_authority_def Let_def)
qed

text \<open>The sections after the authority, each printed only when it has text.\<close>

definition print_query :: "string \<Rightarrow> string" where
  "print_query q = (if q \<noteq> [] then CHR ''?'' # q else [])"

definition print_fragment :: "string \<Rightarrow> string" where
  "print_fragment f = (if f \<noteq> [] then CHR ''#'' # f else [])"

lemma parse_fragment_print:
  "list_all is_fragment_character f \<Longrightarrow>
   parse_fragment (print_fragment f) = Some (if f \<noteq> [] then Some f else None)"
  by (simp add: parse_fragment_def print_fragment_def)

lemma parse_query_print:
  assumes "list_all is_query_character q"
  shows "parse_query (print_query q @ print_fragment f)
       = Some (if q \<noteq> [] then Some q else None, print_fragment f)"
proof -
  have "\<forall>c \<in> set q. c \<noteq> CHR ''#''"
    using assms not_class(13) by (auto simp: list_all_iff)
  then have "takeWhile (\<lambda>c. c \<noteq> CHR ''#'') (q @ print_fragment f) = q"
    by (simp add: print_fragment_def takeWhile_append_stop takeWhile_all)
  with assms show ?thesis
    by (auto simp: parse_query_def print_query_def Let_def) (simp_all add: print_fragment_def)
qed

lemma parse_path_print:
  assumes "list_all is_path_character p" "p \<noteq> []" "hd p = CHR ''/''"
  shows "parse_path (p @ print_query q @ print_fragment f) = Some (Some p, print_query q @ print_fragment f)"
proof -
  have "\<forall>c \<in> set p. c \<noteq> CHR ''?'' \<and> c \<noteq> CHR ''#''"
    using assms(1) not_class(10,11) by (auto simp: list_all_iff)
  then have "takeWhile (\<lambda>c. c \<noteq> CHR ''?'' \<and> c \<noteq> CHR ''#'') (p @ print_query q @ print_fragment f) = p"
    by (auto simp: print_query_def print_fragment_def takeWhile_append_stop takeWhile_all)
  moreover obtain ps where "p = CHR ''/'' # ps" using assms(2,3) by (cases p) auto
  ultimately show ?thesis using assms(1) by (simp add: parse_path_def Let_def)
qed

lemma no_NUL: "list_all P s \<Longrightarrow> \<not> P NUL \<Longrightarrow> NUL \<notin> set s"
  by (rule list_all_no)

lemma join_canon_wf: "uri_wf c \<Longrightarrow> join_canon c = c"
  by (simp add: uri_wf_def join_canon_def Let_def)

definition uri_auth_text :: "uri_components \<Rightarrow> string" where
  "uri_auth_text c = (if m_user_info c \<noteq> [] then m_user_info c @ ''@'' else []) @ m_host c @
     (if 0 < m_port c then CHR '':'' # show_int (m_port c) else [])"

lemma join_print_wf:
  "uri_wf c \<Longrightarrow> join_print c = m_scheme c @ CHR '':'' # ''//'' @ uri_auth_text c @ m_path c @
     print_query (m_query c) @ print_fragment (m_fragment c)"
  by (simp add: uri_wf_def join_print_def uri_auth_text_def print_query_def print_fragment_def)

lemma uri_auth_text_chars:
  assumes "uri_wf c"
  shows "list_all is_authority_character (uri_auth_text c)" "uri_auth_text c \<noteq> []"
proof -
  have d: "is_authority_character (CHR ''@'')" "is_authority_character (CHR '':'')" by code_simp+
  have "list_all is_authority_character (show_int (m_port c))" if "0 < m_port c"
    using that show_nat_digits isdigit_alnum
    by (auto simp: show_int_def list_all_iff is_authority_character_def is_unreserved_def)
  with assms d show "list_all is_authority_character (uri_auth_text c)"
    by (auto simp: uri_wf_def uri_auth_text_def list_all_iff intro: user_info_authority)
  from assms show "uri_auth_text c \<noteq> []" by (simp add: uri_wf_def uri_auth_text_def)
qed

lemma split_authority_wf:
  assumes "uri_wf c"
  shows "split_authority junk (uri_auth_text c)
       = (if m_user_info c \<noteq> [] then Some (m_user_info c) else None, m_host c, m_port c)"
  unfolding uri_auth_text_def
proof (rule split_authority_print)
  show "m_port c = 0 \<longrightarrow> no_port_tail ((if m_user_info c \<noteq> [] then m_user_info c @ ''@'' else []) @ m_host c)"
    using assms no_port_tail_prefix [of "m_host c" "m_user_info c"] by (auto simp: uri_wf_def)
qed (use assms in \<open>auto simp: uri_wf_def\<close>)

lemma parse_from_print:
  assumes "uri_wf c"
  shows "parse_from junk (join_print c) =
    Some \<lparr>po_scheme = Some (m_scheme c),
          po_uinfo = (if m_user_info c \<noteq> [] then Some (m_user_info c) else None),
          po_host = Some (m_host c), po_port = m_port c, po_path = Some (m_path c),
          po_query = (if m_query c \<noteq> [] then Some (m_query c) else None),
          po_fragment = (if m_fragment c \<noteq> [] then Some (m_fragment c) else None)\<rparr>"
proof -
  note wf = assms [unfolded uri_wf_def]
  let ?tail = "m_path c @ print_query (m_query c) @ print_fragment (m_fragment c)"
  obtain ps where path: "m_path c = CHR ''/'' # ps" using wf by (cases "m_path c") auto
  have "NUL \<notin> set (join_print c)"
    unfolding join_print_wf [OF assms]
    using wf uri_auth_text_chars [OF assms] not_class no_NUL
    by (auto simp: print_query_def print_fragment_def NUL_def)
  then have cs: "c_str (join_print c) = join_print c" by (rule c_str_id)
  have sc: "parse_scheme (m_scheme c @ CHR '':'' # rest) = Some (Some (m_scheme c), rest)" for rest
    using wf by (intro parse_scheme_print) auto
  have au: "parse_authority junk (''//'' @ uri_auth_text c @ ?tail) =
      Some (if m_user_info c \<noteq> [] then Some (m_user_info c) else None, Some (m_host c), m_port c, ?tail)"
    using parse_authority_print [OF uri_auth_text_chars [OF assms], of "CHR ''/''"]
      split_authority_wf [OF assms] path by (simp add: is_auth_end_def)
  have pa: "parse_path ?tail = Some (Some (m_path c), print_query (m_query c) @ print_fragment (m_fragment c))"
    using wf by (intro parse_path_print) auto
  show ?thesis
    unfolding parse_from_def cs unfolding join_print_wf [OF assms] sc
    using au pa wf by (simp add: parse_query_print parse_fragment_print del: append.simps)
qed

section \<open>What an accepted text looks like\<close>

definition opt_text :: "string \<Rightarrow> string option \<Rightarrow> string \<Rightarrow> string" where
  "opt_text pre x post = (case x of None \<Rightarrow> [] | Some t \<Rightarrow> pre @ t @ post)"

lemma parse_scheme_text:
  assumes "parse_scheme s = Some (sc, rest)"
  shows "s = opt_text [] sc '':'' @ rest \<and>
    (\<forall>t. sc = Some t \<longrightarrow> t \<noteq> [] \<and> isalpha (hd t) \<and> list_all is_scheme_character t)"
proof (cases "is_relative_reference s")
  case True
  with assms show ?thesis by (simp add: parse_scheme_def opt_text_def)
next
  case False
  with assms obtain c cs where s: "s = c # cs" and a: "isalpha c" by (cases s) (auto simp: parse_scheme_def split: if_splits)
  let ?sc = "takeWhile (\<lambda>c. c \<noteq> CHR '':'') cs"
  have r: "sc = Some (c # ?sc)" "rest = drop (Suc (length ?sc)) cs" "list_all is_scheme_character ?sc"
    using assms False s a by (auto simp: parse_scheme_def Let_def split: if_splits)
  have "c \<noteq> CHR '':''" using a CHR_classes(2) isalnum_def by auto
  then have "CHR '':'' \<in> set cs"
    using False s by (auto simp: is_relative_reference_def dest: set_takeWhileD split: if_splits)
  then have "?sc @ CHR '':'' # drop (Suc (length ?sc)) cs = cs"
    by (induction cs) auto
  with r s a isalpha_scheme [OF a] show ?thesis by (simp add: opt_text_def)
qed

lemma parse_authority_text:
  assumes "parse_authority junk s = Some (ui, h, port, rest)"
  shows "(s = rest \<and> ui = None \<and> h = None \<and> port = 0 \<and> take 2 s \<noteq> ''//'') \<or>
    (\<exists>auth. s = ''//'' @ auth @ rest \<and> list_all is_authority_character auth \<and>
      (rest = [] \<or> is_auth_end (hd rest)) \<and>
      (if auth = [] then ui = None \<and> h = None \<and> port = 0
       else \<exists>h'. split_authority junk auth = (ui, h', port) \<and> h = Some h'))"
proof (cases "take 2 s = ''//''")
  case True
  then obtain p where s: "s = CHR ''/'' # CHR ''/'' # p"
    by (cases s; cases "tl s") auto
  let ?auth = "takeWhile (\<lambda>c. \<not> is_auth_end c) p"
  have "rest = dropWhile (\<lambda>c. \<not> is_auth_end c) p"
    using assms s by (auto simp: parse_authority_def Let_def split: if_splits prod.splits)
  then have "p = ?auth @ rest" "rest = [] \<or> is_auth_end (hd rest)"
    using hd_dropWhile [of "\<lambda>c. \<not> is_auth_end c" p] by auto
  with assms s show ?thesis
    by (intro disjI2 exI [of _ ?auth]) (auto simp: parse_authority_def Let_def split: if_splits prod.splits)
next
  case False
  then show ?thesis
    using assms by (auto simp: parse_authority_def split: list.splits if_splits)
qed

lemma span_text:
  obtains "s = takeWhile P s @ drop (length (takeWhile P s)) s"
    and "drop (length (takeWhile P s)) s = [] \<or> \<not> P (hd (drop (length (takeWhile P s)) s))"
  using hd_dropWhile [of P s] takeWhile_dropWhile_id [of P s]
  unfolding dropWhile_eq_drop by metis

lemma parse_path_text:
  assumes "parse_path s = Some (p, rest)"
  shows "s = opt_text [] p [] @ rest \<and>
    (case p of Some t \<Rightarrow> list_all is_path_character t \<and> t \<noteq> [] \<and> (rest = [] \<or> hd rest \<in> {CHR ''?'', CHR ''#''})
     | None \<Rightarrow> s = [] \<or> \<not> is_path_character (hd s))"
proof (cases "s = [] \<or> \<not> is_path_character (hd s)")
  case True
  have "is_path_character (CHR ''/'')" by code_simp
  with True assms show ?thesis by (auto simp: parse_path_def opt_text_def split: list.splits if_splits)
next
  case False
  let ?P = "\<lambda>c. c \<noteq> CHR ''?'' \<and> c \<noteq> CHR ''#''"
  obtain t where t: "t = takeWhile ?P s" by blast
  have r: "p = Some t" "rest = drop (length t) s" "list_all is_path_character t"
    using assms False by (auto simp: t parse_path_def Let_def split: list.splits if_splits)
  have "t \<noteq> []" using False not_class(10,11) by (cases s) (auto simp: t)
  moreover have "s = t @ rest" "rest = [] \<or> \<not> ?P (hd rest)"
    using span_text [of s ?P] unfolding r(2) t by blast+
  ultimately show ?thesis using r by (auto simp: opt_text_def)
qed

lemma parse_query_text:
  assumes "parse_query s = Some (q, rest)"
  shows "s = opt_text ''?'' q [] @ rest \<and>
    (case q of Some t \<Rightarrow> list_all is_query_character t \<and> (rest = [] \<or> hd rest = CHR ''#'')
     | None \<Rightarrow> s = [] \<or> hd s \<noteq> CHR ''?'')"
proof (cases "s = [] \<or> hd s \<noteq> CHR ''?''")
  case True
  with assms show ?thesis by (auto simp: parse_query_def opt_text_def split: list.splits if_splits)
next
  case False
  then obtain cs where s: "s = CHR ''?'' # cs" by (cases s) auto
  let ?P = "\<lambda>c. c \<noteq> CHR ''#''"
  obtain t where t: "t = takeWhile ?P cs" by blast
  have r: "q = Some t" "rest = drop (length t) cs" "list_all is_query_character t"
    using assms s by (auto simp: t parse_query_def Let_def split: if_splits)
  moreover have "cs = t @ rest" "rest = [] \<or> \<not> ?P (hd rest)"
    using span_text [of cs ?P] unfolding r(2) t by blast+
  ultimately show ?thesis using s by (auto simp: opt_text_def)
qed

lemma parse_fragment_text:
  assumes "parse_fragment s = Some f"
  shows "case f of Some t \<Rightarrow> s = CHR ''#'' # t \<and> list_all is_fragment_character t
    | None \<Rightarrow> s = [] \<or> hd s \<noteq> CHR ''#''"
  using assms by (cases s) (auto simp: parse_fragment_def split: if_splits)

text \<open>
  An accepted text is the concatenation of its sections, each made of its legal characters, and
  of a remainder. The remainder can be non-empty, and then no section after the scheme was read.
\<close>

definition sections_text :: "inner_parse_out \<Rightarrow> string \<Rightarrow> string" where
  "sections_text po auth = opt_text [] (po_scheme po) '':'' @ auth @ opt_text [] (po_path po) [] @
     opt_text ''?'' (po_query po) [] @ opt_text ''#'' (po_fragment po) []"

definition opt_all :: "(char \<Rightarrow> bool) \<Rightarrow> string option \<Rightarrow> bool" where
  "opt_all P x = (case x of None \<Rightarrow> True | Some t \<Rightarrow> list_all P t)"

lemma parse_from_text:
  assumes "parse_from junk s = Some po"
  shows "\<exists>auth garbage.
    c_str s = sections_text po auth @ garbage \<and>
    (auth = [] \<or> (\<exists>a. auth = ''//'' @ a \<and> list_all is_authority_character a)) \<and>
    opt_all is_scheme_character (po_scheme po) \<and> opt_all is_path_character (po_path po) \<and>
    opt_all is_query_character (po_query po) \<and> opt_all is_fragment_character (po_fragment po) \<and>
    (garbage \<noteq> [] \<longrightarrow> auth = [] \<and> po_path po = None \<and> po_query po = None \<and> po_fragment po = None \<and>
       \<not> is_path_character (hd garbage) \<and> hd garbage \<notin> {CHR ''?'', CHR ''#''})"
proof -
  obtain sc p1 ui h port p2 path p3 q p4 fr where
    1: "parse_scheme (c_str s) = Some (sc, p1)" and 2: "parse_authority junk p1 = Some (ui, h, port, p2)"
    and 3: "parse_path p2 = Some (path, p3)" and 4: "parse_query p3 = Some (q, p4)"
    and 5: "parse_fragment p4 = Some fr"
    and po: "po = \<lparr>po_scheme = sc, po_uinfo = ui, po_host = h, po_port = port, po_path = path,
           po_query = q, po_fragment = fr\<rparr>"
    using assms by (auto simp: parse_from_def split: Option.bind_splits)
  obtain auth where a: "p1 = auth @ p2" "auth = [] \<or> (\<exists>a. auth = ''//'' @ a \<and> list_all is_authority_character a)"
    "auth = [] \<or> p2 = [] \<or> is_auth_end (hd p2)"
    using parse_authority_text [OF 2] by fastforce
  define garbage where "garbage = (case fr of None \<Rightarrow> p4 | Some _ \<Rightarrow> [])"
  have g: "p4 = opt_text ''#'' fr [] @ garbage" "opt_all is_fragment_character fr"
    using parse_fragment_text [OF 5] by (auto simp: garbage_def opt_text_def opt_all_def split: option.splits)
  have t: "c_str s = sections_text po auth @ garbage"
    using parse_scheme_text [OF 1] a(1) parse_path_text [OF 3] parse_query_text [OF 4] g(1)
    by (simp add: sections_text_def po)
  have c: "opt_all is_scheme_character sc" "opt_all is_path_character path" "opt_all is_query_character q"
    using parse_scheme_text [OF 1] parse_path_text [OF 3] parse_query_text [OF 4]
    by (auto simp: opt_all_def split: option.splits)
  have none: "auth = [] \<and> path = None \<and> q = None \<and> fr = None \<and>
      \<not> is_path_character (hd garbage) \<and> hd garbage \<notin> {CHR ''?'', CHR ''#''}" if "garbage \<noteq> []"
  proof -
    have f: "fr = None" "p4 = garbage" "hd p4 \<noteq> CHR ''#''" "p4 \<noteq> []"
      using that parse_fragment_text [OF 5] by (auto simp: garbage_def split: option.splits)
    then have q: "q = None" "p3 = p4" "hd p3 \<noteq> CHR ''?''"
      using parse_query_text [OF 4] by (auto simp: opt_text_def split: option.splits)
    then have p: "path = None" "p2 = p3" "\<not> is_path_character (hd p2)"
      using f parse_path_text [OF 3] by (auto simp: opt_text_def split: option.splits)
    have "is_path_character (CHR ''/'')" by code_simp
    then have "\<not> is_auth_end (hd p2)" using p q f by (auto simp: is_auth_end_def)
    with a(3) p q f show ?thesis by auto
  qed
  show ?thesis
    using t a(2) c g(2) none by (intro exI [of _ auth] exI [of _ garbage]) (simp add: po)
qed

lemma uri_wf_print_parse:
  assumes "uri_wf c"
  shows "uri_of_string junk (join_print c) = Inr \<lparr>m_uri = join_print c, m_components = c\<rparr> \<and>
         uri_of_components c = Inr \<lparr>m_uri = join_print c, m_components = c\<rparr>"
proof -
  note wf = assms [unfolded uri_wf_def]
  have w: "write_to \<lparr>po_scheme = Some (m_scheme c),
          po_uinfo = (if m_user_info c \<noteq> [] then Some (m_user_info c) else None),
          po_host = Some (m_host c), po_port = m_port c, po_path = Some (m_path c),
          po_query = (if m_query c \<noteq> [] then Some (m_query c) else None),
          po_fragment = (if m_fragment c \<noteq> [] then Some (m_fragment c) else None)\<rparr> uri_components_init = c"
    using wf by (auto simp: write_to_def uri_components_init_def or_empty_def)
  show ?thesis
    using parse_from_print [OF assms] w
    by (simp add: uri_of_string_def uri_of_components_def uri_join_def Let_def join_canon_wf [OF assms]
        validate_def)
qed

section \<open>Properties\<close>

text \<open>
  C13. Printing well-formed components and constructing a \<open>uri\<close> from the text gives the
  same components and the same text, whether the uri is built from the components or from the
  string; the uninitialised port variable has no influence.
\<close>

theorem uri_print_parse:
  assumes "uri_wf c"
  shows "uri_of_string junk (join_print c) = Inr \<lparr>m_uri = join_print c, m_components = c\<rparr> \<and>
         uri_of_components c = Inr \<lparr>m_uri = join_print c, m_components = c\<rparr>"
  by (rule uri_wf_print_parse [OF assms])

theorem uri_print_parse_witness:
  "uri_of_string 7 ''http://127.0.0.1:50000/download/create?Uri=a#f''
   = Inr \<lparr>m_uri = ''http://127.0.0.1:50000/download/create?Uri=a#f'',
      m_components = \<lparr>m_scheme = ''http'', m_host = ''127.0.0.1'', m_user_info = [],
        m_path = ''/download/create'', m_query = ''Uri=a'', m_fragment = ''f'', m_port = 50000\<rparr>\<rparr>"
proof -
  let ?c = "\<lparr>m_scheme = ''http'', m_host = ''127.0.0.1'', m_user_info = [],
        m_path = ''/download/create'', m_query = ''Uri=a'', m_fragment = ''f'', m_port = 50000\<rparr>"
  have "uri_wf ?c" by code_simp
  moreover have "show_int 50000 = ''50000''"
    by (simp add: show_nat_eval)
  then have "join_print ?c = ''http://127.0.0.1:50000/download/create?Uri=a#f''"
    by (simp add: join_print_def)
  ultimately show ?thesis using uri_print_parse [of ?c 7] by simp
qed

text \<open>
  C33. An accepted text is the concatenation of the sections read from it, each of them made of
  the characters its class allows, plus a remainder; a remainder is left only when nothing
  follows the scheme, and it then starts with a character no section may start with.
\<close>

theorem parse_from_sections:
  assumes "parse_from junk s = Some po"
  shows "\<exists>auth garbage.
    c_str s = sections_text po auth @ garbage \<and>
    (auth \<noteq> [] \<longrightarrow> (\<exists>a. auth = ''//'' @ a \<and> list_all is_authority_character a)) \<and>
    opt_all is_scheme_character (po_scheme po) \<and> opt_all is_path_character (po_path po) \<and>
    opt_all is_query_character (po_query po) \<and> opt_all is_fragment_character (po_fragment po) \<and>
    (garbage \<noteq> [] \<longrightarrow> auth = [] \<and> po_path po = None \<and> po_query po = None \<and> po_fragment po = None \<and>
       \<not> is_path_character (hd garbage) \<and> hd garbage \<notin> {CHR ''?'', CHR ''#''})"
  using parse_from_text [OF assms] by auto

theorem parse_from_sections_witness:
  "\<exists>auth garbage. ''http:<x>'' = sections_text
     \<lparr>po_scheme = Some ''http'', po_uinfo = None, po_host = None, po_port = 0, po_path = None,
      po_query = None, po_fragment = None\<rparr> auth @ garbage \<and> garbage \<noteq> []"
proof -
  let ?po = "\<lparr>po_scheme = Some ''http'', po_uinfo = None, po_host = None, po_port = 0, po_path = None,
      po_query = None, po_fragment = None\<rparr>"
  have "parse_from 0 ''http:<x>'' = Some ?po" by code_simp
  from parse_from_sections [OF this] obtain auth garbage where
    "c_str ''http:<x>'' = sections_text ?po auth @ garbage"
    "auth \<noteq> [] \<longrightarrow> (\<exists>a. auth = ''//'' @ a \<and> list_all is_authority_character a)" by auto
  moreover have "c_str ''http:<x>'' = ''http:<x>''" by code_simp
  ultimately have "''<x>'' = auth @ garbage" "auth = [] \<or> hd auth = CHR ''/''"
    by (auto simp: sections_text_def opt_text_def)
  then have "garbage \<noteq> []" by (cases auth) auto
  with \<open>c_str ''http:<x>'' = ''http:<x>''\<close> \<open>c_str ''http:<x>'' = sections_text ?po auth @ garbage\<close>
  show ?thesis by metis
qed

text \<open>
  The parser leaves the port unspecified exactly where the code reads an uninitialised
  variable: with an authority that ends in ':' the parsed port is whatever the variable held.
\<close>

theorem empty_port_reads_junk:
  "map_option po_port (parse_from junk ''http://host:/x'') = Some junk \<and> validate ''http://host:/x''"
proof -
  have "parse_scheme (c_str ''http://host:/x'') = Some (Some ''http'', ''//host:/x'')"
    "parse_path ''/x'' = Some (Some ''/x'', [])" "parse_query [] = Some (None, [])" "parse_fragment [] = Some None"
    by code_simp+
  moreover have "parse_authority k ''//host:/x'' = Some (None, Some ''host'', k, ''/x'')" for k
  proof -
    have "takeWhile (\<lambda>c. \<not> is_auth_end c) ''host:/x'' = ''host:''"
      "dropWhile (\<lambda>c. \<not> is_auth_end c) ''host:/x'' = ''/x''"
      "list_all is_authority_character ''host:''" "port_scan ''host:'' 4 = 4"
      "stream_int [] = (None, True)" "split_user_info ''host'' = (None, ''host'')" by code_simp+
    then show ?thesis
      by (simp add: parse_authority_def split_authority_def Let_def CHR_classes(10)
          del: takeWhile.simps dropWhile.simps)
  qed
  ultimately show ?thesis
    by (simp add: parse_from_def validate_def)
qed

end
