(* ===== verification/UriBuilder.thy ===== *)
theory UriBuilder
  imports UriParse
begin

text \<open>
  Percent-encoding and decoding, path and query splitting, comparison and resolution of URIs
  (common/lib-dohttp/do_cpprest_uri.cpp) and \<open>uri_builder\<close>
  (do_cpprest_uri_builder.h and .cpp). A setter of the builder is a function on its
  components; the self-aliasing branches of the appenders copy their argument first, which is
  what passing a value does.
\<close>

section \<open>Encoding\<close>

definition hex_digit :: "nat \<Rightarrow> char" where
  "hex_digit n = ''0123456789ABCDEF'' ! n"

fun encode_impl :: "string \<Rightarrow> (char \<Rightarrow> bool) \<Rightarrow> string" where
  "encode_impl [] should_encode = []"
| "encode_impl (c # raw) should_encode =
     (if should_encode c
      then CHR ''%'' # hex_digit (ord c div 16) # hex_digit (ord c mod 16) # encode_impl raw should_encode
      else c # encode_impl raw should_encode)"

datatype uri_component = UC_user_info | UC_host | UC_path | UC_query | UC_fragment | UC_full_uri

definition encode_query_char :: "char \<Rightarrow> bool" where
  "encode_query_char c \<longleftrightarrow> c = CHR ''&'' \<or> c = CHR '';'' \<or> c = CHR ''='' \<or> c = CHR ''%'' \<or> c = CHR ''+''
     \<or> \<not> is_query_character c"

definition encode_query_impl :: "string \<Rightarrow> string" where
  "encode_query_impl raw = encode_impl raw encode_query_char"

definition encode_data_string :: "string \<Rightarrow> string" where
  "encode_data_string d = encode_impl d (\<lambda>c. \<not> is_unreserved c)"

fun encode_class :: "uri_component \<Rightarrow> char \<Rightarrow> bool" where
  "encode_class UC_user_info c = (\<not> is_user_info_character c \<or> c = CHR ''%'' \<or> c = CHR ''+'')"
| "encode_class UC_host c = (127 < ord c)"
| "encode_class UC_path c = (\<not> is_path_character c \<or> c = CHR ''%'' \<or> c = CHR ''+'')"
| "encode_class UC_query c = (\<not> is_query_character c \<or> c = CHR ''%'' \<or> c = CHR ''+'')"
| "encode_class UC_fragment c = (\<not> is_fragment_character c \<or> c = CHR ''%'' \<or> c = CHR ''+'')"
| "encode_class UC_full_uri c = (\<not> is_unreserved c \<and> \<not> is_reserved c)"

definition encode_uri :: "string \<Rightarrow> uri_component \<Rightarrow> string" where
  "encode_uri raw component = encode_impl raw (encode_class component)"

section \<open>Decoding\<close>

definition hex_char_digit_to_decimal_char :: "char \<Rightarrow> nat res" where
  "hex_char_digit_to_decimal_char h =
     (if 48 \<le> ord h \<and> ord h \<le> 57 then Inr (ord h - 48)
      else if 65 \<le> ord h \<and> ord h \<le> 70 then Inr (10 + (ord h - 65))
      else if 97 \<le> ord h \<and> ord h \<le> 102 then Inr (10 + (ord h - 97))
      else Inl uri_exception)"

fun decode_template :: "string \<Rightarrow> string res" where
  "decode_template [] = Inr []"
| "decode_template (c # rest) =
     (if c = CHR ''%'' then
        (case rest of
           [] \<Rightarrow> Inl uri_exception
         | h1 # rest1 \<Rightarrow>
             rbind (hex_char_digit_to_decimal_char h1) (\<lambda>d1.
               case rest1 of
                 [] \<Rightarrow> Inl uri_exception
               | h2 # rest2 \<Rightarrow>
                   rbind (hex_char_digit_to_decimal_char h2) (\<lambda>d2.
                     rbind (decode_template rest2) (\<lambda>raw. Inr (char_of (16 * d1 + d2) # raw)))))
      else if 127 < ord c then Inl uri_exception
      else rbind (decode_template rest) (\<lambda>raw. Inr (c # raw)))"

definition decode :: "string \<Rightarrow> string res" where
  "decode encoded = decode_template encoded"

lemma nat_less_16: "n < (16 :: nat) \<Longrightarrow> n \<in> {0, 1, 2, 3, 4, 5, 6, 7, 8, 9, 10, 11, 12, 13, 14, 15}"
  by (simp add: numeral_eq_Suc less_Suc_eq)

lemma hex_digit_value: "n < 16 \<Longrightarrow> hex_char_digit_to_decimal_char (hex_digit n) = Inr n"
  by (drule nat_less_16)
    (auto simp: hex_digit_def hex_char_digit_to_decimal_char_def ord_def nth_Cons')

lemma hex_digit_ascii: "n < 16 \<Longrightarrow> isalnum (hex_digit n)"
  by (drule nat_less_16) (auto simp: hex_digit_def ctype_defs ord_def nth_Cons')

text \<open>The classes whose encoder covers '%' and every byte above 127 are decoded back.\<close>

definition covers :: "(char \<Rightarrow> bool) \<Rightarrow> bool" where
  "covers f \<longleftrightarrow> f (CHR ''%'') \<and> (\<forall>c. 127 < ord c \<longrightarrow> f c)"

lemma decode_encode_impl: "covers f \<Longrightarrow> decode_template (encode_impl raw f) = Inr raw"
proof (induction raw)
  case (Cons c raw)
  have "ord c div 16 < 16" using ord_less [of c] by (simp add: less_mult_imp_div_less del: ord_less)
  moreover have "16 * (ord c div 16) + ord c mod 16 = ord c" by simp
  moreover have "\<not> f c \<Longrightarrow> c \<noteq> CHR ''%'' \<and> \<not> 127 < ord c" using Cons.prems by (auto simp: covers_def)
  ultimately show ?case using Cons by (simp add: hex_digit_value del: ord_less)
qed simp

lemma unreserved_ascii: "is_unreserved c \<Longrightarrow> ord c \<le> 127"
  by (auto simp: is_unreserved_def ctype_defs ord_def)

lemma sub_delim_ascii: "is_sub_delim c \<Longrightarrow> ord c \<le> 127"
  by (auto simp: is_sub_delim_def ord_def)

lemma gen_delim_ascii: "is_gen_delim c \<Longrightarrow> ord c \<le> 127"
  by (auto simp: is_gen_delim_def ord_def)

lemma class_ascii:
  "is_user_info_character c \<Longrightarrow> ord c \<le> 127" "is_path_character c \<Longrightarrow> ord c \<le> 127"
  "is_query_character c \<Longrightarrow> ord c \<le> 127" "is_reserved c \<Longrightarrow> ord c \<le> 127"
  "is_authority_character c \<Longrightarrow> ord c \<le> 127" "is_scheme_character c \<Longrightarrow> ord c \<le> 127"
  using unreserved_ascii [of c] sub_delim_ascii [of c] gen_delim_ascii [of c]
  by (auto simp: is_user_info_character_def is_path_character_def is_query_character_def
      is_reserved_def is_authority_character_def is_scheme_character_def isalnum_def ord_def ctype_defs)

lemma percent_plain: "\<not> is_unreserved (CHR ''%'')" "\<not> is_reserved (CHR ''%'')"
  by code_simp+

lemma covers_class: "k \<noteq> UC_host \<Longrightarrow> covers (encode_class k)"
  using percent_plain class_ascii unreserved_ascii
  by (cases k) (fastforce simp: covers_def is_fragment_character_def)+

lemma covers_query: "covers encode_query_char"
  using class_ascii(3) by (fastforce simp: covers_def encode_query_char_def)

lemma covers_data: "covers (\<lambda>c. \<not> is_unreserved c)"
  using percent_plain unreserved_ascii by (fastforce simp: covers_def)

interpretation data_codec: codec encode_data_string decode "\<lambda>_. True"
  by unfold_locales (simp add: encode_data_string_def decode_def decode_encode_impl covers_data)

interpretation query_codec: codec encode_query_impl decode "\<lambda>_. True"
  by unfold_locales (simp add: encode_query_impl_def decode_def decode_encode_impl covers_query)

interpretation uri_codec: codec "\<lambda>(k, raw). (k, encode_uri raw k)"
  "\<lambda>(k, s). rbind (decode s) (\<lambda>raw. Inr (k, raw))" "\<lambda>(k, raw). k \<noteq> UC_host"
  by unfold_locales (auto simp: encode_uri_def decode_def decode_encode_impl covers_class)

lemma encode_impl_id: "\<forall>c \<in> set raw. \<not> f c \<Longrightarrow> encode_impl raw f = raw"
  by (induction raw) auto

text \<open>What an encoder emits: the characters it lets through, '%' and hexadecimal digits.\<close>

lemma encode_impl_chars:
  assumes "c \<in> set (encode_impl raw f)"
  shows "\<not> f c \<and> c \<in> set raw \<or> c = CHR ''%'' \<or> isalnum c"
  using assms
proof (induction raw)
  case (Cons a raw)
  have "ord a div 16 < 16" using ord_less [of a] by (simp add: less_mult_imp_div_less del: ord_less)
  with Cons show ?case using hex_digit_ascii by (auto split: if_splits)
qed simp

lemma alnum_query: "isalnum c \<Longrightarrow> is_query_character c"
  by (simp add: is_query_character_def is_path_character_def is_unreserved_def)

lemma encode_query_impl_legal:
  "c \<in> set (encode_query_impl raw) \<Longrightarrow>
   is_query_character c \<and> c \<noteq> CHR ''&'' \<and> c \<noteq> CHR '';'' \<and> c \<noteq> CHR ''='' \<and> c \<noteq> CHR ''+''"
  unfolding encode_query_impl_def
  by (drule encode_impl_chars)
    (use CHR_classes alnum_query in \<open>auto simp: encode_query_char_def is_query_character_def is_path_character_def\<close>)

section \<open>Splitting\<close>

text \<open>\<open>std::getline\<close> with a delimiter, until the stream is exhausted.\<close>

function getline_all :: "char \<Rightarrow> string \<Rightarrow> string list" where
  "getline_all d s =
     (if s = [] then []
      else takeWhile (\<lambda>c. c \<noteq> d) s # getline_all d (drop (Suc (length (takeWhile (\<lambda>c. c \<noteq> d) s))) s))"
  by pat_completeness auto
termination by (relation "measure (length \<circ> snd)") auto

declare getline_all.simps [simp del]

definition split_path :: "string \<Rightarrow> string list" where
  "split_path path = filter (\<lambda>s. s \<noteq> []) (getline_all (CHR ''/'') path)"

text \<open>
  The pair separator is the next '&', and the next ';' only when no '&' is left; a pair without
  '=' is dropped, a repeated key keeps the last value.
\<close>

definition next_amp :: "string \<Rightarrow> nat option" where
  "next_amp q = (case find_char (CHR ''&'') q of Some i \<Rightarrow> Some i | None \<Rightarrow> find_char (CHR '';'') q)"

definition put_pair :: "string \<Rightarrow> (string \<times> string) list \<Rightarrow> (string \<times> string) list" where
  "put_pair key_value_pair results =
     (case find_char (CHR ''='') key_value_pair of
        None \<Rightarrow> results
      | Some e \<Rightarrow>
          if e = 0 then omap_put str_less [] (drop 1 key_value_pair) results
          else omap_put str_less (take e key_value_pair) (drop (Suc e) key_value_pair) results)"

function split_query_loop :: "string \<Rightarrow> (string \<times> string) list \<Rightarrow> (string \<times> string) list" where
  "split_query_loop q results =
     (case next_amp q of
        None \<Rightarrow> put_pair q results
      | Some i \<Rightarrow> split_query_loop (drop (Suc i) q) (put_pair (take i q) results))"
  by pat_completeness auto
termination
  by (relation "measure (length \<circ> fst)")
    (auto simp: next_amp_def dest!: find_char_Some split: option.splits)

declare split_query_loop.simps [simp del]

definition split_query :: "string \<Rightarrow> (string \<times> string) list" where
  "split_query query = split_query_loop query []"

section \<open>The builder\<close>

definition set_scheme :: "string \<Rightarrow> uri_components \<Rightarrow> uri_components" where
  "set_scheme x c = c\<lparr>m_scheme := x\<rparr>"

definition set_user_info :: "string \<Rightarrow> bool \<Rightarrow> uri_components \<Rightarrow> uri_components" where
  "set_user_info x do_encoding c =
     (if do_encoding then c\<lparr>m_user_info := encode_uri x UC_user_info\<rparr> else c\<lparr>m_user_info := x\<rparr>)"

definition set_host :: "string \<Rightarrow> bool \<Rightarrow> uri_components \<Rightarrow> uri_components" where
  "set_host x do_encoding c =
     (if do_encoding then c\<lparr>m_host := encode_uri x UC_host\<rparr> else c\<lparr>m_host := x\<rparr>)"

definition set_port :: "int \<Rightarrow> uri_components \<Rightarrow> uri_components" where
  "set_port p c = c\<lparr>m_port := p\<rparr>"

definition set_path :: "string \<Rightarrow> bool \<Rightarrow> uri_components \<Rightarrow> uri_components" where
  "set_path x do_encoding c =
     (if do_encoding then c\<lparr>m_path := encode_uri x UC_path\<rparr> else c\<lparr>m_path := x\<rparr>)"

definition set_query :: "string \<Rightarrow> bool \<Rightarrow> uri_components \<Rightarrow> uri_components" where
  "set_query x do_encoding c =
     (if do_encoding then c\<lparr>m_query := encode_uri x UC_query\<rparr> else c\<lparr>m_query := x\<rparr>)"

definition set_fragment :: "string \<Rightarrow> bool \<Rightarrow> uri_components \<Rightarrow> uri_components" where
  "set_fragment x do_encoding c =
     (if do_encoding then c\<lparr>m_fragment := encode_uri x UC_fragment\<rparr> else c\<lparr>m_fragment := x\<rparr>)"

definition set_port_string :: "string \<Rightarrow> uri_components \<Rightarrow> uri_components res" where
  "set_port_string port c =
     (case stream_int port of
        (Some v, False) \<Rightarrow> Inr (c\<lparr>m_port := v\<rparr>)
      | _ \<Rightarrow> Inl (StdExn ''invalid_argument''))"

definition append_path :: "string \<Rightarrow> bool \<Rightarrow> uri_components \<Rightarrow> uri_components" where
  "append_path toAppend do_encode c =
     (if toAppend \<noteq> [] \<and> toAppend \<noteq> ''/'' then
        let thisPath = m_path c;
            base = (if thisPath = [] \<or> thisPath = ''/''
                    then (if hd toAppend \<noteq> CHR ''/'' then ''/'' else [])
                    else if last thisPath = CHR ''/'' \<and> hd toAppend = CHR ''/'' then butlast thisPath
                    else if last thisPath \<noteq> CHR ''/'' \<and> hd toAppend \<noteq> CHR ''/'' then thisPath @ ''/''
                    else thisPath)
        in c\<lparr>m_path := base @ (if do_encode then encode_uri toAppend UC_path else toAppend)\<rparr>
      else c)"

definition append_path_raw :: "string \<Rightarrow> bool \<Rightarrow> uri_components \<Rightarrow> uri_components" where
  "append_path_raw toAppend do_encode c =
     (if toAppend \<noteq> [] then
        let base = (if m_path c \<noteq> ''/'' then m_path c @ ''/'' else m_path c)
        in c\<lparr>m_path := base @ (if do_encode then encode_uri toAppend UC_path else toAppend)\<rparr>
      else c)"

definition append_query :: "string \<Rightarrow> bool \<Rightarrow> uri_components \<Rightarrow> uri_components" where
  "append_query toAppend do_encode c =
     (if toAppend \<noteq> [] then
        let thisQuery = m_query c;
            base = (if thisQuery = [] then []
                    else if last thisQuery = CHR ''&'' \<and> hd toAppend = CHR ''&'' then butlast thisQuery
                    else if last thisQuery \<noteq> CHR ''&'' \<and> hd toAppend \<noteq> CHR ''&'' then thisQuery @ ''&''
                    else thisQuery)
        in c\<lparr>m_query := base @ (if do_encode then encode_uri toAppend UC_query else toAppend)\<rparr>
      else c)"

definition append_query_encode_impl :: "string \<Rightarrow> string \<Rightarrow> uri_components \<Rightarrow> uri_components" where
  "append_query_encode_impl name value c =
     append_query (encode_query_impl name @ ''='' @ encode_query_impl value) False c"

definition append_query_no_encode_impl :: "string \<Rightarrow> string \<Rightarrow> uri_components \<Rightarrow> uri_components" where
  "append_query_no_encode_impl name value c = append_query (name @ ''='' @ value) False c"

definition append_query_param :: "string \<Rightarrow> string \<Rightarrow> bool \<Rightarrow> uri_components \<Rightarrow> uri_components" where
  "append_query_param name value do_encoding c =
     (if do_encoding then append_query_encode_impl name value c
      else append_query_no_encode_impl name value c)"

definition append_uri :: "uri \<Rightarrow> uri_components \<Rightarrow> uri_components" where
  "append_uri relative_uri c =
     (let r = m_components relative_uri;
          c1 = append_path (m_path r) False c;
          c2 = append_query (m_query r) False c1
      in set_fragment (m_fragment c2 @ m_fragment r) False c2)"

definition to_uri :: "uri_components \<Rightarrow> uri res" where
  "to_uri c = uri_of_components c"

definition builder_to_string :: "uri_components \<Rightarrow> string res" where
  "builder_to_string c = rbind (to_uri c) (\<lambda>u. Inr (m_uri u))"

definition builder_is_valid :: "uri_components \<Rightarrow> bool \<times> uri_components" where
  "builder_is_valid c = (let (s, c') = uri_join c in (validate s, c'))"

section \<open>Predicates, comparison and resolution\<close>

definition is_empty :: "uri \<Rightarrow> bool" where
  "is_empty u \<longleftrightarrow> m_uri u = [] \<or> m_uri u = ''/''"

definition is_host_loopback :: "uri \<Rightarrow> bool" where
  "is_host_loopback u \<longleftrightarrow>
     (let host = m_host (m_components u)
      in \<not> is_empty u \<and> (host = ''localhost'' \<or> (4 < length host \<and> take 4 host = ''127.'')))"

definition is_host_wildcard :: "uri \<Rightarrow> bool" where
  "is_host_wildcard u \<longleftrightarrow>
     \<not> is_empty u \<and> (m_host (m_components u) = ''*'' \<or> m_host (m_components u) = ''+'')"

definition is_host_portable :: "uri \<Rightarrow> bool" where
  "is_host_portable u \<longleftrightarrow> \<not> (is_empty u \<or> is_host_loopback u \<or> is_host_wildcard u)"

definition is_port_default :: "uri \<Rightarrow> bool" where
  "is_port_default u \<longleftrightarrow> \<not> is_empty u \<and> m_port (m_components u) = 0"

definition is_path_empty :: "uri \<Rightarrow> bool" where
  "is_path_empty u \<longleftrightarrow> m_path (m_components u) = [] \<or> m_path (m_components u) = ''/''"

definition is_authority :: "uri \<Rightarrow> bool" where
  "is_authority u \<longleftrightarrow> \<not> is_empty u \<and> is_path_empty u \<and> m_query (m_components u) = [] \<and>
     m_fragment (m_components u) = []"

definition authority :: "uri \<Rightarrow> uri res" where
  "authority u =
     (let c = m_components u
      in to_uri (set_user_info (m_user_info c) False (set_port (m_port c)
           (set_host (m_host c) False (set_scheme (m_scheme c) uri_components_init)))))"

definition resource :: "uri \<Rightarrow> uri res" where
  "resource u =
     (let c = m_components u
      in to_uri (set_fragment (m_fragment c) False (set_query (m_query c) False
           (set_path (m_path c) False uri_components_init))))"

definition decoded_differ :: "string \<Rightarrow> string \<Rightarrow> bool res" where
  "decoded_differ a b = rbind (decode a) (\<lambda>x. rbind (decode b) (\<lambda>y. Inr (x \<noteq> y)))"

text \<open>\<open>operator==\<close>: the first comparison that decides returns; decoding may throw.\<close>

definition uri_equal :: "uri \<Rightarrow> uri \<Rightarrow> bool res" where
  "uri_equal this other =
     (let a = m_components this; b = m_components other
      in if is_empty this \<and> is_empty other then Inr True
         else if is_empty this \<or> is_empty other then Inr False
         else if m_scheme a \<noteq> m_scheme b then Inr False
         else rbind (decoded_differ (m_user_info a) (m_user_info b)) (\<lambda>d. if d then Inr False
         else rbind (decoded_differ (m_host a) (m_host b)) (\<lambda>d. if d then Inr False
         else if m_port a \<noteq> m_port b then Inr False
         else rbind (decoded_differ (m_path a) (m_path b)) (\<lambda>d. if d then Inr False
         else rbind (decoded_differ (m_query a) (m_query b)) (\<lambda>d. if d then Inr False
         else rbind (decoded_differ (m_fragment a) (m_fragment b)) (\<lambda>d. Inr (\<not> d)))))))"

fun rfind :: "char \<Rightarrow> string \<Rightarrow> nat option" where
  "rfind c s = (case find_char c (rev s) of None \<Rightarrow> None | Some i \<Rightarrow> Some (length s - 1 - i))"

definition mergePaths :: "string \<Rightarrow> string \<Rightarrow> string" where
  "mergePaths base relative =
     (case rfind (CHR ''/'') base of
        None \<Rightarrow> base @ ''/'' @ relative
      | Some lastSlash \<Rightarrow>
          if lastSlash = length base - 1 then base @ relative
          else take (lastSlash + 1) base @ relative)"

fun dot_loop :: "string list \<Rightarrow> string list \<Rightarrow> string list" where
  "dot_loop [] result = result"
| "dot_loop (segment # segments) result =
     (if segment = ''.'' then dot_loop segments result
      else if segment \<noteq> ''..'' then dot_loop segments (result @ [segment])
      else if result \<noteq> [] then dot_loop segments (butlast result)
      else dot_loop segments result)"

fun join_slash :: "string list \<Rightarrow> string" where
  "join_slash [] = []"
| "join_slash [s] = s"
| "join_slash (s # t # ss) = s @ ''/'' @ join_slash (t # ss)"

definition removeDotSegments :: "uri_components \<Rightarrow> uri_components" where
  "removeDotSegments builder =
     (if CHR ''.'' \<notin> set (m_path builder) then builder
      else let segments = split_path (m_path builder);
               result = dot_loop segments []
           in if result = [] then set_path [] False builder
              else let path = join_slash result;
                       path' = (if last segments = ''..'' \<or> last segments = ''.'' \<or>
                                   last (m_path builder) = CHR ''/''
                                then path @ ''/'' else path)
                   in set_path path' False builder)"

definition resolve_uri :: "int \<Rightarrow> uri \<Rightarrow> string \<Rightarrow> string res" where
  "resolve_uri junk this relativeUri =
     (let t = m_components this in
      if relativeUri = [] then Inr (m_uri this)
      else if hd relativeUri = CHR ''/'' then
        (if 2 \<le> length relativeUri \<and> relativeUri ! 1 = CHR ''/''
         then Inr (m_scheme t @ '':'' @ relativeUri)
         else rbind (authority this) (\<lambda>auth.
              rbind (uri_of_string junk relativeUri) (\<lambda>rel.
                builder_to_string (removeDotSegments (append_uri rel (m_components auth))))))
      else
        rbind (uri_of_string junk relativeUri) (\<lambda>url.
          let r = m_components url in
          if m_scheme r \<noteq> [] then Inr relativeUri
          else rbind (authority url) (\<lambda>auth.
            if \<not> is_empty auth then builder_to_string (set_scheme (m_scheme t) r)
            else
              let builder =
                (if m_path r = ''/'' \<or> m_path r = []
                 then (if m_query r \<noteq> [] then set_query (m_query r) False t else t)
                 else if m_path t \<noteq> []
                 then set_query (m_query r) False
                        (removeDotSegments (set_path (mergePaths (m_path t) (m_path r)) False t))
                 else t)
              in builder_to_string (set_fragment (m_fragment r) False builder))))"

section \<open>A query built pair by pair is split back\<close>

definition query_pair :: "string \<times> string \<Rightarrow> string" where
  "query_pair kv = encode_query_impl (fst kv) @ CHR ''='' # encode_query_impl (snd kv)"

fun query_text :: "(string \<times> string) list \<Rightarrow> string" where
  "query_text [] = []"
| "query_text [kv] = query_pair kv"
| "query_text (kv # kv' # kvs) = query_pair kv @ CHR ''&'' # query_text (kv' # kvs)"

definition append_pairs :: "(string \<times> string) list \<Rightarrow> uri_components \<Rightarrow> uri_components" where
  "append_pairs kvs c = foldl (\<lambda>c (k, v). append_query_param k v True c) c kvs"

lemma query_pair_nonempty [simp]: "query_pair kv \<noteq> []"
  by (simp add: query_pair_def)

lemma query_pair_chars: "CHR ''&'' \<notin> set (query_pair kv)" "CHR '';'' \<notin> set (query_pair kv)"
  using encode_query_impl_legal by (auto simp: query_pair_def)

lemma query_text_snoc:
  "query_text (kvs @ [kv]) = (if kvs = [] then query_pair kv else query_text kvs @ CHR ''&'' # query_pair kv)"
  by (induction kvs rule: query_text.induct) auto

lemma query_text_empty: "query_text kvs = [] \<longleftrightarrow> kvs = []"
  by (cases kvs rule: query_text.cases) auto

lemma query_pair_ends: "last (query_pair kv) \<noteq> CHR ''&''" "hd (query_pair kv) \<noteq> CHR ''&''"
  using query_pair_chars(1) [of kv] last_in_set [OF query_pair_nonempty [of kv]]
    hd_in_set [OF query_pair_nonempty [of kv]] by metis+

lemma query_text_last: "kvs \<noteq> [] \<Longrightarrow> last (query_text kvs) \<noteq> CHR ''&''"
  by (cases kvs rule: rev_cases) (auto simp: query_text_snoc query_pair_ends)

lemma append_pairs_text: "m_query c = [] \<Longrightarrow> m_query (append_pairs kvs c) = query_text kvs"
proof (induction kvs rule: rev_induct)
  case (snoc kv kvs)
  obtain k v where kv: "kv = (k, v)" by (cases kv)
  have "append_pairs (kvs @ [kv]) c = append_query (query_pair kv) False (append_pairs kvs c)"
    by (simp add: append_pairs_def kv append_query_param_def append_query_encode_impl_def query_pair_def)
  with snoc query_text_last [of kvs] query_pair_ends [of kv] show ?case
    by (simp add: append_query_def Let_def query_text_empty query_text_snoc)
qed (simp add: append_pairs_def)

lemma put_pair_pair:
  "put_pair (query_pair kv) m = omap_put str_less (encode_query_impl (fst kv)) (encode_query_impl (snd kv)) m"
proof -
  have "CHR ''='' \<notin> set (encode_query_impl (fst kv))" using encode_query_impl_legal by blast
  then have "find_char (CHR ''='') (query_pair kv) = Some (length (encode_query_impl (fst kv)))"
    by (simp add: query_pair_def find_char_split)
  then show ?thesis by (auto simp: put_pair_def query_pair_def)
qed

lemma split_query_loop_text:
  "kvs \<noteq> [] \<Longrightarrow> split_query_loop (query_text kvs) m =
   foldl (\<lambda>m kv. omap_put str_less (encode_query_impl (fst kv)) (encode_query_impl (snd kv)) m) m kvs"
proof (induction kvs arbitrary: m rule: query_text.induct)
  case (2 kv)
  have "next_amp (query_pair kv) = None"
    using query_pair_chars [of kv] find_char_None by (metis next_amp_def option.case(1))
  then show ?case by (subst split_query_loop.simps) (simp add: put_pair_pair)
next
  case (3 kv kv' kvs)
  have "next_amp (query_pair kv @ CHR ''&'' # x) = Some (length (query_pair kv))" for x
    using query_pair_chars [of kv] by (simp add: next_amp_def find_char_split)
  with 3 show ?case by (subst split_query_loop.simps) (simp add: put_pair_pair)
qed simp

lemma split_query_text:
  "split_query (query_text kvs) =
   foldl (\<lambda>m kv. omap_put str_less (encode_query_impl (fst kv)) (encode_query_impl (snd kv)) m) [] kvs"
proof (cases "kvs = []")
  case True
  then show ?thesis by (simp add: split_query_def split_query_loop.simps next_amp_def put_pair_def)
next
  case False
  then show ?thesis by (simp add: split_query_def split_query_loop_text)
qed

lemma omap_get_pairs:
  "omap_get str_less (encode_query_impl k)
     (foldl (\<lambda>m kv. omap_put str_less (encode_query_impl (fst kv)) (encode_query_impl (snd kv)) m) [] kvs)
   = map_option encode_query_impl (map_of (rev kvs) k)"
proof (induction kvs rule: rev_induct)
  case (snoc kv kvs)
  then show ?case by (cases kv) (simp add: str_map.get_put query_codec.enc_inj)
qed simp

text \<open>
  C23. A query string built pair by pair with the encoding overload of \<open>append_query\<close> is read
  back by \<open>split_query\<close>: looking a key up in its encoded form gives the encoded form of the
  last value appended for that key, and nothing for a key never appended.
\<close>

theorem query_pairs_roundtrip:
  "omap_get str_less (encode_query_impl k) (split_query (m_query (append_pairs kvs uri_components_init)))
   = map_option encode_query_impl (map_of (rev kvs) k)"
  by (simp add: append_pairs_text uri_components_init_def split_query_text omap_get_pairs)

text \<open>
  Decoding undoes encoding, for every component class other than the host, for data
  strings and for query parameters, and every byte the query encoder emits is legal in a query
  and is not one of its delimiters.
\<close>

theorem percent_encoding_roundtrip:
  "(k \<noteq> UC_host \<longrightarrow> decode (encode_uri raw k) = Inr raw) \<and>
   decode (encode_data_string raw) = Inr raw \<and>
   decode (encode_query_impl raw) = Inr raw \<and>
   (c \<in> set (encode_query_impl raw) \<longrightarrow>
      is_query_character c \<and> c \<notin> {CHR ''&'', CHR '';'', CHR ''='', CHR ''+''})"
  using uri_codec.dec_enc [of "(k, raw)"] data_codec.dec_enc [of raw] query_codec.dec_enc [of raw]
    encode_query_impl_legal [of c raw]
  by (auto simp: rbind_Inr_iff)

theorem percent_encoding_roundtrip_witness:
  "decode (encode_uri ''a b%'' UC_path) = Inr ''a b%'' \<and> encode_uri ''a b%'' UC_path = ''a%20b%25'' \<and>
   is_query_character (CHR ''%'')"
proof -
  have e: "encode_uri ''a b%'' UC_path = ''a%20b%25''" and q: "encode_query_impl '' '' = ''%20''"
    by code_simp+
  have "decode (encode_uri ''a b%'' UC_path) = Inr ''a b%''" and "is_query_character (CHR ''%'')"
    using percent_encoding_roundtrip [of UC_path "''a b%''"]
      percent_encoding_roundtrip [of UC_path "'' ''" "CHR ''%''"] q by auto
  with e show ?thesis by simp
qed

section \<open>Dot segments\<close>

lemma dot_loop_set: "set (dot_loop segs res) \<subseteq> (set segs - {''.'', ''..''}) \<union> set res"
proof (induction segs res rule: dot_loop.induct)
  case (2 s segs res)
  then show ?case
    by (auto dest!: in_set_butlastD split: if_splits)
qed simp

lemma getline_all_append:
  "d \<notin> set s \<Longrightarrow> getline_all d (s @ d # t) = s # getline_all d t"
proof -
  assume "d \<notin> set s"
  then have "takeWhile (\<lambda>c. c \<noteq> d) (s @ d # t) = s" by (intro takeWhile_append_stop) auto
  then show ?thesis by (subst getline_all.simps) simp
qed

lemma getline_all_single: "d \<notin> set s \<Longrightarrow> getline_all d s = (if s = [] then [] else [s])"
proof -
  assume "d \<notin> set s"
  then have tw: "takeWhile (\<lambda>c. c \<noteq> d) s = s" by (intro takeWhile_all) auto
  show ?thesis by (subst getline_all.simps) (simp add: tw getline_all.simps)
qed

lemma getline_all_no_delim: "t \<in> set (getline_all d s) \<Longrightarrow> d \<notin> set t"
proof (induction d s rule: getline_all.induct)
  case (1 d s)
  then show ?case
    by (subst (asm) (2) getline_all.simps) (auto split: if_splits dest: set_takeWhileD)
qed

lemma split_path_join:
  "\<forall>s \<in> set segs. s \<noteq> [] \<and> CHR ''/'' \<notin> set s \<Longrightarrow>
   split_path (join_slash segs @ (if b then ''/'' else [])) = segs"
proof (induction segs rule: join_slash.induct)
  case 1
  have "getline_all (CHR ''/'') ''/'' = [[]]" by (simp add: getline_all.simps)
  then show ?case by (simp add: split_path_def getline_all_single)
next
  case (2 s)
  then show ?case
    using getline_all_append [of "CHR ''/''" s "[]"] by (simp add: split_path_def getline_all_single)
next
  case (3 s t ss)
  then show ?case by (simp add: split_path_def getline_all_append)
qed



end
