(* ===== verification/HttpParser.thy ===== *)
theory HttpParser
  imports UriBuilder
begin

text \<open>
  common/lib-dohttp/do_http_parser.h and .cpp, do_http_packet.h: the incremental parser of the
  requests the agent reads and of the responses the SDK reads. The vector of incoming bytes is a
  list and \<open>_itParseFrom\<close> an index into it; the buffer never grows past the capacity reserved by
  \<open>Reset\<close>, so the iterator stays valid. A parser keeps its state when \<open>OnData\<close> throws.
\<close>

section \<open>State\<close>

datatype ParserState = FirstLine | Fields | Body | Complete

record http_packet =
  pk_method :: string
  pk_url :: uri
  pk_statusCode :: u32
  pk_contentLength :: u64
  pk_body :: string

record http_parser =
  hp_state :: ParserState
  hp_buf :: string
  hp_from :: nat
  hp_packet :: http_packet

definition uri_default :: uri where
  "uri_default = \<lparr>m_uri = ''/'', m_components = uri_components_init\<rparr>"

definition packet_init :: http_packet where
  "packet_init = \<lparr>pk_method = [], pk_url = uri_default, pk_statusCode = 0, pk_contentLength = 0, pk_body = []\<rparr>"

definition hp_capacity :: nat where "hp_capacity = 2048"

definition hp_reset :: "http_parser \<Rightarrow> http_parser" where
  "hp_reset p = p\<lparr>hp_buf := [], hp_state := FirstLine, hp_packet := packet_init\<rparr>"

definition hp_init :: http_parser where
  "hp_init = \<lparr>hp_state = FirstLine, hp_buf = [], hp_from = 0, hp_packet = packet_init\<rparr>"

definition hp_done :: "http_parser \<Rightarrow> bool" where
  "hp_done p \<longleftrightarrow> hp_state p = Complete"

section \<open>Lines\<close>

definition CR :: char where "CR = CHR 0x0D"
definition LF :: char where "LF = CHR 0x0A"

definition find_crlf :: "string \<Rightarrow> nat \<Rightarrow> nat option res" where
  "find_crlf buf itStart =
     (case find_char CR (drop itStart buf) of
        None \<Rightarrow> Inr None
      | Some i \<Rightarrow>
          let itCR = itStart + i
          in if itCR + 1 = length buf then Inr None
             else if buf ! (itCR + 1) \<noteq> LF then Inl (StdExn ''invalid_argument'')
             else Inr (Some itCR))"

text \<open>
  The regular expressions. Their first two parts cannot match a blank, so a match splits the line
  at its first two blanks; they are applied to the line as a C string.
\<close>

definition split_blank :: "string \<Rightarrow> (string \<times> string) option" where
  "split_blank s = map_option (\<lambda>i. (take i s, drop (Suc i) s)) (find_char (CHR '' '') s)"

definition rx_version_char :: "char \<Rightarrow> bool" where
  "rx_version_char c \<longleftrightarrow> c \<in> {CHR ''h'', CHR ''H'', CHR ''t'', CHR ''T'', CHR ''p'', CHR ''P'',
     CHR ''/'', CHR ''1'', CHR ''.''}"

definition rx_url_char :: "char \<Rightarrow> bool" where
  "rx_url_char c \<longleftrightarrow> isalnum c \<or> c \<in> {CHR ''-'', CHR ''_'', CHR ''.'', CHR ''!'', CHR ''~'', CHR ''*'',
     CHR 0x27, CHR ''('', CHR '')'', CHR ''%'', CHR '':'', CHR ''@'', CHR ''&'', CHR ''='', CHR ''+'',
     CHR ''$'', CHR '','', CHR ''/'', CHR ''?''}"

definition rx_plus :: "(char \<Rightarrow> bool) \<Rightarrow> string \<Rightarrow> bool" where
  "rx_plus P s \<longleftrightarrow> s \<noteq> [] \<and> list_all P s"

definition rxStatusLine :: "string \<Rightarrow> string option" where
  "rxStatusLine s = do {
     (version, r) \<leftarrow> split_blank s;
     (code, phrase) \<leftarrow> split_blank r;
     if rx_plus rx_version_char version \<and> rx_plus isdigit code \<and>
        rx_plus (\<lambda>c. isalnum c \<or> c = CHR '' '') phrase
     then Some code else None
   }"

definition rxRequestLine :: "string \<Rightarrow> (string \<times> string) option" where
  "rxRequestLine s = do {
     (verb, r) \<leftarrow> split_blank s;
     (url, version) \<leftarrow> split_blank r;
     if rx_plus isalpha verb \<and> rx_plus rx_url_char url \<and> rx_plus rx_version_char version
     then Some (verb, url) else None
   }"

text \<open>\<^verbatim>\<open>.*:[ ]*(\d+).*\<close> is greedy, so it takes the last ':' that digits follow.\<close>

fun rx_last_number :: "string \<Rightarrow> string option" where
  "rx_last_number [] = None"
| "rx_last_number (c # cs) =
     (case rx_last_number cs of
        Some d \<Rightarrow> Some d
      | None \<Rightarrow>
          if c = CHR '':''
          then let d = takeWhile isdigit (dropWhile (\<lambda>c. c = CHR '' '') cs) in if d = [] then None else Some d
          else None)"

definition rxContentLength :: "string \<Rightarrow> string option" where
  "rxContentLength s = (if CR \<in> set s \<or> LF \<in> set s then None else rx_last_number s)"

definition strtoul_digits :: "string \<Rightarrow> u64" where
  "strtoul_digits ds = of_nat (min (dec_val ds) (2 ^ 64 - 1))"

fun has_substring :: "string \<Rightarrow> string \<Rightarrow> bool" where
  "has_substring pat [] = (pat = [])"
| "has_substring pat (c # cs) = (take (length pat) (c # cs) = pat \<or> has_substring pat cs)"

section \<open>Parsing\<close>

definition parse_first_line :: "int \<Rightarrow> string \<Rightarrow> (http_parser, unit) sm" where
  "parse_first_line junk firstLine =
     (case rxStatusLine (c_str firstLine) of
        Some code \<Rightarrow>
          smod (\<lambda>p. p\<lparr>hp_packet := (hp_packet p)\<lparr>pk_statusCode := ucast (strtoul_digits code)\<rparr>\<rparr>)
      | None \<Rightarrow>
          (case rxRequestLine (c_str firstLine) of
             Some (verb, url) \<Rightarrow>
               sthen (smod (\<lambda>p. p\<lparr>hp_packet := (hp_packet p)\<lparr>pk_method := verb\<rparr>\<rparr>))
                 (sbind (sres (uri_of_string junk url))
                    (\<lambda>u. smod (\<lambda>p. p\<lparr>hp_packet := (hp_packet p)\<lparr>pk_url := u\<rparr>\<rparr>)))
           | None \<Rightarrow> sthrow (StdExn ''invalid_argument'')))"

definition parse_next_field :: "(http_parser, bool) sm" where
  "parse_next_field p =
     (case find_crlf (hp_buf p) (hp_from p) of
        Inl e \<Rightarrow> (Inl e, p)
      | Inr None \<Rightarrow> (Inr False, p)
      | Inr (Some itCR) \<Rightarrow>
          if hp_from p = itCR then (Inr False, p\<lparr>hp_state := Body, hp_from := itCR + 2\<rparr>)
          else let field = take (itCR - hp_from p) (drop (hp_from p) (hp_buf p))
               in if has_substring ''Content-Length'' field
                  then (case rxContentLength (c_str field) of
                          None \<Rightarrow> (Inl (StdExn ''invalid_argument''), p)
                        | Some d \<Rightarrow>
                            (Inr True, p\<lparr>hp_packet := (hp_packet p)\<lparr>pk_contentLength := strtoul_digits d\<rparr>,
                                         hp_from := itCR + 2\<rparr>))
                  else (Inr True, p\<lparr>hp_from := itCR + 2\<rparr>))"

lemma find_crlf_Some:
  "find_crlf buf i = Inr (Some k) \<Longrightarrow>
     i \<le> k \<and> k + 1 < length buf \<and> buf ! k = CR \<and> buf ! (k + 1) = LF \<and> CR \<notin> set (take (k - i) (drop i buf))"
  using find_char_Some [of CR "drop i buf"] find_char_nth [of CR "drop i buf"]
  by (fastforce simp: find_crlf_def Let_def split: option.splits if_splits)

lemma parse_next_field_True:
  assumes "parse_next_field p = (Inr True, p')"
  shows "hp_from p < hp_from p' \<and> hp_from p' \<le> length (hp_buf p) \<and> hp_buf p' = hp_buf p \<and>
         hp_state p' = hp_state p"
  using assms find_crlf_Some [of "hp_buf p" "hp_from p"]
  by (fastforce simp: parse_next_field_def Let_def split: sum.splits option.splits if_splits)

text \<open>\<open>while (_ParseNextField()) {}\<close>\<close>

function parse_fields :: "http_parser \<Rightarrow> unit res \<times> http_parser" where
  "parse_fields p =
     (case parse_next_field p of
        (Inl e, p') \<Rightarrow> (Inl e, p')
      | (Inr again, p') \<Rightarrow> if again then parse_fields p' else (Inr (), p'))"
  by pat_completeness auto
termination
  by (relation "measure (\<lambda>p. length (hp_buf p) - hp_from p)") (auto dest!: parse_next_field_True [OF sym])

declare parse_fields.simps [simp del]

definition parse_body :: "http_parser \<Rightarrow> http_parser" where
  "parse_body p =
     (if pk_contentLength (hp_packet p) = 0 then p\<lparr>hp_state := Complete\<rparr>
      else let availableBodySize = length (hp_buf p) - hp_from p
           in if availableBodySize = unat (pk_contentLength (hp_packet p))
              then p\<lparr>hp_packet := (hp_packet p)\<lparr>pk_body := pk_body (hp_packet p) @
                       take (unat (pk_contentLength (hp_packet p))) (drop (hp_from p) (hp_buf p))\<rparr>,
                     hp_state := Complete, hp_from := length (hp_buf p)\<rparr>
              else p)"

definition parse_first :: "int \<Rightarrow> (http_parser, unit) sm" where
  "parse_first junk p =
     (case find_crlf (hp_buf p) 0 of
        Inl e \<Rightarrow> (Inl e, p)
      | Inr None \<Rightarrow> (Inr (), p)
      | Inr (Some itCR) \<Rightarrow>
          sthen (parse_first_line junk (take itCR (hp_buf p)))
                (smod (\<lambda>p. p\<lparr>hp_state := Fields, hp_from := itCR + 2\<rparr>)) p)"

definition parse_buf :: "int \<Rightarrow> (http_parser, bool) sm" where
  "parse_buf junk p =
     (let oldState = hp_state p;
          (r, p') = (case oldState of
                       FirstLine \<Rightarrow> parse_first junk p
                     | Fields \<Rightarrow> parse_fields p
                     | Body \<Rightarrow> (Inr (), parse_body p)
                     | Complete \<Rightarrow> (Inr (), p))
      in case r of Inl e \<Rightarrow> (Inl e, p') | Inr _ \<Rightarrow> (Inr (oldState \<noteq> hp_state p'), p'))"

fun state_rank :: "ParserState \<Rightarrow> nat" where
  "state_rank FirstLine = 0"
| "state_rank Fields = 1"
| "state_rank Body = 2"
| "state_rank Complete = 3"

lemma parse_first_line_frame:
  "parse_first_line junk l p = (r, p') \<Longrightarrow>
     hp_state p' = hp_state p \<and> hp_buf p' = hp_buf p \<and> hp_from p' = hp_from p"
  by (auto simp: parse_first_line_def res_defs split: option.splits sum.splits prod.splits)

lemma parse_first_rank:
  "parse_first junk p = (Inr (), p') \<Longrightarrow> hp_state p = FirstLine \<Longrightarrow> hp_state p' \<in> {FirstLine, Fields}"
  by (auto simp: parse_first_def res_defs split: option.splits sum.splits prod.splits)

lemma parse_next_field_state:
  "parse_next_field p = (r, p') \<Longrightarrow> hp_state p' = hp_state p \<or> hp_state p' = Body \<and> r = Inr False"
  by (auto simp: parse_next_field_def Let_def split: sum.splits option.splits if_splits)

lemma parse_fields_state:
  "parse_fields p = (r, p') \<Longrightarrow> hp_state p' = hp_state p \<or> hp_state p' = Body \<and> r = Inr ()"
proof (induction p arbitrary: r p' rule: parse_fields.induct)
  case (1 p)
  then show ?case
    using parse_next_field_state [of p]
    by (subst (asm) (2) parse_fields.simps) (fastforce split: prod.splits sum.splits if_splits)
qed

lemma parse_buf_rank:
  "parse_buf junk p = (Inr True, p') \<Longrightarrow> state_rank (hp_state p) < state_rank (hp_state p')"
  using parse_first_rank [of junk p] parse_fields_state [of p]
  by (cases "hp_state p")
    (fastforce simp: parse_buf_def parse_body_def Let_def split: prod.splits sum.splits if_splits)+

text \<open>\<open>while (_ParseBuf()) {}\<close>: every turn that continues moves to a later state.\<close>

function parse_loop :: "int \<Rightarrow> http_parser \<Rightarrow> unit res \<times> http_parser" where
  "parse_loop junk p =
     (case parse_buf junk p of
        (Inl e, p') \<Rightarrow> (Inl e, p')
      | (Inr again, p') \<Rightarrow> if again then parse_loop junk p' else (Inr (), p'))"
  by pat_completeness auto
termination
proof -
  have "state_rank s \<le> 3" for s by (cases s) auto
  then show ?thesis
    by (relation "measure (\<lambda>(j, p). 3 - state_rank (hp_state p))")
      (auto dest!: parse_buf_rank [OF sym] simp: diff_less_mono2 less_le_trans)
qed

declare parse_loop.simps [simp del]

definition OnData :: "int \<Rightarrow> string \<Rightarrow> (http_parser, unit) sm" where
  "OnData junk pData p =
     (if length (hp_buf p) + length pData > hp_capacity then (Inl (StdExn ''length_error''), p)
      else parse_loop junk (p\<lparr>hp_buf := hp_buf p @ pData\<rparr>))"

section \<open>Receiving a message in pieces\<close>

text \<open>
  The parser after more bytes have arrived. Every step that does not wait for bytes does the same
  on the longer buffer, so waiting commutes with receiving; only the body test compares against
  everything received, and it is the last step.
\<close>

definition ext :: "http_parser \<Rightarrow> string \<Rightarrow> http_parser" where
  "ext p c = p\<lparr>hp_buf := hp_buf p @ c\<rparr>"

definition hp_ok :: "http_parser \<Rightarrow> bool" where
  "hp_ok p \<longleftrightarrow> (hp_state p \<noteq> FirstLine \<longrightarrow> hp_from p \<le> length (hp_buf p))"

lemma ext_simps [simp]:
  "hp_state (ext p c) = hp_state p" "hp_from (ext p c) = hp_from p" "hp_buf (ext p c) = hp_buf p @ c"
  "hp_packet (ext p c) = hp_packet p" "ext p [] = p"
  by (simp_all add: ext_def)

lemma find_crlf_append:
  assumes "i \<le> length buf"
  shows "find_crlf buf i = Inr (Some k) \<Longrightarrow> find_crlf (buf @ c) i = Inr (Some k)"
    and "find_crlf buf i = Inl e \<Longrightarrow> find_crlf (buf @ c) i = Inl e"
proof -
  have d: "find_char CR (drop i buf) = Some n \<Longrightarrow> n < length (drop i buf)" for n
    using find_char_Some by blast
  show "find_crlf buf i = Inr (Some k) \<Longrightarrow> find_crlf (buf @ c) i = Inr (Some k)"
    and "find_crlf buf i = Inl e \<Longrightarrow> find_crlf (buf @ c) i = Inl e"
    using assms d
    by (fastforce simp: find_crlf_def Let_def find_char_append nth_append split: option.splits if_splits)+
qed

lemma parse_next_field_ext:
  assumes "parse_next_field p = (r, p')" "hp_from p \<le> length (hp_buf p)"
    "r \<noteq> Inr False \<or> hp_state p' \<noteq> hp_state p"
  shows "parse_next_field (ext p c) = (r, ext p' c)"
proof (cases "find_crlf (hp_buf p) (hp_from p)")
  case (Inl e)
  with assms find_crlf_append(2) [OF assms(2) Inl] show ?thesis
    by (auto simp: parse_next_field_def)
next
  case (Inr found)
  with assms obtain k where k: "found = Some k" by (auto simp: parse_next_field_def split: option.splits)
  have "hp_from p \<le> k" "k + 1 < length (hp_buf p)" using find_crlf_Some Inr k by blast+
  then have t: "take (k - hp_from p) (drop (hp_from p) (hp_buf p @ c)) = take (k - hp_from p) (drop (hp_from p) (hp_buf p))"
    by simp
  have f: "find_crlf (hp_buf p @ c) (hp_from p) = Inr (Some k)" using find_crlf_append(1) assms(2) Inr k by blast
  show ?thesis
    using assms Inr k f t
    by (auto simp: parse_next_field_def Let_def ext_def split: option.splits if_splits)
qed

lemma parse_next_field_wait:
  "parse_next_field p = (Inr False, p') \<Longrightarrow> hp_state p' = hp_state p \<Longrightarrow> hp_state p \<noteq> Body \<Longrightarrow> p' = p"
  by (auto simp: parse_next_field_def Let_def split: sum.splits option.splits if_splits)

lemma parse_next_field_ok:
  "parse_next_field p = (r, p') \<Longrightarrow> hp_from p \<le> length (hp_buf p) \<Longrightarrow>
   hp_from p' \<le> length (hp_buf p') \<and> hp_buf p' = hp_buf p"
  using find_crlf_Some [of "hp_buf p" "hp_from p"]
  by (fastforce simp: parse_next_field_def Let_def split: sum.splits option.splits if_splits)

lemma parse_fields_ext:
  assumes "hp_from p \<le> length (hp_buf p)" "hp_state p = Fields" "parse_fields p = (r, p')"
  shows "hp_from p' \<le> length (hp_buf p') \<and> hp_buf p' = hp_buf p \<and>
    (if r = Inr () \<and> hp_state p' = Fields then parse_fields (ext p c) = parse_fields (ext p' c)
     else parse_fields (ext p c) = (r, ext p' c))"
  using assms
proof (induction p arbitrary: r p' rule: parse_fields.induct)
  case (1 p)
  obtain r1 p1 where n: "parse_next_field p = (r1, p1)" by (cases "parse_next_field p")
  note ok = parse_next_field_ok [OF n 1(2)]
  have unf: "parse_fields p = (case r1 of Inl e \<Rightarrow> (Inl e, p1) | Inr again \<Rightarrow> if again then parse_fields p1 else (Inr (), p1))"
    by (subst parse_fields.simps) (simp add: n)
  consider (err) e where "r1 = Inl e" | (again) "r1 = Inr True"
    | (stop) "r1 = Inr False" "hp_state p1 \<noteq> Fields" | (wait) "r1 = Inr False" "p1 = p"
  proof (cases r1)
    case (Inr b)
    then show ?thesis
      using parse_next_field_wait [of p p1] n 1(3) that(2,3,4)
      by (cases b; cases "hp_state p1 = Fields") simp_all
  qed (rule that(1))
  then show ?case
  proof cases
    case err
    then have "parse_next_field (ext p c) = (Inl e, ext p1 c)" using parse_next_field_ext n 1(2) by simp
    then have "parse_fields (ext p c) = (Inl e, ext p1 c)" by (subst parse_fields.simps) simp
    with err unf 1(4) ok show ?thesis by auto
  next
    case again
    then have x: "parse_next_field (ext p c) = (Inr True, ext p1 c)" using parse_next_field_ext n 1(2) by simp
    have "parse_fields (ext p c) = parse_fields (ext p1 c)" by (subst parse_fields.simps) (simp add: x)
    moreover have "hp_state p1 = Fields" using parse_next_field_True n again 1(3) by simp
    ultimately show ?thesis
      using 1(1) [OF n [symmetric], of True r p'] again unf 1(4) ok by auto
  next
    case stop
    then have x: "parse_next_field (ext p c) = (Inr False, ext p1 c)"
      using parse_next_field_ext [OF n 1(2)] 1(3) by simp
    have "parse_fields (ext p c) = (Inr (), ext p1 c)" by (subst parse_fields.simps) (simp add: x)
    with stop unf 1(4) ok show ?thesis by auto
  next
    case wait
    with unf 1 show ?thesis by simp
  qed
qed

lemma parse_first_line_ext:
  "parse_first_line junk l p = (r, p') \<Longrightarrow> parse_first_line junk l (ext p c) = (r, ext p' c)"
  by (auto simp: parse_first_line_def res_defs ext_def split: option.splits sum.splits prod.splits)

lemma parse_first_ext:
  assumes "parse_first junk p = (r, p')" "hp_state p = FirstLine"
  shows "hp_buf p' = hp_buf p \<and> hp_ok p' \<and>
    (if r = Inr () \<and> hp_state p' = FirstLine then p' = p
     else parse_first junk (ext p c) = (r, ext p' c))"
proof (cases "find_crlf (hp_buf p) 0")
  case (Inl e)
  with find_crlf_append(2) [OF _ Inl] assms show ?thesis by (auto simp: parse_first_def hp_ok_def)
next
  case (Inr found)
  show ?thesis
  proof (cases found)
    case None
    with Inr assms show ?thesis by (auto simp: parse_first_def hp_ok_def)
  next
    case (Some k)
    have k: "k + 1 < length (hp_buf p)" using find_crlf_Some Inr Some by blast
    have f: "find_crlf (hp_buf p @ c) 0 = Inr (Some k)" using find_crlf_append(1) Inr Some by blast
    obtain r1 p1 where l: "parse_first_line junk (take k (hp_buf p)) p = (r1, p1)"
      by (cases "parse_first_line junk (take k (hp_buf p)) p")
    have "take k (hp_buf p @ c) = take k (hp_buf p)" using k by simp
    with f l Inr Some assms k parse_first_line_ext [OF l, of c] parse_first_line_frame [OF l]
    show ?thesis
      by (cases r1) (auto simp: parse_first_def res_defs hp_ok_def ext_def)
  qed
qed

lemma parse_loop_unfold:
  "parse_loop junk p = (case parse_buf junk p of (Inl e, p') \<Rightarrow> (Inl e, p')
     | (Inr b, p') \<Rightarrow> if b then parse_loop junk p' else (Inr (), p'))"
  by (subst parse_loop.simps) (simp split: prod.splits sum.splits)

lemma parse_buf_ext:
  assumes "parse_buf junk p = (r, p')" "hp_ok p"
  shows "hp_buf p' = hp_buf p \<and> hp_ok p' \<and>
    (r \<noteq> Inr False \<and> hp_state p' \<noteq> Complete \<longrightarrow> parse_buf junk (ext p c) = (r, ext p' c)) \<and>
    (r = Inr False \<longrightarrow> hp_state p' = hp_state p \<and>
       (hp_state p \<noteq> Complete \<longrightarrow> parse_buf junk (ext p c) = parse_buf junk (ext p' c)))"
proof (cases "hp_state p")
  case FirstLine
  obtain r1 p1 where f: "parse_first junk p = (r1, p1)" by (cases "parse_first junk p")
  note e = parse_first_ext [OF f FirstLine, of c]
  show ?thesis
  proof (cases r1)
    case (Inl a)
    with assms f e FirstLine show ?thesis by (auto simp: parse_buf_def)
  next
    case (Inr u)
    with assms f e FirstLine parse_first_rank [of junk p p1] show ?thesis
      by (cases "hp_state p1 = FirstLine") (auto simp: parse_buf_def)
  qed
next
  case Fields
  obtain r1 p1 where f: "parse_fields p = (r1, p1)" by (cases "parse_fields p")
  have "hp_from p \<le> length (hp_buf p)" using assms Fields by (simp add: hp_ok_def)
  note e = parse_fields_ext [OF this Fields f, of c]
  show ?thesis
  proof (cases r1)
    case (Inl a)
    with assms f e Fields show ?thesis by (auto simp: parse_buf_def hp_ok_def)
  next
    case (Inr u)
    with assms f e Fields parse_fields_state [OF f] show ?thesis
      by (cases "hp_state p1 = Fields") (auto simp: parse_buf_def hp_ok_def)
  qed
next
  case Body
  with assms show ?thesis
    by (auto simp: parse_buf_def parse_body_def Let_def hp_ok_def split: if_splits)
next
  case Complete
  with assms show ?thesis by (auto simp: parse_buf_def)
qed

lemma parse_loop_stop: "parse_buf junk p = (Inr False, p') \<Longrightarrow> parse_loop junk p = (Inr (), p')"
  by (subst parse_loop_unfold) simp

lemma parse_loop_again: "parse_buf junk p = (Inr True, p') \<Longrightarrow> parse_loop junk p = parse_loop junk p'"
  by (subst parse_loop_unfold) simp

lemma parse_loop_error: "parse_buf junk p = (Inl e, p') \<Longrightarrow> parse_loop junk p = (Inl e, p')"
  by (subst parse_loop_unfold) simp

lemma parse_loop_Complete: "hp_state p = Complete \<Longrightarrow> parse_loop junk p = (Inr (), p)"
  by (rule parse_loop_stop) (simp add: parse_buf_def)

lemma parse_loop_Body: "hp_state p = Body \<Longrightarrow> parse_loop junk p = (Inr (), parse_body p)"
proof -
  assume b: "hp_state p = Body"
  show ?thesis
  proof (cases "hp_state (parse_body p) = Body")
    case True
    with b show ?thesis by (intro parse_loop_stop) (simp add: parse_buf_def)
  next
    case False
    then have "hp_state (parse_body p) = Complete"
      using b by (auto simp: parse_body_def Let_def split: if_splits)
    with b False show ?thesis
      using parse_loop_again [of junk p "parse_body p"] parse_loop_Complete
      by (simp add: parse_buf_def)
  qed
qed

lemma parse_buf_error: "parse_buf junk p = (Inl e, p') \<Longrightarrow> hp_state p' \<noteq> Complete"
  using parse_fields_state [of p] parse_first_line_frame
  by (cases "hp_state p")
    (auto simp: parse_buf_def parse_first_def sthen_run split: prod.splits sum.splits option.splits)

lemma parse_loop_ext:
  assumes "parse_loop junk p = (r, p')" "hp_ok p"
  shows "hp_buf p' = hp_buf p \<and> hp_ok p' \<and>
    (r \<noteq> Inr () \<longrightarrow> parse_loop junk (ext p c) = (r, ext p' c)) \<and>
    (r = Inr () \<and> hp_state p' \<noteq> Complete \<longrightarrow> parse_loop junk (ext p c) = parse_loop junk (ext p' c))"
  using assms
proof (induction junk p arbitrary: r p' rule: parse_loop.induct)
  case (1 junk p)
  obtain r1 p1 where b: "parse_buf junk p = (r1, p1)" by (cases "parse_buf junk p")
  note e = parse_buf_ext [OF b 1(3), of c]
  have unf: "parse_loop junk p = (case r1 of Inl e \<Rightarrow> (Inl e, p1) | Inr b \<Rightarrow> if b then parse_loop junk p1 else (Inr (), p1))"
    by (subst parse_loop_unfold) (simp add: b)
  consider (err) er where "r1 = Inl er" | (again) "r1 = Inr True" | (stop) "r1 = Inr False"
    by (cases r1) auto
  then show ?case
  proof cases
    case err
    then have "hp_state p1 \<noteq> Complete" using parse_buf_error b by simp
    with e err have "parse_buf junk (ext p c) = (Inl er, ext p1 c)" by simp
    then have "parse_loop junk (ext p c) = (Inl er, ext p1 c)" by (subst parse_loop_unfold) simp
    with err unf 1(2) e show ?thesis by auto
  next
    case again
    show ?thesis
    proof (cases "hp_state p1 = Complete")
      case True
      then have "parse_loop junk p1 = (Inr (), p1)" by (subst parse_loop_unfold) (simp add: parse_buf_def)
      with unf again 1(2) e True show ?thesis by auto
    next
      case False
      with e again have "parse_buf junk (ext p c) = (Inr True, ext p1 c)" by simp
      then have "parse_loop junk (ext p c) = parse_loop junk (ext p1 c)"
        by (subst parse_loop_unfold) simp
      with 1(1) [OF b [symmetric] again, of r p'] again unf 1(2) e show ?thesis by auto
    qed
  next
    case stop
    have "parse_loop junk (ext p c) = parse_loop junk (ext p1 c)" if "hp_state p \<noteq> Complete"
    proof -
      from e stop that have "parse_buf junk (ext p c) = parse_buf junk (ext p1 c)" by simp
      then show ?thesis by (simp add: parse_loop_unfold [of junk "ext p c"] parse_loop_unfold [of junk "ext p1 c"])
    qed
    with parse_loop_stop b stop 1(2) e show ?thesis by auto
  qed
qed

lemma parse_body_ext:
  assumes "hp_state p = Body" "hp_state (parse_body p) = Complete" "hp_from p \<le> length (hp_buf p)" "c \<noteq> []"
  shows "hp_state (parse_body (ext p c)) \<noteq> Complete \<or>
    hp_from (parse_body (ext p c)) \<noteq> length (hp_buf (parse_body (ext p c)))"
proof -
  have "length (hp_buf p) + length c - hp_from p \<noteq> length (hp_buf p) - hp_from p"
    "hp_from p \<noteq> length (hp_buf p) + length c"
    using assms(3,4) by (cases c; simp)+
  then show ?thesis
    using assms(1-3) by (auto simp: parse_body_def Let_def split: if_splits)
qed

lemma parse_loop_complete_ext:
  assumes "parse_loop junk p = (Inr (), p')" "hp_state p' = Complete" "hp_ok p" "c \<noteq> []"
    "parse_loop junk (ext p c) = (r, q)" "hp_state p \<noteq> Complete"
  shows "hp_state q \<noteq> Complete \<or> hp_from q \<noteq> length (hp_buf q)"
  using assms
proof (induction junk p arbitrary: p' r q rule: parse_loop.induct)
  case (1 junk p)
  show ?case
  proof (cases "hp_state p = Body")
    case True
    with 1 have "p' = parse_body p" "q = parse_body (ext p c)" by (simp_all add: parse_loop_Body)
    with True 1(3,4,5) parse_body_ext show ?thesis by (simp add: hp_ok_def)
  next
    case False
    obtain r1 p1 where b: "parse_buf junk p = (r1, p1)" by (cases "parse_buf junk p")
    note e = parse_buf_ext [OF b 1(4), of c]
    have r1: "r1 = Inr True"
    proof (cases r1)
      case (Inl x)
      with b parse_loop_error 1(2) show ?thesis by fastforce
    next
      case (Inr y)
      with b parse_loop_stop 1(2,3,7) e show ?thesis by (cases y) fastforce+
    qed
    moreover have nc: "hp_state p1 \<noteq> Complete"
      using b False 1(7) parse_fields_state [of p] parse_first_rank [of junk p] r1
      by (cases "hp_state p") (auto simp: parse_buf_def split: prod.splits sum.splits)
    ultimately have "parse_buf junk (ext p c) = (Inr True, ext p1 c)" using e by simp
    then have "parse_loop junk (ext p1 c) = (r, q)" "parse_loop junk p1 = (Inr (), p')"
      using 1(2,6) parse_loop_again b r1 by simp_all
    with 1(1) [OF b [symmetric] r1] 1(3,5) e nc show ?thesis by blast
  qed
qed

fun feed :: "int \<Rightarrow> string list \<Rightarrow> (http_parser, unit) sm" where
  "feed junk [] p = (Inr (), p)"
| "feed junk (c # cs) p = (case OnData junk c p of (Inl e, p') \<Rightarrow> (Inl e, p') | (Inr _, p') \<Rightarrow> feed junk cs p')"

lemma OnData_append:
  assumes "hp_ok p" "OnData junk (a @ b) p = (Inr (), q)" "hp_state q = Complete" "hp_from q = length (hp_buf q)"
    "b \<noteq> []"
  shows "\<exists>p'. OnData junk a p = (Inr (), p') \<and> hp_ok p' \<and> OnData junk b p' = (Inr (), q)"
proof -
  have len: "length (hp_buf p) + length a + length b \<le> hp_capacity"
    using assms(2) by (auto simp: OnData_def split: if_splits)
  obtain r p' where l: "parse_loop junk (ext p a) = (r, p')" by (cases "parse_loop junk (ext p a)")
  have ok: "hp_ok (ext p a)" using assms(1) by (auto simp: hp_ok_def)
  have ab: "parse_loop junk (ext (ext p a) b) = (Inr (), q)"
    using assms(2) len by (simp add: OnData_def ext_def)
  note e = parse_loop_ext [OF l ok, of b]
  have r: "r = Inr ()" using e ab by (cases r) auto
  have "hp_state p' \<noteq> Complete"
  proof
    assume c: "hp_state p' = Complete"
    show False
    proof (cases "hp_state p = Complete")
      case True
      then have "q = ext (ext p a) b" using ab parse_loop_Complete [of "ext (ext p a) b" junk] by simp
      with True assms(1,4,5) show False by (auto simp: hp_ok_def)
    next
      case False
      with parse_loop_complete_ext [OF _ c ok assms(5) ab] l r assms(3,4) show False by simp
    qed
  qed
  with e r ab have "parse_loop junk (ext p' b) = (Inr (), q)" by simp
  moreover have "OnData junk a p = (Inr (), p')" using l r len by (simp add: OnData_def ext_def)
  ultimately show ?thesis
    using e len by (intro exI [of _ p']) (simp add: OnData_def ext_def)
qed

lemma OnData_nil_complete: "hp_state q = Complete \<Longrightarrow> length (hp_buf q) \<le> hp_capacity \<Longrightarrow> OnData junk [] q = (Inr (), q)"
  by (simp add: OnData_def parse_loop_unfold [of junk q] parse_buf_def)

lemma feed_nils: "hp_state q = Complete \<Longrightarrow> length (hp_buf q) \<le> hp_capacity \<Longrightarrow> concat cs = [] \<Longrightarrow> feed junk cs q = (Inr (), q)"
  by (induction cs) (auto simp: OnData_nil_complete)

lemma OnData_buf: "OnData junk c p = (Inr (), q) \<Longrightarrow> hp_ok p \<Longrightarrow> hp_buf q = hp_buf p @ c \<and> length (hp_buf q) \<le> hp_capacity"
  using parse_loop_ext [of junk "ext p c" "Inr ()" q "[]"]
  by (auto simp: OnData_def ext_def hp_ok_def split: if_splits)

lemma feed_from:
  assumes "cs \<noteq> []" "hp_ok p" "OnData junk (concat cs) p = (Inr (), q)" "hp_state q = Complete"
    "hp_from q = length (hp_buf q)"
  shows "feed junk cs p = (Inr (), q)"
  using assms
proof (induction cs arbitrary: p rule: list_nonempty_induct)
  case (single c)
  then show ?case by simp
next
  case (cons c cs)
  show ?case
  proof (cases "concat cs = []")
    case True
    then have "OnData junk c p = (Inr (), q)" using cons.prems(2) by (simp del: concat_eq_Nil_conv)
    moreover have "feed junk cs q = (Inr (), q)"
      using OnData_buf [OF calculation cons.prems(1)] cons.prems(3) True by (intro feed_nils) auto
    ultimately show ?thesis by simp
  next
    case False
    with cons obtain p' where "OnData junk c p = (Inr (), p')" "hp_ok p'" "OnData junk (concat cs) p' = (Inr (), q)"
      using OnData_append [of p junk c "concat cs" q] by auto
    with cons show ?thesis by simp
  qed
qed

section \<open>Well-formed messages\<close>

text \<open>
  The shape of the messages both ends print: a first line, fields, an empty line, a body. What
  the first line and the fields contribute to the packet is computed line by line.
\<close>

definition crlf :: string where "crlf = [CR, LF]"

definition fields_text :: "string list \<Rightarrow> string" where
  "fields_text fs = concat (map (\<lambda>f. f @ crlf) fs)"

definition message_text :: "string \<Rightarrow> string list \<Rightarrow> string \<Rightarrow> string" where
  "message_text line fs body = line @ crlf @ fields_text fs @ crlf @ body"

definition first_line_packet :: "int \<Rightarrow> string \<Rightarrow> http_packet option" where
  "first_line_packet junk line =
     (case rxStatusLine (c_str line) of
        Some code \<Rightarrow> Some (packet_init\<lparr>pk_statusCode := ucast (strtoul_digits code)\<rparr>)
      | None \<Rightarrow>
          (case rxRequestLine (c_str line) of
             Some (verb, url) \<Rightarrow>
               (case uri_of_string junk url of
                  Inr u \<Rightarrow> Some (packet_init\<lparr>pk_method := verb, pk_url := u\<rparr>) | Inl _ \<Rightarrow> None)
           | None \<Rightarrow> None))"

definition field_effect :: "string \<Rightarrow> http_packet \<Rightarrow> http_packet option" where
  "field_effect f pk =
     (if has_substring ''Content-Length'' f
      then map_option (\<lambda>d. pk\<lparr>pk_contentLength := strtoul_digits d\<rparr>) (rxContentLength (c_str f))
      else Some pk)"

fun fields_effect :: "string list \<Rightarrow> http_packet \<Rightarrow> http_packet option" where
  "fields_effect [] pk = Some pk"
| "fields_effect (f # fs) pk = Option.bind (field_effect f pk) (fields_effect fs)"

lemma find_crlf_at:
  assumes "CR \<notin> set l"
  shows "find_crlf (pre @ l @ crlf @ rest) (length pre) = Inr (Some (length pre + length l))"
proof -
  have "find_char CR (l @ CR # LF # rest) = Some (length l)" using assms by (rule find_char_split)
  then show ?thesis by (simp add: find_crlf_def crlf_def nth_append)
qed

lemma parse_next_field_line:
  assumes "CR \<notin> set f" "f \<noteq> []" "hp_buf p = pre @ f @ crlf @ rest" "hp_from p = length pre"
    "field_effect f (hp_packet p) = Some pk"
  shows "parse_next_field p = (Inr True, p\<lparr>hp_packet := pk, hp_from := length pre + length f + 2\<rparr>)"
  using assms find_crlf_at [OF assms(1), of pre rest]
  by (auto simp: parse_next_field_def field_effect_def Let_def split: option.splits if_splits)

lemma parse_fields_lines:
  assumes "\<forall>f \<in> set fs. CR \<notin> set f \<and> f \<noteq> []" "hp_buf p = pre @ fields_text fs @ crlf @ body"
    "hp_from p = length pre" "fields_effect fs (hp_packet p) = Some pk" "hp_state p = Fields"
  shows "parse_fields p = (Inr (), p\<lparr>hp_packet := pk, hp_state := Body,
           hp_from := length pre + length (fields_text fs) + 2\<rparr>)"
  using assms
proof (induction fs arbitrary: p pre)
  case Nil
  then have "parse_next_field p = (Inr False, p\<lparr>hp_state := Body, hp_from := length pre + 2\<rparr>)"
    using find_crlf_at [of "[]" pre body] by (simp add: parse_next_field_def fields_text_def)
  with Nil show ?case by (subst parse_fields.simps) (simp add: fields_text_def)
next
  case (Cons f fs)
  obtain pk1 where pk1: "field_effect f (hp_packet p) = Some pk1" "fields_effect fs pk1 = Some pk"
    using Cons.prems(4) by (auto split: Option.bind_splits)
  let ?p = "p\<lparr>hp_packet := pk1, hp_from := length pre + length f + 2\<rparr>"
  have "parse_next_field p = (Inr True, ?p)"
    using Cons.prems pk1 by (intro parse_next_field_line) (auto simp: fields_text_def)
  then have "parse_fields p = parse_fields ?p" by (subst parse_fields.simps) simp
  also have "\<dots> = (Inr (), ?p\<lparr>hp_packet := pk, hp_state := Body,
      hp_from := length (pre @ f @ crlf) + length (fields_text fs) + 2\<rparr>)"
    using Cons.prems pk1 by (intro Cons.IH) (auto simp: fields_text_def crlf_def)
  finally show ?case by (simp add: fields_text_def crlf_def)
qed

lemma parse_first_line_packet:
  "first_line_packet junk line = Some pk \<Longrightarrow> hp_packet p = packet_init \<Longrightarrow>
   parse_first_line junk line p = (Inr (), p\<lparr>hp_packet := pk\<rparr>)"
  by (auto simp: first_line_packet_def parse_first_line_def res_defs
      split: option.splits prod.splits sum.splits)

definition parsed :: "string \<Rightarrow> http_packet \<Rightarrow> string \<Rightarrow> http_parser" where
  "parsed msg pk body = \<lparr>hp_state = Complete, hp_buf = msg, hp_from = length msg, hp_packet = pk\<lparr>pk_body := body\<rparr>\<rparr>"

lemma fields_effect_body: "fields_effect fs pk = Some pk' \<Longrightarrow> pk_body pk' = pk_body pk"
  by (induction fs arbitrary: pk) (auto simp: field_effect_def split: Option.bind_splits if_splits)

lemma first_line_packet_body: "first_line_packet junk line = Some pk \<Longrightarrow> pk_body pk = []"
  by (auto simp: first_line_packet_def packet_init_def split: option.splits prod.splits sum.splits)

lemma OnData_message:
  assumes line: "CR \<notin> set line" "first_line_packet junk line = Some pk1"
    and fs: "\<forall>f \<in> set fs. CR \<notin> set f \<and> f \<noteq> []" "fields_effect fs pk1 = Some pk2"
    and body: "unat (pk_contentLength pk2) = length body"
    and cap: "length (message_text line fs body) \<le> hp_capacity"
  shows "OnData junk (message_text line fs body) hp_init = (Inr (), parsed (message_text line fs body) pk2 body)"
proof -
  let ?m = "message_text line fs body"
  let ?p0 = "hp_init\<lparr>hp_buf := ?m\<rparr>"
  let ?p1 = "?p0\<lparr>hp_packet := pk1, hp_state := Fields, hp_from := length line + 2\<rparr>"
  let ?p2 = "?p1\<lparr>hp_packet := pk2, hp_state := Body, hp_from := length (line @ crlf) + length (fields_text fs) + 2\<rparr>"
  have "find_crlf ?m 0 = Inr (Some (length line))"
    using find_crlf_at [OF line(1), of "[]"] by (simp add: message_text_def)
  moreover have "parse_first_line junk line ?p0 = (Inr (), ?p0\<lparr>hp_packet := pk1\<rparr>)"
    using line(2) by (rule parse_first_line_packet) (simp add: hp_init_def)
  ultimately have "parse_buf junk ?p0 = (Inr True, ?p1)"
    by (simp add: parse_buf_def parse_first_def hp_init_def res_defs message_text_def)
  then have l1: "parse_loop junk ?p0 = parse_loop junk ?p1" by (rule parse_loop_again)
  have "parse_fields ?p1 = (Inr (), ?p2)"
    using fs by (intro parse_fields_lines) (auto simp: message_text_def hp_init_def crlf_def)
  then have "parse_buf junk ?p1 = (Inr True, ?p2)" by (simp add: parse_buf_def)
  then have l2: "parse_loop junk ?p1 = parse_loop junk ?p2" by (rule parse_loop_again)
  have "length (line @ crlf) + length (fields_text fs) + 2 = length (line @ crlf @ fields_text fs @ crlf)"
    by (simp add: crlf_def)
  then have "drop (length (line @ crlf) + length (fields_text fs) + 2) ?m = body"
    unfolding message_text_def by (metis append.assoc append_eq_conv_conj)
  moreover have "length ?m = length (line @ crlf) + length (fields_text fs) + 2 + length body"
    by (simp add: message_text_def crlf_def)
  moreover have "pk_body pk2 = []" using fields_effect_body [OF fs(2)] first_line_packet_body [OF line(2)] by simp
  moreover have "pk_contentLength pk2 = 0 \<longleftrightarrow> body = []" using body by (metis length_0_conv unat_eq_zero)
  ultimately have "parse_body ?p2 = parsed ?m pk2 body"
    using body by (auto simp: parse_body_def Let_def parsed_def hp_init_def)
  then have "parse_loop junk ?p2 = (Inr (), parsed ?m pk2 body)" by (simp add: parse_loop_Body)
  with l1 l2 cap show ?thesis by (simp add: OnData_def hp_init_def)
qed

text \<open>
  C4. A well-formed message of at most 2048 bytes is parsed to the packet its lines describe,
  with its body, however the transport cuts it into pieces: feeding the pieces one after the
  other ends in the state that feeding it at once would give, without an exception.
\<close>

theorem http_parser_any_chunks:
  assumes "CR \<notin> set line" "first_line_packet junk line = Some pk1"
    and "\<forall>f \<in> set fs. CR \<notin> set f \<and> f \<noteq> []" "fields_effect fs pk1 = Some pk2"
    and "unat (pk_contentLength pk2) = length body"
    and "length (message_text line fs body) \<le> hp_capacity"
    and "concat chunks = message_text line fs body"
  shows "feed junk chunks hp_init = (Inr (), parsed (message_text line fs body) pk2 body)"
proof (rule feed_from)
  show "chunks \<noteq> []" using assms(7) by (auto simp: message_text_def crlf_def)
  show "OnData junk (concat chunks) hp_init = (Inr (), parsed (message_text line fs body) pk2 body)"
    unfolding assms(7) using OnData_message [OF assms(1-6)] .
qed (simp_all add: parsed_def hp_ok_def hp_init_def)

theorem http_parser_any_chunks_witness:
  "feed 0 [''HTTP/1.1 20'', ''0 OK'' @ [CR], [LF] @ ''Content-Length: 2'' @ crlf, crlf @ ''{'', ''}''] hp_init
   = (Inr (), parsed (message_text ''HTTP/1.1 200 OK'' [''Content-Length: 2''] ''{}'')
        (packet_init\<lparr>pk_statusCode := 200, pk_contentLength := 2\<rparr>) ''{}'')"
proof (rule http_parser_any_chunks [where ?pk1.0 = "packet_init\<lparr>pk_statusCode := 200\<rparr>"])
  show "CR \<notin> set ''HTTP/1.1 200 OK''" by (simp add: CR_def)
  have "rxStatusLine (c_str ''HTTP/1.1 200 OK'') = Some ''200''" by code_simp
  moreover have "dec_val ''200'' = 200" by (simp add: dec_val_def digit_val_def ord_def)
  ultimately show "first_line_packet 0 ''HTTP/1.1 200 OK'' = Some (packet_init\<lparr>pk_statusCode := 200\<rparr>)"
    by (simp add: first_line_packet_def strtoul_digits_def)
  show "\<forall>f \<in> set [''Content-Length: 2'']. CR \<notin> set f \<and> f \<noteq> []" by (simp add: CR_def)
  have "rxContentLength (c_str ''Content-Length: 2'') = Some ''2''"
    "has_substring ''Content-Length'' ''Content-Length: 2''" by code_simp+
  then show "fields_effect [''Content-Length: 2''] (packet_init\<lparr>pk_statusCode := 200\<rparr>)
      = Some (packet_init\<lparr>pk_statusCode := 200, pk_contentLength := 2\<rparr>)"
    by (simp add: field_effect_def strtoul_digits_def dec_val_def digit_val_def ord_def)
qed (simp_all add: message_text_def fields_text_def crlf_def hp_capacity_def)

end
