(* ===== verification/Log.thy ===== *)
theory Log
  imports Util HttpParser
begin

text \<open>
  client-lite/src/trace/do_log.cpp: the buffer log lines are collected in, the flushing of it to
  the current log file, the rotation of the files and the process-wide logger. The formatted
  timestamp and the expanded message are arguments; what happens to the files is the trace of the
  bytes written and the names in the log directory.
\<close>

section \<open>The buffer\<close>

record buffer_stats =
  numResets :: u32
  numFlushes :: u32
  numWritesSucceeded :: u32
  numWritesFailed :: u32

text \<open>The memory keeps its size; a write outside it sets \<open>lb_fault\<close>.\<close>

record log_buffer =
  lb_mem :: string
  lb_cursor :: nat
  lb_stats :: buffer_stats
  lb_fault :: bool

definition lb_Reset :: "log_buffer \<Rightarrow> log_buffer" where
  "lb_Reset b = b\<lparr>lb_mem := replicate (length (lb_mem b)) NUL, lb_cursor := 0,
     lb_stats := (lb_stats b)\<lparr>numResets := numResets (lb_stats b) + 1\<rparr>\<rparr>"

definition lb_new :: "nat \<Rightarrow> log_buffer" where
  "lb_new bufSize = lb_Reset \<lparr>lb_mem = replicate bufSize NUL, lb_cursor = 0,
     lb_stats = \<lparr>numResets = 0, numFlushes = 0, numWritesSucceeded = 0, numWritesFailed = 0\<rparr>, lb_fault = False\<rparr>"

definition BytesBuffered :: "log_buffer \<Rightarrow> nat" where "BytesBuffered b = lb_cursor b"
definition BytesFree :: "log_buffer \<Rightarrow> nat" where "BytesFree b = length (lb_mem b) - lb_cursor b"
definition BytesFreePercentage :: "log_buffer \<Rightarrow> nat" where
  "BytesFreePercentage b = BytesFree b * 100 div length (lb_mem b)"

definition overwrite :: "nat \<Rightarrow> string \<Rightarrow> string \<Rightarrow> string" where
  "overwrite pos s mem = take pos mem @ s @ drop (pos + length s) mem"

definition lb_store :: "nat \<Rightarrow> string \<Rightarrow> log_buffer \<Rightarrow> log_buffer" where
  "lb_store pos s b =
     (if s = [] then b
      else if length (lb_mem b) < pos + length s then b\<lparr>lb_fault := True\<rparr>
      else b\<lparr>lb_mem := overwrite pos s (lb_mem b)\<rparr>)"

text \<open>
  \<open>StringPrintf\<close> at a position of the buffer: the room is a \<open>size_t\<close>, the number of characters
  is reported when they and the NUL fit, and what fits is written in any case.
\<close>

definition print_at :: "nat \<Rightarrow> u64 \<Rightarrow> string \<Rightarrow> log_buffer \<Rightarrow> (nat \<times> hresult) \<times> log_buffer" where
  "print_at pos cap txt b =
     (let n = unat cap
      in (if length txt < n then (length txt, S_OK) else (0, STRSAFE_E_INSUFFICIENT_BUFFER),
          lb_store pos (if n = 0 then [] else take (n - 1) txt @ [NUL]) b))"

function show_HEX :: "nat \<Rightarrow> string" where
  "show_HEX n = (if n < 16 then [hex_digit n] else show_HEX (n div 16) @ [hex_digit (n mod 16)])"
  by pat_completeness auto
termination by (relation "measure id") auto

declare show_HEX.simps [simp del]

text \<open>The text between the timestamp and the message; \<open>None\<close> when nothing is printed.\<close>

definition log_head :: "string option \<Rightarrow> hresult \<Rightarrow> string option" where
  "log_head pszFunc hrIn =
     (if hrIn \<noteq> - 1
      then Some ((case pszFunc of Some f \<Rightarrow> ''{'' @ f @ ''} '' | None \<Rightarrow> []) @ ''(hr:'' @ show_HEX (unat hrIn) @ '') '')
      else map_option (\<lambda>f. ''{'' @ f @ ''} '') pszFunc)"

text \<open>
  The state between the parts of a line: the characters counted so far, those of the last part,
  the result and the buffer. A part is printed after what has been counted.
\<close>

type_synonym lb_parts = "nat \<times> nat \<times> hresult \<times> log_buffer"

definition lb_part :: "nat \<Rightarrow> u64 \<Rightarrow> string \<Rightarrow> lb_parts \<Rightarrow> lb_parts" where
  "lb_part start cchBuffer txt parts =
     (let (cchTotalWritten, cchWritten, hr, b) = parts
      in if SUCCEEDED hr
         then (let total = cchTotalWritten + cchWritten;
                   ((w, hr'), b') = print_at (start + total) (cchBuffer - of_nat total) txt b
               in (total, w, hr', b'))
         else parts)"

text \<open>Without a text for the head the last count stays, and is added again.\<close>

definition lb_head :: "nat \<Rightarrow> u64 \<Rightarrow> string option \<Rightarrow> lb_parts \<Rightarrow> lb_parts" where
  "lb_head start cchBuffer head parts =
     (case head of
        Some h \<Rightarrow> lb_part start cchBuffer h parts
      | None \<Rightarrow>
          (let (cchTotalWritten, cchWritten, hr, b) = parts
           in if SUCCEEDED hr then (cchTotalWritten + cchWritten, cchWritten, hr, b) else parts))"

definition lb_end :: "nat \<Rightarrow> u64 \<Rightarrow> lb_parts \<Rightarrow> nat \<times> hresult \<times> log_buffer" where
  "lb_end start cchBuffer parts =
     (let (cchTotalWritten, cchWritten, hr, b) = parts
      in if SUCCEEDED hr
         then (let total = cchTotalWritten + cchWritten
               in if cchBuffer - of_nat total > 1
                  then (total + 1, hr, lb_store (start + total) [LF, NUL] b)
                  else (total, STRSAFE_E_INSUFFICIENT_BUFFER, b))
         else (cchTotalWritten, hr, b))"

definition lb_Write :: "string \<Rightarrow> string option \<Rightarrow> hresult \<Rightarrow> string \<Rightarrow> log_buffer \<Rightarrow> hresult \<times> log_buffer" where
  "lb_Write prefix pszFunc hrIn message b =
     (let start = lb_cursor b;
          cchBuffer = of_nat (BytesFree b);
          (cchTotalWritten, hr, b) =
            lb_end start cchBuffer
              (lb_part start cchBuffer message
                (lb_head start cchBuffer (log_head pszFunc hrIn)
                  (lb_part start cchBuffer prefix (0, 0, S_OK, b))))
      in if SUCCEEDED hr
         then (hr, b\<lparr>lb_cursor := lb_cursor b + cchTotalWritten,
                     lb_stats := (lb_stats b)\<lparr>numWritesSucceeded := numWritesSucceeded (lb_stats b) + 1\<rparr>\<rparr>)
         else (hr, b\<lparr>lb_stats := (lb_stats b)\<lparr>numWritesFailed := numWritesFailed (lb_stats b) + 1\<rparr>\<rparr>))"

section \<open>The files\<close>

definition g_logFileNamePrefix :: string where "g_logFileNamePrefix = ''do-agent.''"
definition g_maxLogFileSizeBytes :: nat where "g_maxLogFileSizeBytes = 256 * 1024"
definition g_maxLogFiles :: nat where "g_maxLogFiles = 3"
definition g_logBufferSizeBytes :: nat where "g_logBufferSizeBytes = 64 * 1024"

datatype Level = LvError | LvWarning | LvInfo | LvVerbose

fun level_value :: "Level \<Rightarrow> nat" where
  "level_value LvError = 0" | "level_value LvWarning = 1" | "level_value LvInfo = 2" | "level_value LvVerbose = 3"

fun LevelToString :: "Level \<Rightarrow> string" where
  "LevelToString LvError = ''error''"
| "LevelToString LvWarning = ''warn ''"
| "LevelToString LvInfo = ''info ''"
| "LevelToString LvVerbose = ''     ''"

text \<open>A name in the log directory, and whether it is a regular file.\<close>

type_synonym log_dir = "(string \<times> bool) list"

record logger_stats =
  numFilesDeleted :: u32
  numFileCreationAttempts :: u32
  numFilesCreated :: u32
  numFlushThreadLoops :: u64
  numFlushWrites :: u64
  numLogWritesFailed :: u32

text \<open>
  The logger. Of the stream: the name of the open file, the position \<open>tellp\<close> gives and whether
  an earlier output failed. \<open>lg_sink\<close> lists the outputs that reached a file, in order.
\<close>

record logger =
  lg_logDir :: string
  lg_maxLogLevel :: Level
  lg_buffer :: log_buffer
  lg_file :: "string option"
  lg_pos :: nat
  lg_bad :: bool
  lg_files :: log_dir
  lg_sink :: "(string \<times> string) list"
  lg_stats :: logger_stats

text \<open>What the system answers: the listing and the removals, opening, writing, and the clock.\<close>

record log_env =
  le_scandir :: bool
  le_removes :: "string \<Rightarrow> bool"
  le_opens :: "string \<Rightarrow> bool"
  le_writes :: bool
  le_time :: string

definition lg_Flush :: "log_env \<Rightarrow> logger \<Rightarrow> logger" where
  "lg_Flush e l =
     (case lg_file l of
        None \<Rightarrow> l
      | Some f \<Rightarrow>
          if BytesBuffered (lg_buffer l) = 0 then l
          else let b = lg_buffer l;
                   data = take (lb_cursor b) (lb_mem b);
                   ok = \<not> lg_bad l \<and> le_writes e;
                   b' = lb_Reset b
               in l\<lparr>lg_buffer := b'\<lparr>lb_stats := (lb_stats b')\<lparr>numFlushes := numFlushes (lb_stats b') + 1\<rparr>\<rparr>,
                    lg_sink := (if ok then lg_sink l @ [(f, data)] else lg_sink l),
                    lg_pos := (if ok then lg_pos l + length data else lg_pos l),
                    lg_bad := \<not> ok\<rparr>)"

definition LogFilesFilter :: "string \<times> bool \<Rightarrow> bool" where
  "LogFilesFilter d \<longleftrightarrow> snd d \<and> has_substring g_logFileNamePrefix (fst d)"

text \<open>\<open>alphasort\<close> compares as \<open>strcmp\<close> does in the C locale.\<close>

fun insert_name :: "string \<Rightarrow> string list \<Rightarrow> string list" where
  "insert_name x [] = [x]"
| "insert_name x (y # ys) = (if str_less y x then y # insert_name x ys else x # y # ys)"

definition alphasort :: "string list \<Rightarrow> string list" where
  "alphasort xs = foldr insert_name xs []"

definition log_file_path :: "logger \<Rightarrow> string \<Rightarrow> string" where
  "log_file_path l name = lg_logDir l @ ''/'' @ name"

definition remove_older :: "log_env \<Rightarrow> logger \<Rightarrow> string \<Rightarrow> logger" where
  "remove_older e l name =
     (if SUCCEEDED (snd (StringPrintf 512 (log_file_path l name)))
      then l\<lparr>lg_files := (if le_removes e name then filter (\<lambda>d. fst d \<noteq> name) (lg_files l) else lg_files l),
             lg_stats := (lg_stats l)\<lparr>numFilesDeleted := numFilesDeleted (lg_stats l) + 1\<rparr>\<rparr>
      else l)"

definition ClearOlderLogFilesIfNeeded :: "log_env \<Rightarrow> logger \<Rightarrow> logger" where
  "ClearOlderLogFilesIfNeeded e l =
     (if \<not> le_scandir e then l
      else let logfiles = alphasort (map fst (filter LogFilesFilter (lg_files l)))
           in foldl (remove_older e) l (take (length logfiles - g_maxLogFiles) logfiles))"

definition CreateLogFile :: "log_env \<Rightarrow> logger \<Rightarrow> logger" where
  "CreateLogFile e l =
     (let l = l\<lparr>lg_stats := (lg_stats l)\<lparr>numFileCreationAttempts := numFileCreationAttempts (lg_stats l) + 1\<rparr>\<rparr>;
          name = g_logFileNamePrefix @ le_time e @ ''.log''
      in if FAILED (snd (StringPrintf 512 (log_file_path l name))) then l
         else if le_opens e name
         then l\<lparr>lg_file := Some name, lg_pos := 0, lg_bad := False,
                lg_files := (if name \<in> fst ` set (lg_files l) then lg_files l else lg_files l @ [(name, True)]),
                lg_stats := (lg_stats l)\<lparr>numFilesCreated := numFilesCreated (lg_stats l) + 1\<rparr>\<rparr>
         else l\<lparr>lg_bad := True\<rparr>)"

definition RotateLogFilesIfNeeded :: "log_env \<Rightarrow> logger \<Rightarrow> logger" where
  "RotateLogFilesIfNeeded e l =
     (let fLogWasOpen = lg_file l \<noteq> None;
          l1 = (if fLogWasOpen \<and> \<not> lg_bad l \<and> g_maxLogFileSizeBytes \<le> lg_pos l then l\<lparr>lg_file := None\<rparr> else l);
          l2 = ClearOlderLogFilesIfNeeded e l1
      in if fLogWasOpen \<and> lg_file l2 = None then CreateLogFile e l2 else l2)"

section \<open>The logger\<close>

definition lg_new :: "log_env \<Rightarrow> string \<Rightarrow> Level \<Rightarrow> log_dir \<Rightarrow> logger" where
  "lg_new e logDir maxLogLevel files =
     CreateLogFile e (RotateLogFilesIfNeeded e
       \<lparr>lg_logDir = logDir, lg_maxLogLevel = maxLogLevel, lg_buffer = lb_new g_logBufferSizeBytes, lg_file = None, lg_pos = 0,
        lg_bad = False, lg_files = files, lg_sink = [],
        lg_stats = \<lparr>numFilesDeleted = 0, numFileCreationAttempts = 0, numFilesCreated = 0, numFlushThreadLoops = 0,
                     numFlushWrites = 0, numLogWritesFailed = 0\<rparr>\<rparr>)"

text \<open>One message: its level, the text before it, the function, the code and the expanded format.\<close>

record log_line =
  ll_level :: Level
  ll_prefix :: string
  ll_func :: "string option"
  ll_hr :: hresult
  ll_message :: string

definition lg_buffer_write :: "log_line \<Rightarrow> logger \<Rightarrow> hresult \<times> logger" where
  "lg_buffer_write m l =
     (let (hr, b) = lb_Write (ll_prefix m) (ll_func m) (ll_hr m) (ll_message m) (lg_buffer l) in (hr, l\<lparr>lg_buffer := b\<rparr>))"

text \<open>The flush does not fail: what it may throw is an exception of the allocator only.\<close>

definition WriteV :: "log_env \<Rightarrow> log_line \<Rightarrow> logger \<Rightarrow> logger" where
  "WriteV e m l =
     (if level_value (ll_level m) > level_value (lg_maxLogLevel l) then l
      else let (hr, l1) = lg_buffer_write m l;
               (hr, l2) =
                 (if hr = STRSAFE_E_INSUFFICIENT_BUFFER
                  then (let (hr', l') = lg_buffer_write m (RotateLogFilesIfNeeded e (lg_Flush e l1))
                        in (hr', l'\<lparr>lg_stats := (lg_stats l')\<lparr>numFlushWrites := numFlushWrites (lg_stats l') + 1\<rparr>\<rparr>))
                  else (hr, l1))
           in if FAILED hr then l2\<lparr>lg_stats := (lg_stats l2)\<lparr>numLogWritesFailed := numLogWritesFailed (lg_stats l2) + 1\<rparr>\<rparr> else l2)"

text \<open>One pass of the flush thread, every three minutes.\<close>

definition FlushThreadProc :: "log_env \<Rightarrow> logger \<Rightarrow> logger" where
  "FlushThreadProc e l =
     (let l' = RotateLogFilesIfNeeded e (lg_Flush e l)
      in l'\<lparr>lg_stats := (lg_stats l')\<lparr>numFlushThreadLoops := numFlushThreadLoops (lg_stats l') + 1\<rparr>\<rparr>)"

text \<open>The destructor logs its statistics and flushes what is left.\<close>

definition lg_destroy :: "log_env \<Rightarrow> log_line \<Rightarrow> logger \<Rightarrow> logger" where
  "lg_destroy e stats l =
     (let l1 = WriteV e stats l in if lg_file l1 \<noteq> None then (lg_Flush e l1)\<lparr>lg_file := None\<rparr> else l1)"

section \<open>The process\<close>

text \<open>The text of a runtime failure, and the line it is logged as.\<close>

record failure_info =
  fi_hr :: hresult
  fi_pszFile :: string
  fi_uLineNumber :: nat
  fi_pszFunction :: "string option"
  fi_pszCode :: "string option"
  fi_pszMessage :: "string option"

definition failure_text :: "failure_info \<Rightarrow> string" where
  "failure_text failure =
     (let place = ''['' @ fi_pszFile failure @ '', '' @ show_nat (fi_uLineNumber failure) @ '']''
      in case fi_pszMessage failure of
           Some msg \<Rightarrow> msg @ '' '' @ place
         | None \<Rightarrow> (case fi_pszCode failure of Some code \<Rightarrow> code @ '' '' @ place | None \<Rightarrow> place))"

definition log_write_result :: "log_env \<Rightarrow> log_line \<Rightarrow> logger option \<Rightarrow> logger option" where
  "log_write_result e m g = map_option (WriteV e m) g"

definition log_write :: "log_env \<Rightarrow> log_line \<Rightarrow> logger option \<Rightarrow> logger option" where
  "log_write e m g = log_write_result e (m\<lparr>ll_hr := - 1\<rparr>) g"

definition LogRuntimeFailure :: "log_env \<Rightarrow> string \<Rightarrow> failure_info \<Rightarrow> logger option \<Rightarrow> logger option" where
  "LogRuntimeFailure e prefix failure g =
     log_write_result e \<lparr>ll_level = LvError, ll_prefix = prefix, ll_func = fi_pszFunction failure, ll_hr = fi_hr failure,
       ll_message = failure_text failure\<rparr> g"

definition log_Init :: "log_env \<Rightarrow> string \<Rightarrow> Level \<Rightarrow> log_dir \<Rightarrow> logger option \<Rightarrow> logger option" where
  "log_Init e logDir maxLogLevel files g =
     (case g of Some l \<Rightarrow> Some l | None \<Rightarrow> Some (lg_new e logDir maxLogLevel files))"

text \<open>Closing deletes the logger; what it wrote remains.\<close>

definition log_Close :: "log_env \<Rightarrow> log_line \<Rightarrow> logger option \<Rightarrow> (string \<times> string) list \<times> logger option" where
  "log_Close e stats g = (case g of None \<Rightarrow> ([], None) | Some l \<Rightarrow> (lg_sink (lg_destroy e stats l), None))"

end
