(* ===== verification/LogProps.thy ===== *)
theory LogProps
  imports Log "HOL-Library.Multiset"
begin

text \<open>
  Properties of the logger: a line is appended whole or not at all and never outside the buffer,
  nothing that was logged is lost, repeated or reordered while the files can be written, and the
  number of files stays bounded.
\<close>

section \<open>Lines in the buffer\<close>

definition text_line :: "log_line \<Rightarrow> string" where
  "text_line m = ll_prefix m @ (case log_head (ll_func m) (ll_hr m) of None \<Rightarrow> [] | Some h \<Rightarrow> h) @ ll_message m @ [LF]"

text \<open>The function name is left out only together with the code of a failure.\<close>

definition named_line :: "log_line \<Rightarrow> bool" where
  "named_line m \<longleftrightarrow> ll_func m \<noteq> None \<or> ll_hr m \<noteq> - 1"

lemma named_head: "named_line m \<Longrightarrow> \<exists>h. log_head (ll_func m) (ll_hr m) = Some h"
  by (auto simp: named_line_def log_head_def)

definition lb_ok :: "log_buffer \<Rightarrow> bool" where
  "lb_ok b \<longleftrightarrow> lb_cursor b \<le> length (lb_mem b) \<and> length (lb_mem b) < 2 ^ 32 \<and> \<not> lb_fault b"

definition buffered :: "log_buffer \<Rightarrow> string" where "buffered b = take (lb_cursor b) (lb_mem b)"

lemma overwrite_facts:
  assumes "pos + length s \<le> length mem"
  shows "length (overwrite pos s mem) = length mem" "take pos (overwrite pos s mem) = take pos mem"
    "take (pos + length s) (overwrite pos s mem) = take pos mem @ s"
  using assms by (cases s; auto simp: overwrite_def min_def)+

lemma unat_room: "n < 2 ^ 32 \<Longrightarrow> unat (of_nat n :: u64) = n"
  by (simp add: unat_of_nat take_bit_nat_eq_self)

lemma print_at_fits:
  assumes "pos + length txt < length (lb_mem b)" "unat cap = length (lb_mem b) - pos"
  obtains mem' where "print_at pos cap txt b = ((length txt, S_OK), b\<lparr>lb_mem := mem'\<rparr>)"
    "length mem' = length (lb_mem b)" "take (pos + length txt) mem' = take pos (lb_mem b) @ txt"
proof -
  let ?mem = "overwrite pos (txt @ [NUL]) (lb_mem b)"
  have f: "pos + length (txt @ [NUL]) \<le> length (lb_mem b)" using assms(1) by simp
  have "take (pos + length txt) ?mem = take (pos + length txt) (take (pos + length (txt @ [NUL])) ?mem)" by simp
  also have "\<dots> = take pos (lb_mem b) @ txt" unfolding overwrite_facts(3) [OF f] using assms(1) by simp
  finally have t: "take (pos + length txt) ?mem = take pos (lb_mem b) @ txt" .
  have lt: "length txt < unat cap" using assms by linarith
  then have "take (unat cap - 1) txt = txt" by simp
  with lt f have "print_at pos cap txt b = ((length txt, S_OK), b\<lparr>lb_mem := ?mem\<rparr>)"
    by (simp add: print_at_def lb_store_def)
  from that [OF this overwrite_facts(1) [OF f] t] show ?thesis .
qed

lemma print_at_full:
  assumes "pos \<le> length (lb_mem b)" "length (lb_mem b) \<le> pos + length txt" "unat cap = length (lb_mem b) - pos"
  obtains mem' where
    "print_at pos cap txt b = ((0, STRSAFE_E_INSUFFICIENT_BUFFER), b\<lparr>lb_mem := mem'\<rparr>)"
    "length mem' = length (lb_mem b)" "take pos mem' = take pos (lb_mem b)"
proof (cases "length (lb_mem b) - pos = 0")
  case True
  then show ?thesis using that [of "lb_mem b"] assms by (simp add: print_at_def lb_store_def)
next
  case False
  let ?s = "take (length (lb_mem b) - pos - 1) txt @ [NUL]"
  have "length (lb_mem b) - pos - 1 \<le> length txt" using assms(2) by linarith
  then have "length ?s = length (lb_mem b) - pos - 1 + 1" by (simp only: length_append length_take min.absorb2) simp
  then have l: "length ?s = length (lb_mem b) - pos" using False by linarith
  then have "pos + length ?s \<le> length (lb_mem b)" using assms(1) by simp
  note o = overwrite_facts [OF this]
  have "\<not> length txt < unat cap" using assms by linarith
  moreover have "\<not> length (lb_mem b) < pos + length ?s" using l assms(1) by simp
  ultimately have "print_at pos cap txt b = ((0, STRSAFE_E_INSUFFICIENT_BUFFER), b\<lparr>lb_mem := overwrite pos ?s (lb_mem b)\<rparr>)"
    using False assms(3) by (simp add: print_at_def lb_store_def)
  from that [OF this o(1,2)] show ?thesis .
qed

lemma lb_take_mono: "take n xs = take n ys \<Longrightarrow> m \<le> n \<Longrightarrow> take m xs = take m ys"
  by (metis min.absorb1 take_take)

text \<open>The room after \<open>w\<close> more characters.\<close>

lemma room_left:
  assumes "p + w \<le> n" "n < 2 ^ 32"
  shows "unat ((of_nat (n - p) :: u64) - of_nat w) = n - (p + w)"
proof -
  have "(of_nat (n - p) :: u64) - of_nat w = of_nat (n - (p + w))" using assms by (simp add: of_nat_diff)
  then show ?thesis using assms(2) by (simp only:) (rule unat_room, simp)
qed

text \<open>
  What the parts hold so far: \<open>s\<close> is the text printed, the buffer differs from \<open>b\<close> in its memory
  only, and only after the cursor.
\<close>

definition parts_hold :: "log_buffer \<Rightarrow> string \<Rightarrow> lb_parts \<Rightarrow> bool" where
  "parts_hold b s parts \<longleftrightarrow> (\<exists>t w mem. parts = (t, w, S_OK, b\<lparr>lb_mem := mem\<rparr>) \<and> t + w = length s \<and>
     length mem = length (lb_mem b) \<and> take (lb_cursor b + length s) mem = buffered b @ s)"

definition parts_full :: "log_buffer \<Rightarrow> lb_parts \<Rightarrow> bool" where
  "parts_full b parts \<longleftrightarrow> (\<exists>t w mem. parts = (t, w, STRSAFE_E_INSUFFICIENT_BUFFER, b\<lparr>lb_mem := mem\<rparr>) \<and>
     length mem = length (lb_mem b) \<and> take (lb_cursor b) mem = buffered b)"

lemma part_fits:
  assumes ok: "lb_ok b" and p: "parts_hold b s parts" and fits: "lb_cursor b + length (s @ txt) < length (lb_mem b)"
  shows "parts_hold b (s @ txt) (lb_part (lb_cursor b) (of_nat (BytesFree b)) txt parts)"
proof -
  let ?c = "lb_cursor b" and ?N = "length (lb_mem b)"
  obtain t w mem where q: "parts = (t, w, S_OK, b\<lparr>lb_mem := mem\<rparr>)" "t + w = length s" "length mem = ?N"
    "take (?c + length s) mem = buffered b @ s" using p by (auto simp: parts_hold_def)
  have N: "?N < 2 ^ 32" using ok by (simp add: lb_ok_def)
  have cap: "unat (of_nat (BytesFree b) - of_nat (length s) :: u64) = ?N - (?c + length s)"
    unfolding BytesFree_def using fits by (intro room_left N) simp
  obtain mem' where m: "print_at (?c + length s) (of_nat (BytesFree b) - of_nat (length s)) txt (b\<lparr>lb_mem := mem\<rparr>)
      = ((length txt, S_OK), b\<lparr>lb_mem := mem'\<rparr>)" "length mem' = ?N"
    "take (?c + length s + length txt) mem' = take (?c + length s) mem @ txt"
    using print_at_fits [of "?c + length s" "txt" "b\<lparr>lb_mem := mem\<rparr>"] fits cap q(3) by auto
  have "lb_part ?c (of_nat (BytesFree b)) txt parts = (length s, length txt, S_OK, b\<lparr>lb_mem := mem'\<rparr>)"
    using m(1) q(1,2) by (simp add: lb_part_def)
  then show ?thesis unfolding parts_hold_def using m(2,3) q(4) by (intro exI conjI) (assumption, simp_all add: add.assoc)
qed

lemma part_overflows:
  assumes ok: "lb_ok b" and p: "parts_hold b s parts" and "lb_cursor b + length s \<le> length (lb_mem b)"
    "length (lb_mem b) \<le> lb_cursor b + length (s @ txt)"
  shows "parts_full b (lb_part (lb_cursor b) (of_nat (BytesFree b)) txt parts)"
proof -
  let ?c = "lb_cursor b" and ?N = "length (lb_mem b)"
  obtain t w mem where q: "parts = (t, w, S_OK, b\<lparr>lb_mem := mem\<rparr>)" "t + w = length s" "length mem = ?N"
    "take (?c + length s) mem = buffered b @ s" using p by (auto simp: parts_hold_def)
  have N: "?N < 2 ^ 32" "?c \<le> ?N" using ok by (simp_all add: lb_ok_def)
  have cap: "unat (of_nat (BytesFree b) - of_nat (length s) :: u64) = ?N - (?c + length s)"
    unfolding BytesFree_def using assms(3) by (intro room_left N)
  obtain mem' where m: "print_at (?c + length s) (of_nat (BytesFree b) - of_nat (length s)) txt (b\<lparr>lb_mem := mem\<rparr>)
      = ((0, STRSAFE_E_INSUFFICIENT_BUFFER), b\<lparr>lb_mem := mem'\<rparr>)" "length mem' = ?N"
    "take (?c + length s) mem' = take (?c + length s) mem"
    using print_at_full [of "?c + length s" "b\<lparr>lb_mem := mem\<rparr>" "txt"] assms(3,4) cap q(3) by auto
  have "take ?c mem' = take ?c (take (?c + length s) mem')" by simp
  also have "\<dots> = buffered b" unfolding m(3) q(4) using N(2) by (simp add: buffered_def)
  finally have "take ?c mem' = buffered b" .
  moreover have "lb_part ?c (of_nat (BytesFree b)) txt parts = (length s, 0, STRSAFE_E_INSUFFICIENT_BUFFER, b\<lparr>lb_mem := mem'\<rparr>)"
    using m(1) q(1,2) by (simp add: lb_part_def)
  ultimately show ?thesis unfolding parts_full_def using m(2) by (intro exI conjI) assumption+
qed

lemma not_SUCCEEDED_full: "\<not> SUCCEEDED STRSAFE_E_INSUFFICIENT_BUFFER"
  using hr_failed unfolding FAILED_iff_not_SUCCEEDED by blast

lemma part_stays_full: "parts_full b parts \<Longrightarrow> parts_full b (lb_part start cap txt parts)"
  by (auto simp: parts_full_def lb_part_def not_SUCCEEDED_full)

lemma parts_start: "parts_hold b [] (0, 0, S_OK, b)"
  unfolding parts_hold_def by (rule exI [of _ 0], rule exI [of _ 0], rule exI [of _ "lb_mem b"]) (simp add: buffered_def)

lemma end_fits:
  assumes ok: "lb_ok b" and p: "parts_hold b s parts" and fits: "lb_cursor b + length s + 1 < length (lb_mem b)"
  obtains mem' where "lb_end (lb_cursor b) (of_nat (BytesFree b)) parts = (length s + 1, S_OK, b\<lparr>lb_mem := mem'\<rparr>)"
    "length mem' = length (lb_mem b)" "take (lb_cursor b + (length s + 1)) mem' = buffered b @ s @ [LF]"
proof -
  let ?c = "lb_cursor b" and ?N = "length (lb_mem b)"
  obtain t w mem where q: "parts = (t, w, S_OK, b\<lparr>lb_mem := mem\<rparr>)" "t + w = length s" "length mem = ?N"
    "take (?c + length s) mem = buffered b @ s" using p by (auto simp: parts_hold_def)
  have N: "?N < 2 ^ 32" using ok by (simp add: lb_ok_def)
  have cap: "unat (of_nat (BytesFree b) - of_nat (length s) :: u64) = ?N - (?c + length s)"
    unfolding BytesFree_def using fits by (intro room_left N) simp
  have "unat (1 :: u64) < unat (of_nat (BytesFree b) - of_nat (length s) :: u64)" unfolding cap using fits by simp
  then have room: "(of_nat (BytesFree b) - of_nat (length s) :: u64) > 1" by (simp only: word_less_nat_alt)
  let ?mem = "overwrite (?c + length s) [LF, NUL] mem"
  have f: "?c + length s + length [LF, NUL] \<le> length mem" using fits q(3) by simp
  have "take (?c + (length s + 1)) ?mem = take (?c + (length s + 1)) (take (?c + length s + length [LF, NUL]) ?mem)" by simp
  also have "\<dots> = buffered b @ s @ [LF]" unfolding overwrite_facts(3) [OF f] q(4) using f q(3) ok
    by (simp add: buffered_def lb_ok_def)
  finally have t: "take (?c + (length s + 1)) ?mem = buffered b @ s @ [LF]" .
  have "lb_store (?c + length s) [LF, NUL] (b\<lparr>lb_mem := mem\<rparr>) = b\<lparr>lb_mem := ?mem\<rparr>" using f by (simp add: lb_store_def)
  then have "lb_end ?c (of_nat (BytesFree b)) parts = (length s + 1, S_OK, b\<lparr>lb_mem := ?mem\<rparr>)"
    using room q(1,2) by (simp add: lb_end_def Let_def)
  from that [OF this _ t] show ?thesis using overwrite_facts(1) [OF f] q(3) by simp
qed

definition end_is_full :: "log_buffer \<Rightarrow> nat \<times> hresult \<times> log_buffer \<Rightarrow> bool" where
  "end_is_full b r \<longleftrightarrow> (\<exists>t mem. r = (t, STRSAFE_E_INSUFFICIENT_BUFFER, b\<lparr>lb_mem := mem\<rparr>) \<and>
     length mem = length (lb_mem b) \<and> take (lb_cursor b) mem = buffered b)"

lemma end_stays_full: "parts_full b parts \<Longrightarrow> end_is_full b (lb_end start cap parts)"
  by (auto simp: parts_full_def end_is_full_def lb_end_def not_SUCCEEDED_full)

lemma end_overflows:
  assumes ok: "lb_ok b" and p: "parts_hold b s parts" and "lb_cursor b + length s \<le> length (lb_mem b)"
    "length (lb_mem b) \<le> lb_cursor b + length s + 1"
  shows "end_is_full b (lb_end (lb_cursor b) (of_nat (BytesFree b)) parts)"
proof -
  let ?c = "lb_cursor b" and ?N = "length (lb_mem b)"
  obtain t w mem where q: "parts = (t, w, S_OK, b\<lparr>lb_mem := mem\<rparr>)" "t + w = length s" "length mem = ?N"
    "take (?c + length s) mem = buffered b @ s" using p by (auto simp: parts_hold_def)
  have N: "?N < 2 ^ 32" "?c \<le> ?N" using ok by (simp_all add: lb_ok_def)
  have cap: "unat (of_nat (BytesFree b) - of_nat (length s) :: u64) = ?N - (?c + length s)"
    unfolding BytesFree_def using assms(3) by (intro room_left N)
  have "\<not> unat (1 :: u64) < unat (of_nat (BytesFree b) - of_nat (length s) :: u64)" unfolding cap using assms(4) by simp
  then have room: "\<not> (of_nat (BytesFree b) - of_nat (length s) :: u64) > 1" unfolding word_less_nat_alt .
  have "take ?c mem = take ?c (take (?c + length s) mem)" by simp
  also have "\<dots> = buffered b" unfolding q(4) using N(2) by (simp add: buffered_def)
  finally have "take ?c mem = buffered b" .
  moreover have "lb_end ?c (of_nat (BytesFree b)) parts = (length s, STRSAFE_E_INSUFFICIENT_BUFFER, b\<lparr>lb_mem := mem\<rparr>)"
    using room q(1,2) by (simp add: lb_end_def Let_def)
  ultimately show ?thesis unfolding end_is_full_def using q(3) by (intro exI conjI) assumption+
qed

text \<open>A line that fits is appended whole; one that does not leaves what was buffered.\<close>

lemma lb_Write_fits:
  assumes ok: "lb_ok b" and named: "named_line m" and fits: "length (text_line m) < BytesFree b"
  obtains b' where "lb_Write (ll_prefix m) (ll_func m) (ll_hr m) (ll_message m) b = (S_OK, b')"
    "lb_ok b'" "length (lb_mem b') = length (lb_mem b)" "buffered b' = buffered b @ text_line m"
proof -
  obtain h where h: "log_head (ll_func m) (ll_hr m) = Some h" using named_head [OF named] by blast
  let ?p = "ll_prefix m" and ?g = "ll_message m" and ?c = "lb_cursor b" and ?N = "length (lb_mem b)"
  have N: "?c \<le> ?N" "?N < 2 ^ 32" "\<not> lb_fault b" using ok by (auto simp: lb_ok_def)
  have len: "?c + length (?p @ h @ ?g) + 1 < ?N" using fits N by (simp add: text_line_def h BytesFree_def)
  have "parts_hold b ([] @ ?p) (lb_part ?c (of_nat (BytesFree b)) ?p (0, 0, S_OK, b))"
    by (rule part_fits [OF ok parts_start]) (use len in simp)
  then have "parts_hold b (([] @ ?p) @ h) (lb_part ?c (of_nat (BytesFree b)) h (lb_part ?c (of_nat (BytesFree b)) ?p (0, 0, S_OK, b)))"
    by (rule part_fits [OF ok]) (use len in simp)
  then have *: "parts_hold b ((([] @ ?p) @ h) @ ?g) (lb_part ?c (of_nat (BytesFree b)) ?g
      (lb_part ?c (of_nat (BytesFree b)) h (lb_part ?c (of_nat (BytesFree b)) ?p (0, 0, S_OK, b))))"
    by (rule part_fits [OF ok]) (use len in simp)
  let ?s = "(([] @ ?p) @ h) @ ?g"
  obtain mem where m: "lb_end ?c (of_nat (BytesFree b)) (lb_part ?c (of_nat (BytesFree b)) ?g
      (lb_part ?c (of_nat (BytesFree b)) h (lb_part ?c (of_nat (BytesFree b)) ?p (0, 0, S_OK, b))))
      = (length ?s + 1, S_OK, b\<lparr>lb_mem := mem\<rparr>)" "length mem = ?N" "take (?c + (length ?s + 1)) mem = buffered b @ ?s @ [LF]"
    using end_fits [OF ok *] len by auto
  let ?b = "b\<lparr>lb_mem := mem, lb_cursor := ?c + (length ?s + 1),
     lb_stats := (lb_stats b)\<lparr>numWritesSucceeded := numWritesSucceeded (lb_stats b) + 1\<rparr>\<rparr>"
  have "lb_Write ?p (ll_func m) (ll_hr m) ?g b = (S_OK, ?b)"
    unfolding lb_Write_def Let_def h lb_head_def option.case m(1) by simp
  moreover have "lb_ok ?b" using N len m(2) by (simp add: lb_ok_def)
  moreover have "buffered ?b = buffered b @ text_line m" using m(3) by (simp add: buffered_def text_line_def h)
  ultimately show ?thesis using that m(2) by simp
qed

lemma lb_Write_full:
  assumes ok: "lb_ok b" and named: "named_line m" and full: "BytesFree b \<le> length (text_line m)"
  obtains b' where "lb_Write (ll_prefix m) (ll_func m) (ll_hr m) (ll_message m) b = (STRSAFE_E_INSUFFICIENT_BUFFER, b')"
    "lb_ok b'" "length (lb_mem b') = length (lb_mem b)" "buffered b' = buffered b" "lb_cursor b' = lb_cursor b"
proof -
  obtain h where h: "log_head (ll_func m) (ll_hr m) = Some h" using named_head [OF named] by blast
  let ?p = "ll_prefix m" and ?g = "ll_message m" and ?c = "lb_cursor b" and ?N = "length (lb_mem b)"
  let ?cap = "of_nat (BytesFree b) :: u64"
  let ?q1 = "lb_part ?c ?cap ?p (0, 0, S_OK, b)"
  let ?q2 = "lb_part ?c ?cap h ?q1"
  let ?q3 = "lb_part ?c ?cap ?g ?q2"
  have N: "?c \<le> ?N" "?N < 2 ^ 32" "\<not> lb_fault b" using ok by (auto simp: lb_ok_def)
  have len: "?N \<le> ?c + length (?p @ h @ ?g) + 1" using full N by (simp add: text_line_def h BytesFree_def)
  have "end_is_full b (lb_end ?c ?cap ?q3)"
  proof (cases "?N \<le> ?c + length ?p")
    case True
    then have "parts_full b ?q1" using N by (intro part_overflows [OF ok parts_start]) simp_all
    then show ?thesis by (rule end_stays_full [OF part_stays_full [OF part_stays_full]])
  next
    case False
    then have 1: "parts_hold b ([] @ ?p) ?q1" by (intro part_fits [OF ok parts_start]) simp
    show ?thesis
    proof (cases "?N \<le> ?c + length (?p @ h)")
      case True
      then have "parts_full b ?q2" using False by (intro part_overflows [OF ok 1]) simp_all
      then show ?thesis by (rule end_stays_full [OF part_stays_full])
    next
      case False
      then have 2: "parts_hold b (([] @ ?p) @ h) ?q2" by (intro part_fits [OF ok 1]) simp
      show ?thesis
      proof (cases "?N \<le> ?c + length (?p @ h @ ?g)")
        case True
        then have "parts_full b ?q3" using False by (intro part_overflows [OF ok 2]) simp_all
        then show ?thesis by (intro end_stays_full)
      next
        case False
        then have 3: "parts_hold b ((([] @ ?p) @ h) @ ?g) ?q3" by (intro part_fits [OF ok 2]) simp
        show ?thesis using False len by (intro end_overflows [OF ok 3]) simp_all
      qed
    qed
  qed
  then obtain t mem where r: "lb_end ?c ?cap ?q3 = (t, STRSAFE_E_INSUFFICIENT_BUFFER, b\<lparr>lb_mem := mem\<rparr>)"
    "length mem = ?N" "take ?c mem = buffered b" by (auto simp: end_is_full_def)
  let ?b = "b\<lparr>lb_mem := mem, lb_stats := (lb_stats b)\<lparr>numWritesFailed := numWritesFailed (lb_stats b) + 1\<rparr>\<rparr>"
  have "lb_Write ?p (ll_func m) (ll_hr m) ?g b = (STRSAFE_E_INSUFFICIENT_BUFFER, ?b)"
    unfolding lb_Write_def Let_def h lb_head_def option.case r(1) by (simp add: not_SUCCEEDED_full)
  then show ?thesis using that r N by (simp add: lb_ok_def buffered_def)
qed

section \<open>Nothing logged is lost\<close>

datatype log_event = LgLine log_env log_line | LgPass log_env

fun lg_step :: "logger \<Rightarrow> log_event \<Rightarrow> logger" where
  "lg_step l (LgLine e m) = WriteV e m l"
| "lg_step l (LgPass e) = FlushThreadProc e l"

text \<open>The ideal log: the lines of the levels wanted, in order.\<close>

definition wanted :: "Level \<Rightarrow> log_line \<Rightarrow> bool" where
  "wanted lv m \<longleftrightarrow> level_value (ll_level m) \<le> level_value lv"

fun ideal_log :: "Level \<Rightarrow> log_event list \<Rightarrow> string" where
  "ideal_log lv [] = []"
| "ideal_log lv (LgLine e m # es) = (if wanted lv m then text_line m else []) @ ideal_log lv es"
| "ideal_log lv (LgPass e # es) = ideal_log lv es"

definition log_text :: "logger \<Rightarrow> string" where
  "log_text l = concat (map snd (lg_sink l)) @ buffered (lg_buffer l)"

text \<open>Files can be opened and written, and their names fit the buffer for the path.\<close>

definition env_ok :: "string \<Rightarrow> log_env \<Rightarrow> bool" where
  "env_ok dir e \<longleftrightarrow> le_writes e \<and> (\<forall>n. le_opens e n) \<and> length dir + length (le_time e) < 490"

definition line_ok :: "log_line \<Rightarrow> bool" where
  "line_ok m \<longleftrightarrow> named_line m \<and> length (text_line m) < g_logBufferSizeBytes"

fun event_ok :: "string \<Rightarrow> log_event \<Rightarrow> bool" where
  "event_ok dir (LgLine e m) = (env_ok dir e \<and> line_ok m)"
| "event_ok dir (LgPass e) = env_ok dir e"

definition lg_ok :: "logger \<Rightarrow> bool" where
  "lg_ok l \<longleftrightarrow> lb_ok (lg_buffer l) \<and> length (lb_mem (lg_buffer l)) = g_logBufferSizeBytes \<and> lg_file l \<noteq> None \<and> \<not> lg_bad l"

definition same_log :: "logger \<Rightarrow> logger \<Rightarrow> bool" where
  "same_log l l' \<longleftrightarrow> lg_ok l' \<and> log_text l' = log_text l \<and> lg_logDir l' = lg_logDir l \<and> lg_maxLogLevel l' = lg_maxLogLevel l"

lemma same_log_trans: "same_log l l' \<Longrightarrow> same_log l' l'' \<Longrightarrow> same_log l l''"
  by (simp add: same_log_def)

lemma Flush_same:
  assumes "lg_ok l" "le_writes e"
  shows "same_log l (lg_Flush e l)" "BytesFree (lg_buffer (lg_Flush e l)) = g_logBufferSizeBytes"
proof -
  obtain f where f: "lg_file l = Some f" using assms(1) by (auto simp: lg_ok_def)
  have "same_log l (lg_Flush e l) \<and> BytesFree (lg_buffer (lg_Flush e l)) = g_logBufferSizeBytes"
  proof (cases "lb_cursor (lg_buffer l) = 0")
    case True
    then have "lg_Flush e l = l" using f by (simp add: lg_Flush_def BytesBuffered_def)
    with assms(1) True show ?thesis by (simp add: same_log_def lg_ok_def BytesFree_def)
  next
    case False
    let ?r = "lb_Reset (lg_buffer l)"
    have "lg_Flush e l = l\<lparr>lg_buffer := ?r\<lparr>lb_stats := (lb_stats ?r)\<lparr>numFlushes := numFlushes (lb_stats ?r) + 1\<rparr>\<rparr>,
        lg_sink := lg_sink l @ [(f, buffered (lg_buffer l))], lg_pos := lg_pos l + length (buffered (lg_buffer l)), lg_bad := False\<rparr>"
      using False f assms by (simp add: lg_Flush_def BytesBuffered_def lg_ok_def buffered_def Let_def)
    with assms(1) f show ?thesis
      by (simp add: same_log_def lg_ok_def lb_ok_def lb_Reset_def log_text_def buffered_def BytesFree_def)
  qed
  then show "same_log l (lg_Flush e l)" "BytesFree (lg_buffer (lg_Flush e l)) = g_logBufferSizeBytes" by simp_all
qed

lemma remove_older_frame: "\<exists>fs st. remove_older e l n = l\<lparr>lg_files := fs, lg_stats := st\<rparr>"
proof -
  have "remove_older e l n = l\<lparr>lg_files := lg_files (remove_older e l n), lg_stats := lg_stats (remove_older e l n)\<rparr>"
    by (simp add: remove_older_def)
  then show ?thesis by blast
qed

lemma remove_olders_frame: "\<exists>fs st. foldl (remove_older e) l ns = l\<lparr>lg_files := fs, lg_stats := st\<rparr>"
proof (induction ns arbitrary: l)
  case Nil
  have "foldl (remove_older e) l [] = l\<lparr>lg_files := lg_files l, lg_stats := lg_stats l\<rparr>" by simp
  then show ?case by blast
next
  case (Cons n ns)
  obtain fs st where "remove_older e l n = l\<lparr>lg_files := fs, lg_stats := st\<rparr>" using remove_older_frame by blast
  moreover obtain fs' st' where "foldl (remove_older e) (l\<lparr>lg_files := fs, lg_stats := st\<rparr>) ns
      = l\<lparr>lg_files := fs, lg_stats := st, lg_files := fs', lg_stats := st'\<rparr>" using Cons.IH by blast
  ultimately have "foldl (remove_older e) l (n # ns) = l\<lparr>lg_files := fs', lg_stats := st'\<rparr>" by simp
  then show ?case by blast
qed

lemma Clear_frame: "\<exists>fs st. ClearOlderLogFilesIfNeeded e l = l\<lparr>lg_files := fs, lg_stats := st\<rparr>"
proof (cases "le_scandir e")
  case True
  then show ?thesis using remove_olders_frame by (simp add: ClearOlderLogFilesIfNeeded_def Let_def)
next
  case False
  then have "ClearOlderLogFilesIfNeeded e l = l\<lparr>lg_files := lg_files l, lg_stats := lg_stats l\<rparr>"
    by (simp add: ClearOlderLogFilesIfNeeded_def)
  then show ?thesis by blast
qed

lemma path_fits:
  assumes "length dir + length t < 490" "lg_logDir l = dir"
  shows "StringPrintf 512 (log_file_path l (g_logFileNamePrefix @ t @ ''.log'')) = (log_file_path l (g_logFileNamePrefix @ t @ ''.log''), S_OK)"
  using assms by (intro StringPrintf_fits) (simp add: log_file_path_def g_logFileNamePrefix_def)

lemma Create_same:
  assumes "lb_ok (lg_buffer l)" "length (lb_mem (lg_buffer l)) = g_logBufferSizeBytes" "env_ok (lg_logDir l) e"
  shows "same_log l (CreateLogFile e l)" "lg_buffer (CreateLogFile e l) = lg_buffer l"
proof -
  let ?l = "l\<lparr>lg_stats := (lg_stats l)\<lparr>numFileCreationAttempts := numFileCreationAttempts (lg_stats l) + 1\<rparr>\<rparr>"
  have "length (lg_logDir l) + length (le_time e) < 490" using assms(3) by (simp add: env_ok_def)
  from path_fits [OF this, of ?l] assms show "same_log l (CreateLogFile e l)" "lg_buffer (CreateLogFile e l) = lg_buffer l"
    by (simp_all add: CreateLogFile_def Let_def env_ok_def same_log_def lg_ok_def log_text_def)
qed

lemma Rotate_same:
  assumes "lg_ok l" "env_ok (lg_logDir l) e"
  shows "same_log l (RotateLogFilesIfNeeded e l)" "lg_buffer (RotateLogFilesIfNeeded e l) = lg_buffer l"
proof -
  let ?full = "g_maxLogFileSizeBytes \<le> lg_pos l"
  let ?l1 = "if ?full then l\<lparr>lg_file := None\<rparr> else l"
  obtain fs st where c: "ClearOlderLogFilesIfNeeded e ?l1 = ?l1\<lparr>lg_files := fs, lg_stats := st\<rparr>" using Clear_frame by blast
  let ?l2 = "?l1\<lparr>lg_files := fs, lg_stats := st\<rparr>"
  have r: "RotateLogFilesIfNeeded e l = (if ?full then CreateLogFile e ?l2 else ?l2)"
    using assms(1) c by (auto simp: RotateLogFilesIfNeeded_def Let_def lg_ok_def)
  have "lb_ok (lg_buffer ?l2)" "length (lb_mem (lg_buffer ?l2)) = g_logBufferSizeBytes" "env_ok (lg_logDir ?l2) e"
    using assms by (auto simp: lg_ok_def)
  note cr = Create_same [OF this]
  have "log_text ?l2 = log_text l" "lg_logDir ?l2 = lg_logDir l" "lg_maxLogLevel ?l2 = lg_maxLogLevel l" "lg_buffer ?l2 = lg_buffer l"
    by (simp_all add: log_text_def)
  with cr assms(1) show "same_log l (RotateLogFilesIfNeeded e l)" "lg_buffer (RotateLogFilesIfNeeded e l) = lg_buffer l"
    unfolding r by (auto simp: same_log_def lg_ok_def)
qed

definition logs :: "logger \<Rightarrow> string \<Rightarrow> logger \<Rightarrow> bool" where
  "logs l s l' \<longleftrightarrow> lg_ok l' \<and> log_text l' = log_text l @ s \<and> lg_logDir l' = lg_logDir l \<and> lg_maxLogLevel l' = lg_maxLogLevel l"

lemma buffer_write_fits:
  assumes "lg_ok l" "named_line m" "length (text_line m) < BytesFree (lg_buffer l)"
  obtains l' where "lg_buffer_write m l = (S_OK, l')" "logs l (text_line m) l'"
proof -
  have ok: "lb_ok (lg_buffer l)" using assms(1) by (simp add: lg_ok_def)
  obtain b where b: "lb_Write (ll_prefix m) (ll_func m) (ll_hr m) (ll_message m) (lg_buffer l) = (S_OK, b)"
    "lb_ok b" "length (lb_mem b) = length (lb_mem (lg_buffer l))" "buffered b = buffered (lg_buffer l) @ text_line m"
    using lb_Write_fits [OF ok assms(2,3)] by blast
  show ?thesis
    by (rule that [of "l\<lparr>lg_buffer := b\<rparr>"]) (use b assms(1) in \<open>simp_all add: lg_buffer_write_def logs_def lg_ok_def log_text_def\<close>)
qed

lemma buffer_write_full:
  assumes "lg_ok l" "named_line m" "BytesFree (lg_buffer l) \<le> length (text_line m)"
  obtains l' where "lg_buffer_write m l = (STRSAFE_E_INSUFFICIENT_BUFFER, l')" "same_log l l'"
proof -
  have ok: "lb_ok (lg_buffer l)" using assms(1) by (simp add: lg_ok_def)
  obtain b where b: "lb_Write (ll_prefix m) (ll_func m) (ll_hr m) (ll_message m) (lg_buffer l) = (STRSAFE_E_INSUFFICIENT_BUFFER, b)"
    "lb_ok b" "length (lb_mem b) = length (lb_mem (lg_buffer l))" "buffered b = buffered (lg_buffer l)"
    using lb_Write_full [OF ok assms(2,3)] by blast
  show ?thesis
    by (rule that [of "l\<lparr>lg_buffer := b\<rparr>"])
      (use b assms(1) in \<open>simp_all add: lg_buffer_write_def same_log_def lg_ok_def log_text_def\<close>)
qed

lemma ok_not_full: "S_OK \<noteq> STRSAFE_E_INSUFFICIENT_BUFFER"
  by (simp add: hr_defs)

lemma logs_stats: "logs l s l' \<Longrightarrow> logs l s (l'\<lparr>lg_stats := st\<rparr>)"
  by (simp add: logs_def lg_ok_def log_text_def)

lemma WriteV_logs:
  assumes l: "lg_ok l" and e: "env_ok (lg_logDir l) e" and m: "line_ok m"
  shows "logs l (if wanted (lg_maxLogLevel l) m then text_line m else []) (WriteV e m l)"
proof (cases "wanted (lg_maxLogLevel l) m")
  case False
  then show ?thesis using l by (simp add: WriteV_def wanted_def logs_def)
next
  case True
  then have lv: "\<not> level_value (ll_level m) > level_value (lg_maxLogLevel l)" by (simp add: wanted_def)
  have n: "named_line m" "length (text_line m) < g_logBufferSizeBytes" using m by (simp_all add: line_ok_def)
  show ?thesis
  proof (cases "length (text_line m) < BytesFree (lg_buffer l)")
    case fits: True
    obtain l' where "lg_buffer_write m l = (S_OK, l')" "logs l (text_line m) l'"
      using buffer_write_fits [OF l n(1) fits] by blast
    with lv True show ?thesis by (simp add: WriteV_def ok_not_full)
  next
    case False
    obtain l1 where 1: "lg_buffer_write m l = (STRSAFE_E_INSUFFICIENT_BUFFER, l1)" "same_log l l1"
      using buffer_write_full [OF l n(1)] False by (metis not_less)
    have w: "le_writes e" using e by (simp add: env_ok_def)
    have 2: "same_log l (lg_Flush e l1)" "BytesFree (lg_buffer (lg_Flush e l1)) = g_logBufferSizeBytes"
      using Flush_same [of l1 e] 1(2) w by (auto simp: same_log_def)
    let ?l3 = "RotateLogFilesIfNeeded e (lg_Flush e l1)"
    have 3: "same_log l ?l3" "BytesFree (lg_buffer ?l3) = g_logBufferSizeBytes"
      using Rotate_same [of "lg_Flush e l1" e] 2 e by (auto simp: same_log_def)
    have "lg_ok ?l3" "length (text_line m) < BytesFree (lg_buffer ?l3)" using 3 n(2) by (simp_all add: same_log_def)
    then obtain l' where 4: "lg_buffer_write m ?l3 = (S_OK, l')" "logs ?l3 (text_line m) l'"
      using buffer_write_fits [OF _ n(1)] by blast
    have "logs l (text_line m) l'" using 4(2) 3(1) by (simp add: logs_def same_log_def)
    then have "logs l (text_line m) (l'\<lparr>lg_stats := (lg_stats l')\<lparr>numFlushWrites := numFlushWrites (lg_stats l') + 1\<rparr>\<rparr>)"
      by (rule logs_stats)
    moreover have "WriteV e m l = l'\<lparr>lg_stats := (lg_stats l')\<lparr>numFlushWrites := numFlushWrites (lg_stats l') + 1\<rparr>\<rparr>"
      using lv 1(1) 4(1) by (simp add: WriteV_def Let_def)
    ultimately show ?thesis using True by simp
  qed
qed

lemma Pass_logs:
  assumes "lg_ok l" "env_ok (lg_logDir l) e"
  shows "logs l [] (FlushThreadProc e l)"
proof -
  have "same_log l (lg_Flush e l)" using Flush_same [OF assms(1)] assms(2) by (simp add: env_ok_def)
  moreover from this have "same_log (lg_Flush e l) (RotateLogFilesIfNeeded e (lg_Flush e l))"
    using Rotate_same(1) [of "lg_Flush e l" e] assms(2) by (simp add: same_log_def)
  ultimately have "same_log l (RotateLogFilesIfNeeded e (lg_Flush e l))" by (rule same_log_trans)
  then have "logs l [] (RotateLogFilesIfNeeded e (lg_Flush e l))" by (simp add: same_log_def logs_def)
  then show ?thesis unfolding FlushThreadProc_def Let_def by (rule logs_stats)
qed

lemma run_logs:
  assumes "lg_ok l" "\<forall>ev \<in> set es. event_ok (lg_logDir l) ev"
  shows "logs l (ideal_log (lg_maxLogLevel l) es) (run_steps lg_step l es)"
  using assms
proof (induction "lg_maxLogLevel l" es arbitrary: l rule: ideal_log.induct)
  case 1
  then show ?case by (simp add: logs_def)
next
  case (2 e m es)
  let ?t = "if wanted (lg_maxLogLevel l) m then text_line m else []"
  have w: "logs l ?t (WriteV e m l)" using 2 by (intro WriteV_logs) simp_all
  have "logs (WriteV e m l) (ideal_log (lg_maxLogLevel (WriteV e m l)) es) (run_steps lg_step (WriteV e m l) es)"
    using 2 w by (intro 2) (simp_all add: logs_def)
  with w show ?case by (simp add: logs_def)
next
  case (3 e es)
  have w: "logs l [] (FlushThreadProc e l)" using 3 by (intro Pass_logs) simp_all
  have "logs (FlushThreadProc e l) (ideal_log (lg_maxLogLevel (FlushThreadProc e l)) es) (run_steps lg_step (FlushThreadProc e l) es)"
    using 3 w by (intro 3) (simp_all add: logs_def)
  with w show ?case by (simp add: logs_def)
qed

lemma buffer_size: "g_logBufferSizeBytes < 2 ^ 32"
  by (simp add: g_logBufferSizeBytes_def)

lemma new_log:
  assumes "env_ok dir e"
  shows "lg_ok (lg_new e dir lv files)" "log_text (lg_new e dir lv files) = []" "lg_logDir (lg_new e dir lv files) = dir"
    "lg_maxLogLevel (lg_new e dir lv files) = lv"
proof -
  let ?st = "\<lparr>numFilesDeleted = 0, numFileCreationAttempts = 0, numFilesCreated = 0, numFlushThreadLoops = 0,
    numFlushWrites = 0, numLogWritesFailed = 0\<rparr>"
  let ?l = "\<lparr>lg_logDir = dir, lg_maxLogLevel = lv, lg_buffer = lb_new g_logBufferSizeBytes, lg_file = None, lg_pos = 0,
    lg_bad = False, lg_files = files, lg_sink = [], lg_stats = ?st\<rparr>"
  obtain fs st where c: "ClearOlderLogFilesIfNeeded e ?l = ?l\<lparr>lg_files := fs, lg_stats := st\<rparr>" using Clear_frame by blast
  let ?l2 = "?l\<lparr>lg_files := fs, lg_stats := st\<rparr>"
  have n: "lg_new e dir lv files = CreateLogFile e ?l2"
    unfolding lg_new_def RotateLogFilesIfNeeded_def Let_def using c by simp
  have b: "lb_ok (lb_new g_logBufferSizeBytes)" "length (lb_mem (lb_new g_logBufferSizeBytes)) = g_logBufferSizeBytes"
    "buffered (lb_new g_logBufferSizeBytes) = []"
    using buffer_size by (simp_all add: lb_ok_def lb_new_def lb_Reset_def buffered_def)
  have "same_log ?l2 (CreateLogFile e ?l2)" using b assms by (intro Create_same) simp_all
  then show "lg_ok (lg_new e dir lv files)" "log_text (lg_new e dir lv files) = []" "lg_logDir (lg_new e dir lv files) = dir"
    "lg_maxLogLevel (lg_new e dir lv files) = lv"
    unfolding n using b by (simp_all add: same_log_def log_text_def)
qed


definition sample_log_env :: log_env where
  "sample_log_env = \<lparr>le_scandir = True, le_removes = \<lambda>_. True, le_opens = \<lambda>_. True, le_writes = True, le_time = ''20230101_000000''\<rparr>"

definition sample_line :: "string \<Rightarrow> log_line" where
  "sample_line s = \<lparr>ll_level = LvInfo, ll_prefix = ''t '', ll_func = Some ''f'', ll_hr = - 1, ll_message = s\<rparr>"

lemma sample_log_ok: "env_ok ''/d'' sample_log_env" "line_ok (sample_line ''a'')" "line_ok (sample_line ''b'')"
  by (simp_all add: env_ok_def sample_log_env_def line_ok_def named_line_def sample_line_def text_line_def log_head_def
      g_logBufferSizeBytes_def)


text \<open>
  A failure with the code -1 and no function name: the length of the prefix is counted twice, so
  the line has a hole, and when the room is less than that, the message is written past the end.
\<close>

lemma nameless_failure_leaves_hole:
  "buffered (snd (lb_Write ''ab'' None (- 1) ''cd'' (lb_new 12))) = ''ab'' @ [NUL, NUL] @ ''cd'' @ [LF]"
  by code_simp

lemma nameless_failure_overruns:
  "lb_fault (snd (lb_Write ''abcdefg'' None (- 1) ''cd'' (lb_new 12)))"
  by (simp add: lb_Write_def log_head_def lb_head_def lb_part_def lb_end_def print_at_def lb_store_def lb_new_def lb_Reset_def
      BytesFree_def overwrite_def not_SUCCEEDED_full)

section \<open>The files stay few\<close>

lemma insert_name_mset: "mset (insert_name x ys) = add_mset x (mset ys)"
  by (induction x ys rule: insert_name.induct) auto

lemma alphasort_mset: "mset (alphasort xs) = mset xs"
  by (induction xs) (simp_all add: alphasort_def insert_name_mset)

lemma alphasort_facts: "length (alphasort xs) = length xs" "set (alphasort xs) = set xs" "distinct (alphasort xs) = distinct xs"
  using alphasort_mset [of xs] by (metis size_mset, metis set_mset_mset, metis mset_eq_imp_distinct_iff)

lemma kept_count:
  assumes "distinct xs" "mset ys = mset xs"
  shows "length (filter (\<lambda>x. x \<notin> set (take k ys)) xs) = length xs - k"
proof -
  have d: "distinct ys" "set ys = set xs" "length ys = length xs"
    using assms by (metis mset_eq_imp_distinct_iff, metis set_mset_mset, metis size_mset)
  have "set ys = set (take k ys) \<union> set (drop k ys)" "set (take k ys) \<inter> set (drop k ys) = {}"
    using d(1) by (metis append_take_drop_id set_append, metis append_take_drop_id distinct_append)
  then have "set (filter (\<lambda>x. x \<notin> set (take k ys)) xs) = set (drop k ys)" using d(2) by auto
  then have "length (filter (\<lambda>x. x \<notin> set (take k ys)) xs) = length (drop k ys)"
    using assms(1) d(1) by (metis distinct_card distinct_drop distinct_filter)
  then show ?thesis using d(3) by simp
qed

definition log_count :: "log_dir \<Rightarrow> nat" where "log_count fs = length (filter LogFilesFilter fs)"

definition short_names :: "string \<Rightarrow> log_dir \<Rightarrow> bool" where
  "short_names dir fs \<longleftrightarrow> (\<forall>d \<in> set fs. length dir + 1 + length (fst d) < 512)"

text \<open>The directory: names occur once, their paths fit, and what is no log file is as in \<open>others\<close>.\<close>

definition dir_ok :: "string \<Rightarrow> log_dir \<Rightarrow> logger \<Rightarrow> bool" where
  "dir_ok dir others l \<longleftrightarrow> lg_logDir l = dir \<and> distinct (map fst (lg_files l)) \<and> short_names dir (lg_files l) \<and>
     filter (\<lambda>d. \<not> LogFilesFilter d) (lg_files l) = others"

definition can_remove :: "log_env \<Rightarrow> bool" where
  "can_remove e \<longleftrightarrow> le_scandir e \<and> (\<forall>n. le_removes e n)"

lemma remove_olders_files:
  assumes "can_remove e" "lg_logDir l = dir" "\<forall>n \<in> set ns. length dir + 1 + length n < 512"
  shows "lg_files (foldl (remove_older e) l ns) = filter (\<lambda>d. fst d \<notin> set ns) (lg_files l)"
  using assms
proof (induction ns arbitrary: l)
  case (Cons n ns)
  have "StringPrintf 512 (log_file_path l n) = (log_file_path l n, S_OK)"
    using Cons.prems by (intro StringPrintf_fits) (simp add: log_file_path_def)
  then have r: "lg_files (remove_older e l n) = filter (\<lambda>d. fst d \<noteq> n) (lg_files l)" "lg_logDir (remove_older e l n) = dir"
    using Cons.prems by (simp_all add: remove_older_def can_remove_def)
  have "lg_files (foldl (remove_older e) (remove_older e l n) ns) = filter (\<lambda>d. fst d \<notin> set ns) (lg_files (remove_older e l n))"
    using Cons.prems r(2) by (intro Cons.IH) simp_all
  then show ?case unfolding r(1) by (simp add: conj_commute)
qed simp

lemma Clear_dir:
  assumes "can_remove e" "dir_ok dir others l"
  shows "dir_ok dir others (ClearOlderLogFilesIfNeeded e l)" "log_count (lg_files (ClearOlderLogFilesIfNeeded e l)) \<le> g_maxLogFiles"
proof -
  let ?names = "map fst (filter LogFilesFilter (lg_files l))"
  let ?gone = "take (length ?names - g_maxLogFiles) (alphasort ?names)"
  have d: "lg_logDir l = dir" "distinct (map fst (lg_files l))" "short_names dir (lg_files l)"
    "filter (\<lambda>d. \<not> LogFilesFilter d) (lg_files l) = others" using assms(2) by (simp_all add: dir_ok_def)
  have "set ?gone \<subseteq> set (alphasort ?names)" by (rule set_take_subset)
  then have gone: "set ?gone \<subseteq> set ?names" by (simp only: alphasort_facts(2))
  have c: "ClearOlderLogFilesIfNeeded e l = foldl (remove_older e) l ?gone"
    using assms(1) by (simp add: ClearOlderLogFilesIfNeeded_def can_remove_def Let_def alphasort_facts(1))
  have "\<forall>n \<in> set ?gone. length dir + 1 + length n < 512" using gone d(3) by (fastforce simp: short_names_def)
  then have f: "lg_files (ClearOlderLogFilesIfNeeded e l) = filter (\<lambda>d. fst d \<notin> set ?gone) (lg_files l)"
    unfolding c by (rule remove_olders_files [OF assms(1) d(1)])
  have other: "fst x \<notin> set ?gone" if "x \<in> set (lg_files l)" "\<not> LogFilesFilter x" for x
  proof
    assume "fst x \<in> set ?gone"
    then obtain y where "y \<in> set (lg_files l)" "LogFilesFilter y" "fst y = fst x" using gone by auto
    with that d(2) show False by (metis eq_key_imp_eq_value prod.collapse)
  qed
  have "filter (\<lambda>d. \<not> LogFilesFilter d) (filter (\<lambda>d. fst d \<notin> set ?gone) (lg_files l)) = others"
    unfolding d(4) [symmetric] filter_filter using other by (intro filter_cong) auto
  moreover have "lg_logDir (ClearOlderLogFilesIfNeeded e l) = dir" using Clear_frame [of e l] d(1) by auto
  moreover have "distinct (map fst (filter (\<lambda>d. fst d \<notin> set ?gone) (lg_files l)))" using d(2) by (simp add: distinct_map_filter)
  moreover have "short_names dir (filter (\<lambda>d. fst d \<notin> set ?gone) (lg_files l))" using d(3) by (simp add: short_names_def)
  ultimately show "dir_ok dir others (ClearOlderLogFilesIfNeeded e l)" by (simp add: dir_ok_def f)
  have "map fst (filter LogFilesFilter (filter (\<lambda>d. fst d \<notin> set ?gone) (lg_files l))) = filter (\<lambda>n. n \<notin> set ?gone) ?names"
    by (simp add: filter_map comp_def conj_commute)
  then have "log_count (lg_files (ClearOlderLogFilesIfNeeded e l)) = length (filter (\<lambda>n. n \<notin> set ?gone) ?names)"
    unfolding log_count_def f by (metis length_map)
  also have "\<dots> = length ?names - (length ?names - g_maxLogFiles)"
    using d(2) by (intro kept_count alphasort_mset) (simp add: distinct_map_filter)
  also have "\<dots> \<le> g_maxLogFiles" by simp
  finally show "log_count (lg_files (ClearOlderLogFilesIfNeeded e l)) \<le> g_maxLogFiles" .
qed

lemma log_name: "LogFilesFilter (g_logFileNamePrefix @ s, True)"
  by (simp add: LogFilesFilter_def g_logFileNamePrefix_def)

lemma Create_dir:
  assumes "dir_ok dir others l"
  shows "dir_ok dir others (CreateLogFile e l) \<and> log_count (lg_files (CreateLogFile e l)) \<le> log_count (lg_files l) + 1"
proof -
  let ?l = "l\<lparr>lg_stats := (lg_stats l)\<lparr>numFileCreationAttempts := numFileCreationAttempts (lg_stats l) + 1\<rparr>\<rparr>"
  let ?n = "g_logFileNamePrefix @ le_time e @ ''.log''"
  have "length (log_file_path ?l ?n) < 512" if "\<not> FAILED (snd (StringPrintf 512 (log_file_path ?l ?n)))"
    using that hr_failed by (auto simp: StringPrintf_def snprintf_def split: if_splits)
  then have "length dir + 1 + length ?n < 512" if "\<not> FAILED (snd (StringPrintf 512 (log_file_path ?l ?n)))"
    using that assms by (simp add: log_file_path_def dir_ok_def)
  then show ?thesis
    using assms log_name [of "le_time e @ ''.log''"]
    by (auto simp: CreateLogFile_def Let_def dir_ok_def log_count_def short_names_def)
qed

lemma dir_ok_other:
  "dir_ok dir others (l\<lparr>lg_file := f\<rparr>) = dir_ok dir others l" "dir_ok dir others (l\<lparr>lg_buffer := b\<rparr>) = dir_ok dir others l"
  "dir_ok dir others (l\<lparr>lg_stats := st\<rparr>) = dir_ok dir others l"
  by (simp_all add: dir_ok_def)

definition few :: "string \<Rightarrow> log_dir \<Rightarrow> logger \<Rightarrow> bool" where
  "few dir others l \<longleftrightarrow> dir_ok dir others l \<and> log_count (lg_files l) \<le> g_maxLogFiles + 1"

lemma Rotate_few:
  assumes "can_remove e" "dir_ok dir others l"
  shows "few dir others (RotateLogFilesIfNeeded e l)"
proof -
  let ?l1 = "if lg_file l \<noteq> None \<and> \<not> lg_bad l \<and> g_maxLogFileSizeBytes \<le> lg_pos l then l\<lparr>lg_file := None\<rparr> else l"
  have "dir_ok dir others ?l1" using assms(2) by (simp add: dir_ok_other)
  note c = Clear_dir [OF assms(1) this]
  from c Create_dir [OF c(1), of e] show ?thesis
    by (auto simp: RotateLogFilesIfNeeded_def Let_def few_def)
qed

lemma few_other: "few dir others l \<Longrightarrow> lg_files l' = lg_files l \<Longrightarrow> lg_logDir l' = lg_logDir l \<Longrightarrow> few dir others l'"
  by (simp add: few_def dir_ok_def)

lemma Flush_files: "lg_files (lg_Flush e l) = lg_files l" "lg_logDir (lg_Flush e l) = lg_logDir l"
  by (auto simp: lg_Flush_def Let_def split: option.splits)

lemma buffer_write_files: "lg_files (snd (lg_buffer_write m l)) = lg_files l" "lg_logDir (snd (lg_buffer_write m l)) = lg_logDir l"
  by (simp_all add: lg_buffer_write_def split: prod.splits)

lemma WriteV_few:
  assumes "can_remove e" "few dir others l"
  shows "few dir others (WriteV e m l)"
proof -
  have 1: "few dir others (snd (lg_buffer_write m l))" using assms(2) buffer_write_files by (rule few_other)
  then have "few dir others (lg_Flush e (snd (lg_buffer_write m l)))" using Flush_files by (rule few_other)
  then have "few dir others (RotateLogFilesIfNeeded e (lg_Flush e (snd (lg_buffer_write m l))))"
    by (intro Rotate_few [OF assms(1)]) (simp add: few_def)
  then have 2: "few dir others (snd (lg_buffer_write m (RotateLogFilesIfNeeded e (lg_Flush e (snd (lg_buffer_write m l))))))"
    using buffer_write_files by (rule few_other)
  from assms(2) 1 2 show ?thesis
    by (auto simp: WriteV_def Let_def few_def dir_ok_other split: prod.splits)
qed

lemma Pass_few:
  assumes "can_remove e" "few dir others l"
  shows "few dir others (FlushThreadProc e l)"
proof -
  have "few dir others (lg_Flush e l)" using assms(2) Flush_files by (rule few_other)
  then have "few dir others (RotateLogFilesIfNeeded e (lg_Flush e l))" by (intro Rotate_few [OF assms(1)]) (simp add: few_def)
  then show ?thesis by (simp add: FlushThreadProc_def Let_def few_def dir_ok_other)
qed

fun event_env :: "log_event \<Rightarrow> log_env" where
  "event_env (LgLine e m) = e" | "event_env (LgPass e) = e"

lemma run_few:
  "\<forall>ev \<in> set es. can_remove (event_env ev) \<Longrightarrow> few dir others l \<Longrightarrow> few dir others (run_steps lg_step l es)"
proof (induction es arbitrary: l)
  case (Cons ev es)
  then show ?case by (cases ev) (simp_all add: WriteV_few Pass_few)
qed simp

text \<open>
  C29. The log directory holds at most four log files at any time, one more than the limit in the
  code, whatever the writes and the opening of files come to, and no other entry of the directory
  is ever removed, as long as the directory can be listed and files can be removed.
\<close>

theorem log_files_bounded:
  assumes "distinct (map fst files)" "short_names dir files" "can_remove e" "\<forall>ev \<in> set es. can_remove (event_env ev)"
  shows "let fs = lg_files (run_steps lg_step (lg_new e dir lv files) es)
    in log_count fs \<le> 4 \<and> filter (\<lambda>d. \<not> LogFilesFilter d) fs = filter (\<lambda>d. \<not> LogFilesFilter d) files"
proof -
  define l where "l = \<lparr>lg_logDir = dir, lg_maxLogLevel = lv, lg_buffer = lb_new g_logBufferSizeBytes, lg_file = None, lg_pos = 0,
    lg_bad = False, lg_files = files, lg_sink = [], lg_stats = \<lparr>numFilesDeleted = 0, numFileCreationAttempts = 0,
    numFilesCreated = 0, numFlushThreadLoops = 0, numFlushWrites = 0, numLogWritesFailed = 0\<rparr>\<rparr>"
  let ?others = "filter (\<lambda>d. \<not> LogFilesFilter d) files"
  have "dir_ok dir ?others l" using assms(1,2) by (simp add: dir_ok_def l_def)
  note c = Clear_dir [OF assms(3) this]
  have "lg_file l = None" by (simp add: l_def)
  then have "lg_new e dir lv files = CreateLogFile e (ClearOlderLogFilesIfNeeded e l)"
    unfolding lg_new_def l_def [symmetric] by (simp add: RotateLogFilesIfNeeded_def Let_def)
  then have "few dir ?others (lg_new e dir lv files)" using Create_dir [OF c(1), of e] c(2) by (auto simp: few_def)
  from run_few [OF assms(4) this] show ?thesis by (simp add: few_def dir_ok_def g_maxLogFiles_def Let_def)
qed

theorem log_files_bounded_witness:
  "log_count (lg_files (run_steps lg_step (lg_new sample_log_env ''/d'' LvInfo
     [(''do-agent.1'', True), (''do-agent.2'', True), (''x'', True), (''do-agent.3'', True), (''do-agent.4'', True)]) [LgPass sample_log_env])) \<le> 4"
proof -
  have "can_remove sample_log_env" by (simp add: can_remove_def sample_log_env_def)
  from log_files_bounded [OF _ _ this, of "[(''do-agent.1'', True), (''do-agent.2'', True), (''x'', True), (''do-agent.3'', True), (''do-agent.4'', True)]"
      "''/d''" "[LgPass sample_log_env]" LvInfo] this
  show ?thesis by (simp add: short_names_def Let_def)
qed

end
