(* ===== verification/DownloadState.thy ===== *)
theory DownloadState
  imports Errors
begin

text \<open>
  client-lite/src/download: the status record of a download (download_status.h), its property
  keys (download.h) and the tracker of retries and lack of progress (download_progress_tracker.h).
\<close>

section \<open>Status\<close>

datatype DownloadState =
    DS_Created
  | DS_Transferring
  | DS_Transferred
  | DS_Finalized
  | DS_Aborted
  | DS_Paused

record download_status =
  BytesTotal :: u64
  BytesTransferred :: u64
  State :: DownloadState
  Error :: hresult
  ExtendedError :: hresult

definition status_init :: download_status where
  "status_init = \<lparr>BytesTotal = 0, BytesTransferred = 0, State = DS_Created, Error = S_OK, ExtendedError = S_OK\<rparr>"

definition IsTransientError :: "download_status \<Rightarrow> bool" where
  "IsTransientError st \<longleftrightarrow> State st = DS_Paused \<and> Error st = S_OK \<and> FAILED (ExtendedError st)"

definition st_Transferring :: "download_status \<Rightarrow> download_status" where
  "st_Transferring st = st\<lparr>State := DS_Transferring, Error := S_OK, ExtendedError := S_OK\<rparr>"

definition st_Paused :: "hresult \<Rightarrow> hresult \<Rightarrow> download_status \<Rightarrow> download_status" where
  "st_Paused hrError hrExtendedError st = st\<lparr>State := DS_Paused, Error := hrError, ExtendedError := hrExtendedError\<rparr>"

definition st_Transferred :: "download_status \<Rightarrow> download_status" where
  "st_Transferred st = st\<lparr>State := DS_Transferred\<rparr>"

definition st_Finalized :: "download_status \<Rightarrow> download_status" where
  "st_Finalized st = st\<lparr>State := DS_Finalized\<rparr>"

definition st_Aborted :: "download_status \<Rightarrow> download_status" where
  "st_Aborted st = st\<lparr>State := DS_Aborted\<rparr>"

lemmas status_defs = st_Transferring_def st_Paused_def st_Transferred_def st_Finalized_def st_Aborted_def

datatype DownloadProperty =
    DP_Id | DP_Uri | DP_ContentId | DP_DisplayName | DP_LocalPath | DP_HttpCustomHeaders | DP_CostPolicy
  | DP_SecurityFlags | DP_CallbackFreqPercent | DP_CallbackFreqSeconds | DP_NoProgressTimeoutSeconds
  | DP_ForegroundPriority | DP_BlockingMode | DP_CallbackInterface | DP_StreamInterface | DP_SecurityContext
  | DP_NetworkToken | DP_CorrelationVector | DP_DecryptionInfo | DP_IntegrityCheckInfo
  | DP_IntegrityCheckMandatory | DP_TotalSizeBytes | DP_Invalid

section \<open>Progress tracker\<close>

text \<open>The delay is in seconds.\<close>

record progress_tracker =
  pt_nextRetryDelay :: int
  pt_numNoProgressIntervals :: u32
  pt_lastSeenBytesTransferred :: u64

definition g_progressTrackerCheckInterval :: int where "g_progressTrackerCheckInterval = 10"
definition g_progressTrackerMaxNoProgressIntervals :: u32 where "g_progressTrackerMaxNoProgressIntervals = 30"
definition g_progressTrackerMaxRetryDelay :: int where "g_progressTrackerMaxRetryDelay = 30"

definition pt_init :: progress_tracker where
  "pt_init = \<lparr>pt_nextRetryDelay = 1, pt_numNoProgressIntervals = 0, pt_lastSeenBytesTransferred = 0\<rparr>"

definition CheckProgress :: "u64 \<Rightarrow> u32 \<Rightarrow> progress_tracker \<Rightarrow> bool \<times> progress_tracker" where
  "CheckProgress newBytesTransferred maxNoProgressIntervals p =
     (let p1 = (if newBytesTransferred > pt_lastSeenBytesTransferred p
                then p\<lparr>pt_numNoProgressIntervals := 0, pt_lastSeenBytesTransferred := newBytesTransferred\<rparr>
                else p\<lparr>pt_numNoProgressIntervals := pt_numNoProgressIntervals p + 1\<rparr>)
      in (maxNoProgressIntervals \<le> pt_numNoProgressIntervals p1, p1))"

definition OnDownloadFailure :: "progress_tracker \<Rightarrow> progress_tracker" where
  "OnDownloadFailure p = p\<lparr>pt_nextRetryDelay := min g_progressTrackerMaxRetryDelay (pt_nextRetryDelay p * 2)\<rparr>"

definition ResetRetryDelay :: "progress_tracker \<Rightarrow> progress_tracker" where
  "ResetRetryDelay p = p\<lparr>pt_nextRetryDelay := 1\<rparr>"

definition pt_Reset :: "progress_tracker \<Rightarrow> progress_tracker" where
  "pt_Reset p = (ResetRetryDelay p)\<lparr>pt_numNoProgressIntervals := 0\<rparr>"

definition NextRetryDelay :: "progress_tracker \<Rightarrow> int" where
  "NextRetryDelay p = pt_nextRetryDelay p"

text \<open>
  After a reset the n-th failure in a row makes the retry wait 2 to the n seconds, at most
  thirty. The first wait is two seconds, not the one second the tracker is reset to.
\<close>

lemma retry_delay_doubles:
  "NextRetryDelay ((OnDownloadFailure ^^ n) (pt_Reset p)) = min 30 (2 ^ n)"
proof -
  have "(OnDownloadFailure ^^ n) q = q\<lparr>pt_nextRetryDelay := min 30 (2 ^ n)\<rparr>" if "pt_nextRetryDelay q = 1" for q
  proof (induction n)
    case 0
    then show ?case using that by simp
  next
    case (Suc n)
    have "min 30 (min 30 (2 ^ n) * 2) = min 30 (2 ^ Suc n :: int)" by simp
    with Suc show ?case by (simp add: OnDownloadFailure_def g_progressTrackerMaxRetryDelay_def)
  qed
  then show ?thesis by (simp add: pt_Reset_def ResetRetryDelay_def NextRetryDelay_def)
qed

text \<open>The samples of one download, and how many of the last ones brought no new bytes.\<close>

fun check_samples :: "u32 \<Rightarrow> progress_tracker \<Rightarrow> u64 list \<Rightarrow> progress_tracker" where
  "check_samples m p [] = p"
| "check_samples m p (b # bs) = check_samples m (snd (CheckProgress b m p)) bs"

fun stalled :: "u64 \<Rightarrow> nat \<Rightarrow> u64 list \<Rightarrow> nat" where
  "stalled seen n [] = n"
| "stalled seen n (b # bs) = (if seen < b then stalled b 0 bs else stalled seen (n + 1) bs)"

lemma check_samples_count:
  "pt_numNoProgressIntervals p = of_nat n \<Longrightarrow> pt_lastSeenBytesTransferred p = seen \<Longrightarrow>
   pt_numNoProgressIntervals (check_samples m p bs) = of_nat (stalled seen n bs)"
proof (induction bs arbitrary: p n seen)
  case (Cons b bs)
  show ?case
  proof (cases "seen < b")
    case True
    with Cons.prems Cons.IH [of "snd (CheckProgress b m p)" 0 b] show ?thesis
      by (simp add: CheckProgress_def Let_def)
  next
    case False
    with Cons.prems Cons.IH [of "snd (CheckProgress b m p)" "n + 1" seen] show ?thesis
      by (simp add: CheckProgress_def Let_def)
  qed
qed simp

lemma stalled_le: "stalled seen n bs \<le> n + length bs"
  by (induction seen n bs rule: stalled.induct) auto

text \<open>
  C34. The tracker reports a timeout at a sample exactly when the samples up to it end with at
  least the allowed number of intervals in which no new byte arrived.
\<close>

theorem progress_timeout:
  assumes "length bs + 1 < 2 ^ 32"
  shows "fst (CheckProgress b m (check_samples m pt_init bs)) \<longleftrightarrow> unat m \<le> stalled 0 0 (bs @ [b])"
proof -
  let ?p = "check_samples m pt_init (bs @ [b])"
  have app: "check_samples m p (xs @ [y]) = snd (CheckProgress y m (check_samples m p xs))" for p xs y
    by (induction xs arbitrary: p) auto
  have "fst (CheckProgress b m q) \<longleftrightarrow> m \<le> pt_numNoProgressIntervals (snd (CheckProgress b m q))" for q
    by (simp add: CheckProgress_def Let_def)
  then have 1: "fst (CheckProgress b m (check_samples m pt_init bs)) \<longleftrightarrow> m \<le> pt_numNoProgressIntervals ?p"
    by (simp add: app)
  have 2: "pt_numNoProgressIntervals ?p = of_nat (stalled 0 0 (bs @ [b]))"
    by (rule check_samples_count) (simp_all add: pt_init_def)
  have "stalled 0 0 (bs @ [b]) < 2 ^ 32" using stalled_le [of 0 0 "bs @ [b]"] assms by simp
  then have "unat (of_nat (stalled 0 0 (bs @ [b])) :: u32) = stalled 0 0 (bs @ [b])"
    by (simp add: unat_of_nat take_bit_nat_eq_self)
  with 1 2 show ?thesis by (simp add: word_le_nat_alt)
qed

theorem progress_timeout_witness:
  "fst (CheckProgress 5 2 (check_samples 2 pt_init [5, 5])) \<and> \<not> fst (CheckProgress 6 2 (check_samples 2 pt_init [5, 5]))"
  using progress_timeout [of "[5, 5]" 5 2] progress_timeout [of "[5, 5]" 6 2] by simp

end
