(* ===== verification/Threading.thy ===== *)
theory Threading
  imports Errors "HOL-Library.Multiset"
begin

text \<open>
  client-lite/src/threading: the timed task queue, the thread that runs it, the two kinds of
  events and the counter that waits for calls in flight. Time is the steady clock in nanoseconds
  and is an argument of the operations that read it. A multimap is the list of its entries in
  key order, equal keys in insertion order.
\<close>

section \<open>The task queue\<close>

type_synonym timepoint = int

definition MS :: int where "MS = 1000000"

definition timepoint_max :: timepoint where "timepoint_max = 9223372036854775807"

record ('t, 'g) tq_entry =
  tq_time :: timepoint
  tq_task :: 't
  tq_tag :: "'g option"

type_synonym ('t, 'g) task_queue = "('t, 'g) tq_entry list"

text \<open>\<open>multimap::emplace\<close> inserts at the upper bound of the key.\<close>

fun tq_emplace :: "('t, 'g) tq_entry \<Rightarrow> ('t, 'g) task_queue \<Rightarrow> ('t, 'g) task_queue" where
  "tq_emplace e [] = [e]"
| "tq_emplace e (x # xs) = (if tq_time x \<le> tq_time e then x # tq_emplace e xs else e # x # xs)"

definition tq_add :: "timepoint \<Rightarrow> 't \<Rightarrow> int \<Rightarrow> 'g option \<Rightarrow> ('t, 'g) task_queue \<Rightarrow> ('t, 'g) task_queue" where
  "tq_add now t delay tag q =
     (let adjustedDelay = max 0 delay;
          opTime = now + adjustedDelay * MS
      in tq_emplace \<lparr>tq_time = opTime, tq_task = t, tq_tag = tag\<rparr> q)"

definition tq_next_time :: "('t, 'g) task_queue \<Rightarrow> timepoint" where
  "tq_next_time q = (case q of e # _ \<Rightarrow> tq_time e | [] \<Rightarrow> timepoint_max)"

definition tq_add_front :: "timepoint \<Rightarrow> 't \<Rightarrow> 'g option \<Rightarrow> ('t, 'g) task_queue \<Rightarrow> ('t, 'g) task_queue" where
  "tq_add_front now t tag q =
     (let earliest = tq_next_time q;
          opTime = (if now < earliest then now - 1 * MS else earliest - 1 * MS)
      in tq_emplace \<lparr>tq_time = opTime, tq_task = t, tq_tag = tag\<rparr> q)"

definition tq_pop :: "timepoint \<Rightarrow> ('t, 'g) task_queue \<Rightarrow> ('t \<times> 'g option) option \<times> ('t, 'g) task_queue" where
  "tq_pop now q =
     (case q of
        e # es \<Rightarrow> (if tq_time e \<le> now then (Some (tq_task e, tq_tag e), es) else (None, q))
      | [] \<Rightarrow> (None, q))"

definition tq_remove :: "'g option \<Rightarrow> ('t, 'g) task_queue \<Rightarrow> ('t, 'g) task_queue" where
  "tq_remove tag q = (if tag = None then q else filter (\<lambda>e. tq_tag e \<noteq> tag) q)"

fun tq_exists :: "'g option \<Rightarrow> ('t, 'g) task_queue \<Rightarrow> bool" where
  "tq_exists None q = False"
| "tq_exists (Some g) q = list_ex (\<lambda>e. tq_tag e = Some g) q"

section \<open>What a timed queue promises\<close>

text \<open>
  The abstract queue is the list of pending submissions in the order they were made. Executing
  takes the entry with the least time, the earliest submitted one among equals.
\<close>

locale timed_queue =
  fixes put :: "'e \<Rightarrow> 'q \<Rightarrow> 'q"
    and entries :: "'q \<Rightarrow> 'e list"
    and drop_if :: "('e \<Rightarrow> bool) \<Rightarrow> 'q \<Rightarrow> 'q"
    and time :: "'e \<Rightarrow> int"
    and empty :: 'q
  assumes entries_empty: "entries empty = []"
    and entries_put: "entries q = sort_key time log \<Longrightarrow> entries (put e q) = sort_key time (log @ [e])"
    and entries_drop: "entries (drop_if P q) = filter (\<lambda>e. \<not> P e) (entries q)"
begin

text \<open>A queue is described by a log when its entries are the log sorted stably by time.\<close>

definition describes :: "'e list \<Rightarrow> 'q \<Rightarrow> bool" where
  "describes log q \<longleftrightarrow> entries q = sort_key time log"

lemma describes_empty: "describes [] empty"
  by (simp add: describes_def entries_empty)

lemma describes_put: "describes log q \<Longrightarrow> describes (log @ [e]) (put e q)"
  by (simp add: describes_def entries_put)

lemma describes_drop: "describes log q \<Longrightarrow> describes (filter (\<lambda>e. \<not> P e) log) (drop_if P q)"
  by (simp add: describes_def entries_drop filter_sort)

lemma describes_sorted: "describes log q \<Longrightarrow> sorted (map time (entries q))"
  by (simp add: describes_def)

lemma describes_set: "describes log q \<Longrightarrow> set (entries q) = set log"
  by (simp add: describes_def)

text \<open>Entries of one time are executed in the order of their submission.\<close>

lemma fifo_at_time:
  "describes log q \<Longrightarrow> filter (\<lambda>e. time e = t) (entries q) = filter (\<lambda>e. time e = t) log"
  by (simp add: describes_def sort_key_stable)

lemma head_least: "describes log q \<Longrightarrow> entries q = e # es \<Longrightarrow> x \<in> set log \<Longrightarrow> time e \<le> time x"
  using describes_sorted [of log q] describes_set [of log q] by (auto)

end

lemma tq_emplace_sort:
  "tq_emplace e (sort_key tq_time log) = sort_key tq_time (log @ [e])"
proof -
  have set_emplace: "mset (tq_emplace e q) = add_mset e (mset q)" for q
    by (induction e q rule: tq_emplace.induct) auto
  have sorted_emplace: "sorted (map tq_time q) \<Longrightarrow> sorted (map tq_time (tq_emplace e q))" for q
  proof (induction e q rule: tq_emplace.induct)
    case (2 e x xs)
    have "set (tq_emplace e xs) = insert e (set xs)" for xs :: "('a, 'b) task_queue"
      by (induction e xs rule: tq_emplace.induct) auto
    with 2 show ?case by auto
  qed simp
  have stable: "sorted (map tq_time q) \<Longrightarrow> filter (\<lambda>x. tq_time x = t) (tq_emplace e q)
      = filter (\<lambda>x. tq_time x = t) q @ (if tq_time e = t then [e] else [])" for q t
  proof (induction e q rule: tq_emplace.induct)
    case (2 e x xs)
    then have "tq_time e < tq_time x \<Longrightarrow> tq_time e = t \<Longrightarrow> filter (\<lambda>x. tq_time x = t) (x # xs) = []"
      by (auto simp: filter_empty_conv)
    with 2 show ?case by auto
  qed simp
  show ?thesis
  proof (rule properties_for_sort_key [symmetric])
    show "mset (tq_emplace e (sort_key tq_time log)) = mset (log @ [e])" by (simp add: set_emplace)
    show "sorted (map tq_time (tq_emplace e (sort_key tq_time log)))" by (simp add: sorted_emplace)
    show "filter (\<lambda>x. tq_time k = tq_time x) (tq_emplace e (sort_key tq_time log))
        = filter (\<lambda>x. tq_time k = tq_time x) (log @ [e])" for k
      using stable [of "sort_key tq_time log" "tq_time k"]
      by (simp add: eq_commute [of "tq_time k"] sort_key_stable)
  qed
qed

interpretation tq: timed_queue tq_emplace "\<lambda>q. q" "\<lambda>P q. filter (\<lambda>e. \<not> P e) q" tq_time "[]"
  by unfold_locales (auto simp: tq_emplace_sort)

section \<open>Runs of the queue\<close>

datatype ('t, 'g) tq_op =
    TqAdd timepoint 't int "'g option"
  | TqAddFront timepoint 't "'g option"
  | TqPop timepoint
  | TqRemove "'g option"

fun tq_step :: "('t, 'g) task_queue \<Rightarrow> ('t, 'g) tq_op \<Rightarrow> ('t \<times> 'g option) option \<times> ('t, 'g) task_queue" where
  "tq_step q (TqAdd now t delay tag) = (None, tq_add now t delay tag q)"
| "tq_step q (TqAddFront now t tag) = (None, tq_add_front now t tag q)"
| "tq_step q (TqPop now) = tq_pop now q"
| "tq_step q (TqRemove tag) = (None, tq_remove tag q)"

fun tq_run :: "('t, 'g) task_queue \<Rightarrow> ('t, 'g) tq_op list \<Rightarrow> ('t \<times> 'g option) option list \<times> ('t, 'g) task_queue" where
  "tq_run q [] = ([], q)"
| "tq_run q (x # xs) = (let (r, q') = tq_step q x; (rs, q'') = tq_run q' xs in (r # rs, q''))"

text \<open>
  The abstract machine keeps the submissions in the order they were made. Popping takes the first
  entry of least time if its time has come; a submission to the front gets a time one millisecond
  before both the present and every pending entry.
\<close>

definition log_least :: "('t, 'g) tq_entry list \<Rightarrow> timepoint" where
  "log_least log = (if log = [] then timepoint_max else tq_time (arg_min_list tq_time log))"

fun log_step :: "('t, 'g) tq_entry list \<Rightarrow> ('t, 'g) tq_op \<Rightarrow> ('t \<times> 'g option) option \<times> ('t, 'g) tq_entry list" where
  "log_step log (TqAdd now t delay tag) =
     (None, log @ [\<lparr>tq_time = now + max 0 delay * MS, tq_task = t, tq_tag = tag\<rparr>])"
| "log_step log (TqAddFront now t tag) =
     (None, log @ [\<lparr>tq_time = min now (log_least log) - MS, tq_task = t, tq_tag = tag\<rparr>])"
| "log_step log (TqPop now) =
     (let e = arg_min_list tq_time log
      in if log \<noteq> [] \<and> tq_time e \<le> now then (Some (tq_task e, tq_tag e), remove1 e log) else (None, log))"
| "log_step log (TqRemove tag) = (None, filter (\<lambda>e. tag = None \<or> tq_tag e \<noteq> tag) log)"

fun log_run :: "('t, 'g) tq_entry list \<Rightarrow> ('t, 'g) tq_op list \<Rightarrow> ('t \<times> 'g option) option list \<times> ('t, 'g) tq_entry list" where
  "log_run log [] = ([], log)"
| "log_run log (x # xs) = (let (r, log') = log_step log x; (rs, log'') = log_run log' xs in (r # rs, log''))"

lemma arg_min_filter:
  fixes f :: "'e \<Rightarrow> 'k::linorder"
  shows "log \<noteq> [] \<Longrightarrow> filter (\<lambda>x. f x = f (arg_min_list f log)) log
    = arg_min_list f log # filter (\<lambda>x. f x = f (arg_min_list f log)) (remove1 (arg_min_list f log) log)"
proof (induction log rule: induct_list012)
  case (3 x y zs)
  let ?m = "arg_min_list f (y # zs)"
  have eq: "arg_min_list f (x # y # zs) = (if f x \<le> f ?m then x else ?m)" by (simp add: Let_def)
  show ?case
  proof (cases "f x \<le> f ?m")
    case True
    with eq have "arg_min_list f (x # y # zs) = x" by simp
    then show ?thesis by simp
  next
    case False
    with eq have "arg_min_list f (x # y # zs) = ?m" "x \<noteq> ?m" "f x \<noteq> f ?m" by auto
    with 3(2) show ?thesis by (simp del: arg_min_list.simps)
  qed
qed auto

lemma sort_key_arg_min:
  fixes f :: "'e \<Rightarrow> 'k::linorder"
  assumes "log \<noteq> []"
  shows "sort_key f log = arg_min_list f log # sort_key f (remove1 (arg_min_list f log) log)"
proof (rule properties_for_sort_key)
  let ?m = "arg_min_list f log"
  have m: "?m \<in> set log" using assms by (rule arg_min_list_in)
  then show "mset (?m # sort_key f (remove1 ?m log)) = mset log" by simp
  have "\<forall>x \<in> set log. f ?m \<le> f x"
    using f_arg_min_list_f [OF assms, of f] by simp
  then show "sorted (map f (?m # sort_key f (remove1 ?m log)))"
    using notin_set_remove1 by fastforce
  have st: "filter (\<lambda>x. f k = f x) (sort_key f xs) = filter (\<lambda>x. f k = f x) xs" for k xs
    using sort_key_stable [of f "f k" xs] by (simp add: eq_commute [of "f k"])
  show "filter (\<lambda>x. f k = f x) (?m # sort_key f (remove1 ?m log)) = filter (\<lambda>x. f k = f x) log" for k
  proof (cases "f k = f ?m")
    case True
    with arg_min_filter [OF assms, of f] show ?thesis
      by (simp add: sort_key_stable eq_commute [of "f ?m"])
  next
    case False
    then have "filter (\<lambda>x. f k = f x) (remove1 ?m log) = filter (\<lambda>x. f k = f x) log"
      by (induction log) (auto simp del: arg_min_list.simps simp: filter_remove1 remove1_filter_not)
    with False show ?thesis by (simp add: st)
  qed
qed

lemma tq_next_time_log: "tq_next_time (sort_key tq_time log) = log_least log"
  by (cases "log = []") (simp_all add: tq_next_time_def log_least_def sort_key_arg_min)

lemma tq_step_refines:
  "tq_step (sort_key tq_time log) x = (r, q) \<Longrightarrow> \<exists>log'. log_step log x = (r, log') \<and> q = sort_key tq_time log'"
proof (cases x)
  case (TqAddFront now t tag)
  have "(if now < log_least log then now - 1 * MS else log_least log - 1 * MS) = min now (log_least log) - MS"
    by simp
  then show "tq_step (sort_key tq_time log) x = (r, q) \<Longrightarrow> ?thesis"
    using TqAddFront by (simp add: tq_add_front_def tq_next_time_log tq_emplace_sort Let_def)
next
  case (TqPop now)
  then show "tq_step (sort_key tq_time log) x = (r, q) \<Longrightarrow> ?thesis"
    by (cases "log = []") (auto simp: tq_pop_def sort_key_arg_min Let_def split: if_splits)
qed (auto simp: tq_add_def tq_emplace_sort tq_remove_def filter_sort Let_def)

lemma tq_run_refines:
  "tq_run (sort_key tq_time log) xs = (rs, q) \<Longrightarrow> \<exists>log'. log_run log xs = (rs, log') \<and> q = sort_key tq_time log'"
proof (induction xs arbitrary: log rs)
  case (Cons x xs)
  obtain r q1 where s: "tq_step (sort_key tq_time log) x = (r, q1)" by (cases "tq_step (sort_key tq_time log) x")
  obtain log1 where l: "log_step log x = (r, log1)" "q1 = sort_key tq_time log1"
    using tq_step_refines [OF s] by auto
  obtain rs1 q2 where n: "tq_run q1 xs = (rs1, q2)" by (cases "tq_run q1 xs")
  with Cons.IH [of log1 rs1] Cons.prems s l show ?case by auto
qed simp

text \<open>
  C11. The task queue implements its abstract log: any sequence of scheduling, front scheduling,
  removal and popping, started on an empty queue, pops exactly the tasks that taking the first
  submitted entry of least time would, and leaves the log sorted stably by time.
\<close>

theorem task_queue_refines_log:
  "fst (tq_run [] xs) = fst (log_run [] xs) \<and> snd (tq_run [] xs) = sort_key tq_time (snd (log_run [] xs))"
  using tq_run_refines [of "[]" xs "fst (tq_run [] xs)" "snd (tq_run [] xs)"] by auto

lemma tq_add_front_head:
  assumes "sorted (map tq_time q)"
  shows "\<exists>e. tq_add_front now t tag q = e # q \<and> tq_task e = t \<and> tq_tag e = tag \<and> tq_time e < now"
  using assms by (cases q) (auto simp: tq_add_front_def tq_next_time_def MS_def timepoint_max_def Let_def)

lemma tq_step_sorted: "sorted (map tq_time q) \<Longrightarrow> sorted (map tq_time (snd (tq_step q x)))"
proof -
  assume s: "sorted (map tq_time q)"
  then have "sort_key tq_time q = q" by (rule sort_key_id_if_sorted)
  then show ?thesis
    using tq_step_refines [of q x "fst (tq_step q x)" "snd (tq_step q x)"] by auto
qed

interpretation tq_machine: inductive_machine "[]" "\<lambda>q x. snd (tq_step q x)" "\<lambda>q. sorted (map tq_time q)"
  by unfold_locales (simp_all add: tq_step_sorted)

lemma tq_run_steps: "snd (tq_run q xs) = run_steps (\<lambda>q x. snd (tq_step q x)) q xs"
  by (induction xs arbitrary: q) (simp_all add: case_prod_unfold Let_def)

lemma tq_sorted: "sorted (map tq_time (snd (tq_run [] xs)))"
  unfolding tq_run_steps by (rule tq_machine.run_inv)

section \<open>The task thread\<close>

text \<open>
  One turn of \<open>_DoPoll\<close> at time \<open>now\<close>: run the task popped, wait for a notification, or wait
  until the next task is due. A notification or a spurious wake-up leads to the next turn.
\<close>

datatype ('t, 'g) poll =
    PollExit
  | PollRun 't "'g option"
  | PollNothing
  | PollWait
  | PollWaitFor int

definition poll_step :: "bool \<Rightarrow> timepoint \<Rightarrow> ('t, 'g) task_queue \<Rightarrow> ('t, 'g) poll \<times> ('t, 'g) task_queue" where
  "poll_step running now q =
     (if \<not> running then (PollExit, q)
      else let next = tq_next_time q in
        if next \<le> now then
          (case tq_pop now q of
             (Some (t, tag), q') \<Rightarrow> (PollRun t tag, q')
           | (None, q') \<Rightarrow> (PollNothing, q'))
        else if next = timepoint_max then (PollWait, q)
        else (PollWaitFor (next - now), q))"

definition sched :: "timepoint \<Rightarrow> 't \<Rightarrow> int \<Rightarrow> 'g option \<Rightarrow> ('t, 'g) task_queue \<Rightarrow> ('t, 'g) task_queue" where
  "sched now t delay tag q = tq_add now t delay tag q"

definition sched_replace :: "timepoint \<Rightarrow> 't \<Rightarrow> int \<Rightarrow> 'g \<Rightarrow> ('t, 'g) task_queue \<Rightarrow> ('t, 'g) task_queue" where
  "sched_replace now t delay tag q = tq_add now t delay (Some tag) (tq_remove (Some tag) q)"

definition sched_immediate :: "timepoint \<Rightarrow> 't \<Rightarrow> 'g option \<Rightarrow> ('t, 'g) task_queue \<Rightarrow> ('t, 'g) task_queue" where
  "sched_immediate now t tag q = tq_add_front now t tag q"

definition unschedule :: "'g option \<Rightarrow> ('t, 'g) task_queue \<Rightarrow> ('t, 'g) task_queue" where
  "unschedule tag q = (if tag \<noteq> None then tq_remove tag q else q)"

definition is_scheduled :: "'g option \<Rightarrow> ('t, 'g) task_queue \<Rightarrow> bool" where
  "is_scheduled tag q = tq_exists tag q"

text \<open>
  \<open>SchedBlock\<close> runs \<open>func\<close> on the task thread and waits for it. Called from another thread, an
  exception is turned into its HRESULT there and thrown again here.
\<close>

definition sched_block :: "bool \<Rightarrow> ('s, unit) sm \<Rightarrow> ('s, unit) sm" where
  "sched_block is_current_thread func s =
     (if is_current_thread then func s
      else let (hr, s') = catch_return (sthen func (sret S_OK)) s
           in sthen (throw_if_failed hr) (sret ()) s')"

lemma sched_block_True [simp]: "sched_block True func s = func s"
  by (simp add: sched_block_def)

lemma sched_block_ok: "func s = (Inr u, s') \<Longrightarrow> sched_block b func s = (Inr (), s')"
  by (cases b) (simp_all add: sched_block_def catch_return_def res_defs throw_if_failed_run)

lemma sched_block_error: "func s = (Inl e, s') \<Longrightarrow> sched_block False func s = (Inl (hr_exn (caught e)), s')"
  by (simp add: sched_block_def catch_return_def res_defs throw_if_failed_run)

lemma sched_block_state: "snd (sched_block b func s) = snd (func s)"
proof (cases "func s")
  case (Pair r s')
  then show ?thesis
    by (cases r; cases b) (simp_all add: sched_block_ok sched_block_error)
qed

lemma skeeps_sched_block [intro]: "skeeps P func \<Longrightarrow> skeeps P (sched_block b func)"
  by (simp add: skeeps_def sched_block_state)

text \<open>
  A call that blocks on the task thread fails exactly when the task fails, reports the
  HRESULT the task's exception maps to, and leaves the state the task left.
\<close>

theorem sched_block_reports:
  "snd (sched_block b func s) = snd (func s) \<and>
   (case fst (func s) of
      Inr _ \<Rightarrow> fst (sched_block b func s) = Inr ()
    | Inl e \<Rightarrow> (\<exists>e'. fst (sched_block b func s) = Inl e' \<and> caught e' = caught e))"
proof (cases "func s")
  case (Pair r s')
  then show ?thesis
    by (cases r; cases b) (simp_all add: sched_block_ok sched_block_error)
qed

text \<open>
  A task scheduled immediately is the next one the thread runs, at once, whatever is
  pending; the pending tasks stay as they were.
\<close>

theorem immediate_task_runs_next:
  "poll_step True now (sched_immediate now t tag (snd (tq_run [] xs))) = (PollRun t tag, snd (tq_run [] xs))"
proof -
  obtain e where e: "tq_add_front now t tag (snd (tq_run [] xs)) = e # snd (tq_run [] xs)"
    and "tq_task e = t" "tq_tag e = tag" "tq_time e < now"
    using tq_add_front_head [OF tq_sorted, of now t tag xs] by auto
  then show ?thesis
    by (simp add: poll_step_def sched_immediate_def tq_next_time_def tq_pop_def Let_def)
qed

text \<open>
  After a task has been rescheduled under its tag exactly one entry carries the tag, and it
  is due after the given delay; after unscheduling no entry carries it.
\<close>

theorem sched_replace_single:
  "filter (\<lambda>e. tq_tag e = Some g) (sched_replace now t delay g q)
     = [\<lparr>tq_time = now + max 0 delay * MS, tq_task = t, tq_tag = Some g\<rparr>] \<and>
   is_scheduled (Some g) (sched_replace now t delay g q) \<and>
   \<not> is_scheduled (Some g) (unschedule (Some g) q)"
proof -
  have put: "filter P (tq_emplace e q) = (if P e then filter P (tq_emplace e q) else filter P q)" for P e and q :: "('a, 'b) task_queue"
    by (induction e q rule: tq_emplace.induct) auto
  have none: "filter P q = [] \<Longrightarrow> P e \<Longrightarrow> filter P (tq_emplace e q) = [e]" for P e and q :: "('a, 'b) task_queue"
    by (induction e q rule: tq_emplace.induct) (auto split: if_splits)
  let ?P = "\<lambda>e. tq_tag e = Some g"
  have f: "filter ?P (sched_replace now t delay g q) = [\<lparr>tq_time = now + max 0 delay * MS, tq_task = t, tq_tag = Some g\<rparr>]"
    unfolding sched_replace_def tq_add_def tq_remove_def Let_def
    by (rule none) (auto simp: filter_empty_conv)
  then have "\<exists>e \<in> set (sched_replace now t delay g q). ?P e"
    using filter_empty_conv [of ?P "sched_replace now t delay g q"] by auto
  with f show ?thesis
    by (auto simp: is_scheduled_def unschedule_def tq_remove_def list_ex_iff)
qed

section \<open>Events and the call counter\<close>

text \<open>
  Waiting on an event while other threads act on it: \<open>EvSet\<close> and \<open>EvReset\<close> are their calls,
  \<open>EvWake\<close> a moment at which the waiter owns the lock and tests the predicate. The end of the
  list is the timeout, where \<open>wait_for\<close> tests the predicate once more.
\<close>

datatype ev_step = EvSet | EvReset | EvWake

definition SetEvent :: "bool \<Rightarrow> bool" where "SetEvent is_signaled = True"
definition ResetEvent :: "bool \<Rightarrow> bool" where "ResetEvent is_signaled = False"
definition IsSignaled :: "bool \<Rightarrow> bool" where "IsSignaled is_signaled = is_signaled"

fun cv_wait_for :: "bool \<Rightarrow> ev_step list \<Rightarrow> bool \<times> bool" where
  "cv_wait_for s [] = (s, s)"
| "cv_wait_for s (EvSet # xs) = cv_wait_for (SetEvent s) xs"
| "cv_wait_for s (EvReset # xs) = cv_wait_for (ResetEvent s) xs"
| "cv_wait_for s (EvWake # xs) = (if s then (True, s) else cv_wait_for s xs)"

definition auto_wait :: "bool \<Rightarrow> ev_step list \<Rightarrow> bool \<times> bool" where
  "auto_wait is_signaled others =
     (if \<not> is_signaled
      then (case cv_wait_for is_signaled others of
              (False, s) \<Rightarrow> (False, s)
            | (True, s) \<Rightarrow> (True, False))
      else (True, False))"

definition manual_wait :: "bool \<Rightarrow> ev_step list \<Rightarrow> bool \<times> bool" where
  "manual_wait is_signaled others =
     (if \<not> is_signaled
      then (case cv_wait_for is_signaled others of
              (False, s) \<Rightarrow> (False, s)
            | (True, s) \<Rightarrow> (True, s))
      else (True, is_signaled))"

record waitable_counter =
  wc_event :: bool
  wc_count :: u32

definition wc_init :: waitable_counter where
  "wc_init = \<lparr>wc_event = True, wc_count = 0\<rparr>"

definition wc_enter :: "waitable_counter \<Rightarrow> waitable_counter" where
  "wc_enter c =
     (let c1 = c\<lparr>wc_count := wc_count c + 1\<rparr>
      in if wc_count c1 = 1 then c1\<lparr>wc_event := ResetEvent (wc_event c1)\<rparr> else c1)"

definition wc_leave :: "waitable_counter \<Rightarrow> waitable_counter" where
  "wc_leave c =
     (let c1 = c\<lparr>wc_count := wc_count c - 1\<rparr>
      in if wc_count c1 = 0 then c1\<lparr>wc_event := SetEvent (wc_event c1)\<rparr> else c1)"

text \<open>
  Every \<open>Enter\<close> hands out a scope whose destruction leaves once. A trace of entries and exits
  is possible when no scope leaves before it entered.
\<close>

datatype wc_op = WcEnter | WcLeave

fun wc_step :: "waitable_counter \<Rightarrow> wc_op \<Rightarrow> waitable_counter" where
  "wc_step c WcEnter = wc_enter c"
| "wc_step c WcLeave = wc_leave c"

fun live_scopes :: "nat \<Rightarrow> wc_op list \<Rightarrow> nat option" where
  "live_scopes n [] = Some n"
| "live_scopes n (WcEnter # xs) = (if n + 1 < 2 ^ 32 then live_scopes (n + 1) xs else None)"
| "live_scopes n (WcLeave # xs) = (if 0 < n then live_scopes (n - 1) xs else None)"

definition wc_inv :: "nat \<Rightarrow> waitable_counter \<Rightarrow> bool" where
  "wc_inv n c \<longleftrightarrow> n < 2 ^ 32 \<and> wc_count c = of_nat n \<and> (wc_event c \<longleftrightarrow> n = 0)"

lemma of_nat_u32_eq: "n < 2 ^ 32 \<Longrightarrow> m < 2 ^ 32 \<Longrightarrow> (of_nat n :: u32) = of_nat m \<longleftrightarrow> n = m"
  by (simp add: word_of_nat_eq_iff take_bit_nat_eq_self)

lemma wc_inv_enter: "wc_inv n c \<Longrightarrow> n + 1 < 2 ^ 32 \<Longrightarrow> wc_inv (n + 1) (wc_enter c)"
  using of_nat_u32_eq [of "n + 1" 1]
  by (auto simp: wc_inv_def wc_enter_def Let_def ResetEvent_def)

lemma wc_inv_leave: "wc_inv n c \<Longrightarrow> 0 < n \<Longrightarrow> wc_inv (n - 1) (wc_leave c)"
  using of_nat_u32_eq [of "n - 1" 0]
  by (auto simp: wc_inv_def wc_leave_def Let_def SetEvent_def)

lemma wc_inv_run: "wc_inv n c \<Longrightarrow> live_scopes n xs = Some m \<Longrightarrow> wc_inv m (run_steps wc_step c xs)"
  by (induction n xs arbitrary: c rule: live_scopes.induct)
    (auto split: if_splits dest: wc_inv_enter wc_inv_leave)

text \<open>
  The counter's event is signaled exactly when no scope is alive, after any possible
  sequence of entries and exits, so waiting for it returns at once then and only then.
\<close>

theorem waitable_counter_event:
  assumes "live_scopes 0 xs = Some n"
  shows "wc_count (run_steps wc_step wc_init xs) = of_nat n \<and>
         (IsSignaled (wc_event (run_steps wc_step wc_init xs)) \<longleftrightarrow> n = 0) \<and>
         fst (manual_wait (wc_event (run_steps wc_step wc_init xs)) []) = (n = 0)"
proof -
  have "wc_inv 0 wc_init" by (simp add: wc_inv_def wc_init_def)
  then have "wc_inv n (run_steps wc_step wc_init xs)" using assms by (rule wc_inv_run)
  then show ?thesis by (auto simp: wc_inv_def IsSignaled_def manual_wait_def)
qed

theorem waitable_counter_event_witness:
  "\<not> IsSignaled (wc_event (run_steps wc_step wc_init [WcEnter, WcEnter, WcLeave])) \<and>
   IsSignaled (wc_event (run_steps wc_step wc_init [WcEnter, WcEnter, WcLeave, WcLeave]))"
  using waitable_counter_event [of "[WcEnter, WcEnter, WcLeave]" 1]
    waitable_counter_event [of "[WcEnter, WcEnter, WcLeave, WcLeave]" 0] by simp

end
