(* ===== verification/Curl.thy ===== *)
theory Curl
  imports Threading
begin

text \<open>
  client-lite/src/util/do_curl_wrappers: the set of transfers one worker thread drives with a curl
  multi handle. Clients add and remove easy handles under the lock; the worker takes them over at
  the top of its loop and reports completed transfers. libcurl appears as the calls made to it and
  as the results its functions return, which are arguments.
\<close>

section \<open>State\<close>

text \<open>An easy handle is its address, 0 the null pointer; the callback and its data are opaque.\<close>

type_synonym easy = nat

record 'u handle_data =
  hd_easyHandle :: easy
  hd_user :: 'u

text \<open>\<open>wh_id\<close> is the identity of the shared object whose event a remover waits for.\<close>

record 'u wrapped_handle =
  wh_d :: "'u handle_data"
  wh_id :: nat

datatype multi_call = MultiAdd easy | MultiRemove easy | MultiCleanup

record 'u curl_requests =
  cr_toAdd :: "'u handle_data list"
  cr_toRemove :: "easy list"
  cr_active :: "'u wrapped_handle list"
  cr_keepRunning :: bool
  cr_signaled :: "nat list"
  cr_nextId :: nat
  cr_calls :: "multi_call list"
  cr_callbacks :: "('u \<times> int) list"

definition curl_init :: "bool \<Rightarrow> 'u curl_requests res" where
  "curl_init multi_ok =
     (if \<not> multi_ok then Inl (hr_exn E_OUTOFMEMORY)
      else Inr \<lparr>cr_toAdd = [], cr_toRemove = [], cr_active = [], cr_keepRunning = True,
                cr_signaled = [], cr_nextId = 0, cr_calls = [], cr_callbacks = []\<rparr>)"

definition hd_is :: "'u handle_data \<Rightarrow> easy \<Rightarrow> bool" where
  "hd_is d eh \<longleftrightarrow> hd_easyHandle d \<noteq> 0 \<and> hd_easyHandle d = eh"

definition wh_is :: "'u wrapped_handle \<Rightarrow> easy \<Rightarrow> bool" where
  "wh_is w eh \<longleftrightarrow> hd_easyHandle (wh_d w) \<noteq> 0 \<and> hd_easyHandle (wh_d w) = eh"

section \<open>Active handles\<close>

definition active_get :: "easy \<Rightarrow> 'u curl_requests \<Rightarrow> 'u wrapped_handle option" where
  "active_get eh s = List.find (\<lambda>w. wh_is w eh) (cr_active s)"

definition active_add :: "'u handle_data \<Rightarrow> 'u curl_requests \<Rightarrow> 'u curl_requests" where
  "active_add h s =
     (if active_get (hd_easyHandle h) s = None
      then s\<lparr>cr_active := cr_active s @ [\<lparr>wh_d = h, wh_id = cr_nextId s\<rparr>],
             cr_nextId := cr_nextId s + 1,
             cr_calls := cr_calls s @ [MultiAdd (hd_easyHandle h)]\<rparr>
      else s)"

fun erase_first :: "('a \<Rightarrow> bool) \<Rightarrow> 'a list \<Rightarrow> 'a list" where
  "erase_first P [] = []"
| "erase_first P (x # xs) = (if P x then xs else x # erase_first P xs)"

definition active_erase :: "easy \<Rightarrow> 'u wrapped_handle \<Rightarrow> 'u curl_requests \<Rightarrow> 'u curl_requests" where
  "active_erase eh w s =
     s\<lparr>cr_calls := cr_calls s @ [MultiRemove (hd_easyHandle (wh_d w))],
       cr_signaled := wh_id w # cr_signaled s,
       cr_active := erase_first (\<lambda>w. wh_is w eh) (cr_active s)\<rparr>"

definition active_remove :: "easy \<Rightarrow> 'u curl_requests \<Rightarrow> 'u curl_requests" where
  "active_remove eh s =
     (case active_get eh s of None \<Rightarrow> s | Some w \<Rightarrow> active_erase eh w s)"

definition active_remove_all :: "'u curl_requests \<Rightarrow> 'u curl_requests" where
  "active_remove_all s =
     s\<lparr>cr_calls := cr_calls s @ map (\<lambda>w. MultiRemove (hd_easyHandle (wh_d w))) (cr_active s),
       cr_signaled := rev (map wh_id (cr_active s)) @ cr_signaled s,
       cr_active := []\<rparr>"

text \<open>
  Completing a handle that is not active dereferences the end iterator, written as \<open>None\<close>.
\<close>

definition active_complete :: "easy \<Rightarrow> int \<Rightarrow> 'u curl_requests \<Rightarrow> 'u curl_requests option" where
  "active_complete eh result s =
     (case active_get eh s of
        None \<Rightarrow> None
      | Some w \<Rightarrow> Some (active_erase eh w (s\<lparr>cr_callbacks := cr_callbacks s @ [(hd_user (wh_d w), result)]\<rparr>)))"

section \<open>Calls of the clients\<close>

definition curl_Add :: "'u handle_data \<Rightarrow> ('u curl_requests, unit) sm" where
  "curl_Add h s =
     (if \<not> cr_keepRunning s then throw_hr E_NOT_VALID_STATE s
      else if list_ex (\<lambda>d. hd_is d (hd_easyHandle h)) (cr_toAdd s)
      then throw_hr (HRESULT_FROM_WIN32 ERROR_ALREADY_EXISTS) s
      else (Inr (), s\<lparr>cr_toAdd := cr_toAdd s @ [h]\<rparr>))"

text \<open>The result is the event \<open>Remove\<close> waits for after it has released the lock.\<close>

definition curl_Remove :: "easy \<Rightarrow> 'u curl_requests \<Rightarrow> nat option \<times> 'u curl_requests" where
  "curl_Remove eh s =
     (let s1 = s\<lparr>cr_toAdd := filter (\<lambda>d. \<not> hd_is d eh) (cr_toAdd s)\<rparr>
      in case active_get eh s1 of
           None \<Rightarrow> (None, s1)
         | Some w \<Rightarrow> (Some (wh_id w), if eh \<notin> set (cr_toRemove s1) then s1\<lparr>cr_toRemove := cr_toRemove s1 @ [eh]\<rparr> else s1))"

section \<open>The worker\<close>

datatype work = WorkExit | WorkWait | WorkPerform

definition take_over :: "'u curl_requests \<Rightarrow> 'u curl_requests" where
  "take_over s =
     (let s1 = fold active_add (cr_toAdd s) s;
          s2 = s1\<lparr>cr_toAdd := []\<rparr>;
          s3 = fold active_remove (cr_toRemove s2) s2
      in s3\<lparr>cr_toRemove := []\<rparr>)"

definition do_work_top :: "'u curl_requests \<Rightarrow> work \<times> 'u curl_requests" where
  "do_work_top s =
     (if \<not> cr_keepRunning s then (WorkExit, s)
      else let s1 = take_over s
           in (if cr_active s1 = [] then WorkWait else WorkPerform, s1))"

text \<open>The predicate of the condition variable the worker waits on when no handle is active.\<close>

definition work_wakes :: "'u curl_requests \<Rightarrow> bool" where
  "work_wakes s \<longleftrightarrow> \<not> cr_keepRunning s \<or> cr_toAdd s \<noteq> []"

record curl_msg =
  cm_done :: bool
  cm_easy :: easy
  cm_result :: int

fun check_completed :: "curl_msg list \<Rightarrow> 'u curl_requests \<Rightarrow> 'u curl_requests option" where
  "check_completed [] s = Some s"
| "check_completed (m # ms) s =
     (case (if cm_done m then active_complete (cm_easy m) (cm_result m) s else Some s) of
        None \<Rightarrow> None
      | Some s1 \<Rightarrow> check_completed ms s1)"

text \<open>
  One iteration of \<open>_PerformTransferTasks\<close>: what \<open>select\<close> and \<open>curl_multi_perform\<close> return, the
  messages \<open>curl_multi_info_read\<close> hands out and the time spent so far.
\<close>

record perform_input =
  pi_timeout :: int
  pi_maxfd :: int
  pi_select :: int
  pi_perform_ok :: bool
  pi_running :: int
  pi_msgs :: "curl_msg list"
  pi_elapsed :: int

definition select_timeout :: "perform_input \<Rightarrow> int \<times> int" where
  "select_timeout i =
     (let t = (if pi_timeout i < 0 then 1000 else pi_timeout i) in (t div 1000, (t mod 1000) * 1000))"

definition perform_iteration :: "perform_input \<Rightarrow> int \<Rightarrow> 'u curl_requests \<Rightarrow> (int \<times> 'u curl_requests) option" where
  "perform_iteration i numRunning s =
     (let selectResult = (if pi_maxfd i = - 1 then 0 else pi_select i)
      in if selectResult = - 1 then Some (numRunning, s)
         else if pi_perform_ok i then
           (if pi_running i < int (length (cr_active s))
            then map_option (\<lambda>s'. (pi_running i, s')) (check_completed (pi_msgs i) s)
            else Some (pi_running i, s))
         else Some (pi_running i, s))"

definition perform_continues :: "perform_input \<Rightarrow> int \<Rightarrow> bool" where
  "perform_continues i numRunning \<longleftrightarrow> 0 < numRunning \<and> pi_elapsed i < 2 * 1000000000"

text \<open>The loop, driven by the inputs of its iterations; the result says whether it has returned.\<close>

fun perform_transfer :: "perform_input list \<Rightarrow> int \<Rightarrow> 'u curl_requests \<Rightarrow> (bool \<times> 'u curl_requests) option" where
  "perform_transfer [] n s = Some (False, s)"
| "perform_transfer (i # is) n s =
     (case perform_iteration i n s of
        None \<Rightarrow> None
      | Some (n', s') \<Rightarrow> if perform_continues i n' then perform_transfer is n' s' else Some (True, s'))"

definition curl_stop :: "'u curl_requests \<Rightarrow> 'u curl_requests" where
  "curl_stop s = s\<lparr>cr_keepRunning := False\<rparr>"

text \<open>The rest of the destructor, after the worker has been joined.\<close>

definition curl_cleanup :: "'u curl_requests \<Rightarrow> 'u curl_requests" where
  "curl_cleanup s =
     (let s1 = active_remove_all s
      in s1\<lparr>cr_toAdd := [], cr_toRemove := [], cr_calls := cr_calls s1 @ [MultiCleanup]\<rparr>)"

section \<open>Runs\<close>

text \<open>
  The lock makes every client call and every region of the worker one step. \<open>CeIter\<close> is an
  iteration of the transfer loop with the running count it starts from.
\<close>

datatype 'u curl_event =
    CeAdd "'u handle_data"
  | CeRemove easy
  | CeTop
  | CeIter perform_input int
  | CeStop

fun curl_step :: "'u curl_requests \<Rightarrow> 'u curl_event \<Rightarrow> 'u curl_requests option" where
  "curl_step s (CeAdd h) = Some (snd (curl_Add h s))"
| "curl_step s (CeRemove eh) = Some (snd (curl_Remove eh s))"
| "curl_step s CeTop = Some (snd (do_work_top s))"
| "curl_step s (CeIter i n) = map_option snd (perform_iteration i n s)"
| "curl_step s CeStop = Some (curl_stop s)"

fun curl_run :: "'u curl_requests \<Rightarrow> 'u curl_event list \<Rightarrow> 'u curl_requests option" where
  "curl_run s [] = Some s"
| "curl_run s (e # es) = Option.bind (curl_step s e) (\<lambda>s'. curl_run s' es)"

text \<open>
  What libcurl documents: a completion message names an easy handle that has been added and not
  removed, and each one is reported once. Clients pass handles they have created.
\<close>

definition done_easies :: "curl_msg list \<Rightarrow> easy list" where
  "done_easies ms = map cm_easy (filter cm_done ms)"

definition active_easies :: "'u curl_requests \<Rightarrow> easy list" where
  "active_easies s = map (\<lambda>w. hd_easyHandle (wh_d w)) (cr_active s)"

fun curl_env_ok :: "'u curl_requests \<Rightarrow> 'u curl_event \<Rightarrow> bool" where
  "curl_env_ok s (CeAdd h) = (hd_easyHandle h \<noteq> 0)"
| "curl_env_ok s (CeRemove eh) = (eh \<noteq> 0)"
| "curl_env_ok s (CeIter i n) = (distinct (done_easies (pi_msgs i)) \<and> set (done_easies (pi_msgs i)) \<subseteq> set (active_easies s))"
| "curl_env_ok s _ = True"

fun curl_follows :: "'u curl_requests \<Rightarrow> 'u curl_event list \<Rightarrow> bool" where
  "curl_follows s [] = True"
| "curl_follows s (e # es) = (curl_env_ok s e \<and> (case curl_step s e of None \<Rightarrow> True | Some s' \<Rightarrow> curl_follows s' es))"

text \<open>The easy handles that the calls made so far leave in the multi handle.\<close>

fun multi_set :: "multi_call list \<Rightarrow> easy list \<Rightarrow> easy list" where
  "multi_set [] xs = xs"
| "multi_set (MultiAdd e # cs) xs = multi_set cs (xs @ [e])"
| "multi_set (MultiRemove e # cs) xs = multi_set cs (remove1 e xs)"
| "multi_set (MultiCleanup # cs) xs = multi_set cs xs"

definition curl_inv :: "'u curl_requests \<Rightarrow> bool" where
  "curl_inv s \<longleftrightarrow>
     distinct (active_easies s) \<and> 0 \<notin> set (active_easies s) \<and>
     distinct (map wh_id (cr_active s)) \<and>
     set (map wh_id (cr_active s)) \<inter> set (cr_signaled s) = {} \<and>
     set (map wh_id (cr_active s)) \<union> set (cr_signaled s) = {..<cr_nextId s} \<and>
     distinct (map hd_easyHandle (cr_toAdd s)) \<and> 0 \<notin> set (map hd_easyHandle (cr_toAdd s)) \<and>
     multi_set (cr_calls s) [] = active_easies s"

lemma multi_set_append: "multi_set (xs @ ys) m = multi_set ys (multi_set xs m)"
  by (induction xs m rule: multi_set.induct) auto

lemma active_get_None: "curl_inv s \<Longrightarrow> eh \<noteq> 0 \<Longrightarrow> active_get eh s = None \<longleftrightarrow> eh \<notin> set (active_easies s)"
  by (auto simp: active_get_def find_None_iff wh_is_def active_easies_def curl_inv_def)

lemma active_get_Some:
  "active_get eh s = Some w \<Longrightarrow> w \<in> set (cr_active s) \<and> hd_easyHandle (wh_d w) = eh \<and> eh \<noteq> 0"
  by (auto simp: active_get_def find_Some_iff wh_is_def)

lemma erase_first_easy:
  assumes "distinct (map f xs)" "w \<in> set xs" "P w" "\<And>x. P x \<longleftrightarrow> f x = f w"
  shows "erase_first P xs = filter (\<lambda>x. f x \<noteq> f w) xs" "map f (erase_first P xs) = remove1 (f w) (map f xs)"
    "set (erase_first P xs) = set xs - {w}"
proof -
  show e: "erase_first P xs = filter (\<lambda>x. f x \<noteq> f w) xs"
    using assms(1,4)
  proof (induction xs)
    case (Cons x xs)
    show ?case
    proof (cases "P x")
      case True
      then have fx: "f x = f w" using assms(4) by blast
      with Cons.prems have "f w \<notin> f ` set xs" by auto
      then have "filter (\<lambda>x. f x \<noteq> f w) xs = xs" by (intro filter_True ballI) (metis imageI)
      with True fx show ?thesis by simp
    next
      case False
      then have "f x \<noteq> f w" using assms(4) by blast
      with False Cons show ?thesis by simp
    qed
  qed simp
  show "map f (erase_first P xs) = remove1 (f w) (map f xs)"
    unfolding e using assms(1) by (simp add: distinct_remove1_removeAll removeAll_filter_not_eq filter_map comp_def eq_commute)
  have "x \<in> set xs \<Longrightarrow> f x = f w \<Longrightarrow> x = w" for x
    using assms(1,2) by (auto simp: distinct_map inj_on_def)
  then show "set (erase_first P xs) = set xs - {w}"
    unfolding e using assms(2) by auto
qed

lemma active_erase_facts:
  assumes "curl_inv s" "active_get eh s = Some w"
  shows "active_easies (active_erase eh w s) = remove1 eh (active_easies s)"
    and "set (cr_active (active_erase eh w s)) = set (cr_active s) - {w}"
    and "curl_inv (active_erase eh w s)"
proof -
  note w = active_get_Some [OF assms(2)]
  let ?f = "\<lambda>w. hd_easyHandle (wh_d w)"
  have d: "distinct (map ?f (cr_active s))" using assms(1) by (simp add: curl_inv_def active_easies_def)
  have P: "wh_is x eh \<longleftrightarrow> ?f x = ?f w" for x using w by (auto simp: wh_is_def)
  have mw: "w \<in> set (cr_active s)" and Pw: "wh_is w eh" using w P by auto
  note e = erase_first_easy [where f = ?f and P = "\<lambda>w. wh_is w eh", OF d mw Pw P]
  show 1: "active_easies (active_erase eh w s) = remove1 eh (active_easies s)"
    using e(2) w by (simp add: active_easies_def active_erase_def)
  show 2: "set (cr_active (active_erase eh w s)) = set (cr_active s) - {w}"
    using e(3) by (simp add: active_erase_def)
  have m: "cr_active (active_erase eh w s) = filter (\<lambda>x. ?f x \<noteq> ?f w) (cr_active s)"
    using e(1) by (simp add: active_erase_def)
  have di: "distinct (map wh_id (cr_active (active_erase eh w s)))"
    using assms(1) unfolding m curl_inv_def by (auto intro: distinct_map_filter)
  have inj: "x \<in> set (cr_active s) \<Longrightarrow> wh_id x = wh_id w \<Longrightarrow> x = w" for x
    using assms(1) w by (auto simp: curl_inv_def distinct_map inj_on_def)
  have ids: "wh_id ` set (cr_active (active_erase eh w s)) = wh_id ` set (cr_active s) - {wh_id w}"
    unfolding 2 using inj by auto
  have sig: "set (cr_signaled (active_erase eh w s)) = insert (wh_id w) (set (cr_signaled s))"
    "cr_nextId (active_erase eh w s) = cr_nextId s" "cr_toAdd (active_erase eh w s) = cr_toAdd s"
    by (simp_all add: active_erase_def)
  have calls: "multi_set (cr_calls (active_erase eh w s)) [] = remove1 eh (active_easies s)"
    using assms(1) w by (simp add: active_erase_def multi_set_append curl_inv_def)
  have mem: "wh_id w \<in> wh_id ` set (cr_active s)" using mw by blast
  note iv = assms(1) [unfolded curl_inv_def]
  have "distinct (remove1 eh (active_easies s))" "0 \<notin> set (remove1 eh (active_easies s))"
    using iv by (simp_all add: distinct_remove1 notin_set_remove1)
  moreover have "(wh_id ` set (cr_active s) - {wh_id w}) \<inter> insert (wh_id w) (set (cr_signaled s)) = {}"
    "(wh_id ` set (cr_active s) - {wh_id w}) \<union> insert (wh_id w) (set (cr_signaled s)) = {..<cr_nextId s}"
    using iv mem by (simp_all only: set_map) blast+
  moreover have "distinct (map hd_easyHandle (cr_toAdd s))" "0 \<notin> set (map hd_easyHandle (cr_toAdd s))"
    using iv by blast+
  ultimately show "curl_inv (active_erase eh w s)"
    unfolding curl_inv_def sig 1 calls set_map ids using di by blast
qed

lemma active_add_facts:
  assumes "curl_inv s" "hd_easyHandle h \<noteq> 0"
  shows "set (active_easies (active_add h s)) = insert (hd_easyHandle h) (set (active_easies s))"
    and "curl_inv (active_add h s)" and "cr_toAdd (active_add h s) = cr_toAdd s"
    and "cr_toRemove (active_add h s) = cr_toRemove s" and "cr_signaled (active_add h s) = cr_signaled s"
    and "set (cr_active s) \<subseteq> set (cr_active (active_add h s))"
proof -
  have iff: "active_get (hd_easyHandle h) s = None \<longleftrightarrow> hd_easyHandle h \<notin> set (active_easies s)"
    using active_get_None [OF assms] .
  show "set (active_easies (active_add h s)) = insert (hd_easyHandle h) (set (active_easies s))"
    using iff by (auto simp: active_add_def active_easies_def)
  show "cr_toAdd (active_add h s) = cr_toAdd s" "cr_toRemove (active_add h s) = cr_toRemove s"
    "cr_signaled (active_add h s) = cr_signaled s" "set (cr_active s) \<subseteq> set (cr_active (active_add h s))"
    by (auto simp: active_add_def)
  show "curl_inv (active_add h s)"
  proof (cases "hd_easyHandle h \<in> set (active_easies s)")
    case True
    with assms iff show ?thesis by (auto simp: active_add_def)
  next
    case False
    note iv = assms(1) [unfolded curl_inv_def]
    have ids: "set (map wh_id (cr_active s)) \<union> set (cr_signaled s) = {..<cr_nextId s}" using iv by blast
    then have fresh: "cr_nextId s \<notin> wh_id ` set (cr_active s)" "cr_nextId s \<notin> set (cr_signaled s)"
      by auto
    have un: "set (map wh_id (cr_active s)) \<union> insert (cr_nextId s) (set (cr_signaled s)) = {..<Suc (cr_nextId s)}"
      using ids by (auto simp: lessThan_Suc)
    have get: "active_get (hd_easyHandle h) s = None" using iff False by simp
    have 1: "cr_active (active_add h s) = cr_active s @ [\<lparr>wh_d = h, wh_id = cr_nextId s\<rparr>]"
      "cr_nextId (active_add h s) = Suc (cr_nextId s)" "cr_toAdd (active_add h s) = cr_toAdd s"
      "cr_signaled (active_add h s) = cr_signaled s"
      "cr_calls (active_add h s) = cr_calls s @ [MultiAdd (hd_easyHandle h)]"
      using get by (simp_all add: active_add_def)
    have ae: "active_easies (active_add h s) = active_easies s @ [hd_easyHandle h]"
      by (simp add: active_easies_def 1)
    have m: "multi_set (cr_calls s @ [MultiAdd (hd_easyHandle h)]) [] = active_easies s @ [hd_easyHandle h]"
      using iv by (simp add: multi_set_append)
    have "distinct (active_easies s @ [hd_easyHandle h])" "0 \<notin> set (active_easies s @ [hd_easyHandle h])"
      using iv False assms(2) by simp_all
    moreover have "distinct (map wh_id (cr_active s @ [\<lparr>wh_d = h, wh_id = cr_nextId s\<rparr>]))"
      using iv fresh by simp
    moreover have "set (map wh_id (cr_active s @ [\<lparr>wh_d = h, wh_id = cr_nextId s\<rparr>])) \<inter> set (cr_signaled s) = {}"
      using iv fresh by auto
    moreover have "set (map wh_id (cr_active s @ [\<lparr>wh_d = h, wh_id = cr_nextId s\<rparr>])) \<union> set (cr_signaled s)
        = {..<Suc (cr_nextId s)}"
      using un by auto
    ultimately show ?thesis
      unfolding curl_inv_def 1 ae m using iv by blast
  qed
qed

lemma active_remove_inv: "curl_inv s \<Longrightarrow> curl_inv (active_remove eh s)"
  by (auto simp: active_remove_def active_erase_facts split: option.splits)

lemma active_remove_keeps:
  "cr_toAdd (active_remove eh s) = cr_toAdd s" "cr_toRemove (active_remove eh s) = cr_toRemove s"
  "cr_keepRunning (active_remove eh s) = cr_keepRunning s"
  by (auto simp: active_remove_def active_erase_def split: option.splits)

lemma curl_inv_toAdd:
  "curl_inv s \<Longrightarrow> distinct (map hd_easyHandle hs) \<Longrightarrow> 0 \<notin> set (map hd_easyHandle hs) \<Longrightarrow> curl_inv (s\<lparr>cr_toAdd := hs\<rparr>)"
  unfolding curl_inv_def active_easies_def by simp

lemma curl_inv_other:
  "curl_inv (s\<lparr>cr_toRemove := rs\<rparr>) = curl_inv s"
  "curl_inv (s\<lparr>cr_keepRunning := b\<rparr>) = curl_inv s"
  "curl_inv (s\<lparr>cr_callbacks := cs\<rparr>) = curl_inv s"
  unfolding curl_inv_def active_easies_def by simp_all

lemma fold_active_add:
  "curl_inv s \<Longrightarrow> \<forall>h \<in> set hs. hd_easyHandle h \<noteq> 0 \<Longrightarrow>
   curl_inv (fold active_add hs s) \<and> cr_signaled (fold active_add hs s) = cr_signaled s \<and>
   cr_toRemove (fold active_add hs s) = cr_toRemove s \<and>
   set (cr_active s) \<subseteq> set (cr_active (fold active_add hs s)) \<and>
   set (active_easies (fold active_add hs s)) = set (map hd_easyHandle hs) \<union> set (active_easies s)"
proof (induction hs arbitrary: s)
  case (Cons h hs)
  then have h: "hd_easyHandle h \<noteq> 0" by simp
  note f = active_add_facts [OF Cons.prems(1) h]
  show ?case using Cons.IH [OF f(2)] Cons.prems(2) f by auto
qed simp

lemma active_remove_facts:
  assumes "curl_inv s" "eh \<noteq> 0"
  shows "set (active_easies (active_remove eh s)) = set (active_easies s) - {eh}"
    and "w \<in> set (cr_active s) \<Longrightarrow>
       (if hd_easyHandle (wh_d w) = eh then wh_id w \<in> set (cr_signaled (active_remove eh s)) else w \<in> set (cr_active (active_remove eh s)))"
    and "set (cr_signaled s) \<subseteq> set (cr_signaled (active_remove eh s))"
proof -
  have d: "distinct (active_easies s)" using assms(1) by (simp add: curl_inv_def)
  show "set (active_easies (active_remove eh s)) = set (active_easies s) - {eh}"
  proof (cases "active_get eh s")
    case None
    with active_get_None [OF assms] show ?thesis by (auto simp: active_remove_def)
  next
    case (Some w)
    with active_erase_facts(1) [OF assms(1) Some] d show ?thesis by (simp add: active_remove_def set_remove1_eq)
  qed
  show "set (cr_signaled s) \<subseteq> set (cr_signaled (active_remove eh s))"
    by (auto simp: active_remove_def active_erase_def split: option.splits)
  assume w: "w \<in> set (cr_active s)"
  show "if hd_easyHandle (wh_d w) = eh then wh_id w \<in> set (cr_signaled (active_remove eh s)) else w \<in> set (cr_active (active_remove eh s))"
  proof (cases "active_get eh s")
    case None
    then have "hd_easyHandle (wh_d w) \<noteq> eh"
      using active_get_None [OF assms] w by (auto simp: active_easies_def)
    with None w show ?thesis by (simp add: active_remove_def)
  next
    case (Some w')
    note w' = active_get_Some [OF Some]
    have "hd_easyHandle (wh_d w) = eh \<longleftrightarrow> w = w'"
      using d w w' by (auto simp: active_easies_def distinct_map inj_on_def)
    with Some w active_erase_facts(2) [OF assms(1) Some] show ?thesis
      by (auto simp: active_remove_def active_erase_def)
  qed
qed

lemma fold_active_remove:
  "curl_inv s \<Longrightarrow> 0 \<notin> set ehs \<Longrightarrow>
   curl_inv (fold active_remove ehs s) \<and> set (cr_signaled s) \<subseteq> set (cr_signaled (fold active_remove ehs s)) \<and>
   set (active_easies (fold active_remove ehs s)) = set (active_easies s) - set ehs \<and>
   (\<forall>w \<in> set (cr_active s). if hd_easyHandle (wh_d w) \<in> set ehs then wh_id w \<in> set (cr_signaled (fold active_remove ehs s))
      else w \<in> set (cr_active (fold active_remove ehs s)))"
proof (induction ehs arbitrary: s)
  case (Cons eh ehs)
  then have eh: "eh \<noteq> 0" by auto
  note f = active_remove_facts [OF Cons.prems(1) eh]
  note ih = Cons.IH [OF active_remove_inv [OF Cons.prems(1), of eh]]
  have "if hd_easyHandle (wh_d w) \<in> set (eh # ehs) then wh_id w \<in> set (cr_signaled (fold active_remove ehs (active_remove eh s)))
      else w \<in> set (cr_active (fold active_remove ehs (active_remove eh s)))"
    if w: "w \<in> set (cr_active s)" for w
    using f(2) [OF w] ih Cons.prems(2) by (auto split: if_splits)
  then show ?case using ih f Cons.prems(2) by auto
qed simp

definition removals_ok :: "'u curl_requests \<Rightarrow> bool" where
  "removals_ok s \<longleftrightarrow> 0 \<notin> set (cr_toRemove s)"

lemma take_over_facts:
  assumes "curl_inv s" "removals_ok s"
  shows "curl_inv (take_over s)" and "removals_ok (take_over s)"
    and "set (cr_signaled s) \<subseteq> set (cr_signaled (take_over s))"
    and "w \<in> set (cr_active s) \<Longrightarrow>
       if hd_easyHandle (wh_d w) \<in> set (cr_toRemove s) then wh_id w \<in> set (cr_signaled (take_over s)) else w \<in> set (cr_active (take_over s))"
    and "set (active_easies (take_over s))
       = (set (map hd_easyHandle (cr_toAdd s)) \<union> set (active_easies s)) - set (cr_toRemove s)"
proof -
  let ?s1 = "fold active_add (cr_toAdd s) s"
  let ?s2 = "?s1\<lparr>cr_toAdd := []\<rparr>"
  have "\<forall>h \<in> set (cr_toAdd s). hd_easyHandle h \<noteq> 0" using assms(1) by (auto simp: curl_inv_def)
  note a = fold_active_add [OF assms(1) this]
  have i2: "curl_inv ?s2" using a by (simp add: curl_inv_toAdd)
  have z: "0 \<notin> set (cr_toRemove ?s2)" using a assms(2) by (simp add: removals_ok_def)
  note r = fold_active_remove [OF i2 z]
  have e: "take_over s = (fold active_remove (cr_toRemove ?s2) ?s2)\<lparr>cr_toRemove := []\<rparr>"
    by (simp add: take_over_def Let_def)
  have ae: "active_easies (x\<lparr>cr_toRemove := []\<rparr>) = active_easies x"
    "active_easies (x\<lparr>cr_toAdd := []\<rparr>) = active_easies x" for x :: "'a curl_requests"
    by (simp_all add: active_easies_def)
  show "curl_inv (take_over s)" unfolding e curl_inv_other using r by blast
  show "removals_ok (take_over s)" by (simp add: e removals_ok_def)
  show "set (cr_signaled s) \<subseteq> set (cr_signaled (take_over s))" using a r by (simp add: e)
  show "w \<in> set (cr_active s) \<Longrightarrow>
       if hd_easyHandle (wh_d w) \<in> set (cr_toRemove s) then wh_id w \<in> set (cr_signaled (take_over s)) else w \<in> set (cr_active (take_over s))"
  proof -
    assume "w \<in> set (cr_active s)"
    then have "w \<in> set (cr_active ?s2)" using a by auto
    with r have "if hd_easyHandle (wh_d w) \<in> set (cr_toRemove ?s2)
        then wh_id w \<in> set (cr_signaled (fold active_remove (cr_toRemove ?s2) ?s2))
        else w \<in> set (cr_active (fold active_remove (cr_toRemove ?s2) ?s2))" by blast
    then show ?thesis using a by (simp add: e split: if_splits)
  qed
  show "set (active_easies (take_over s))
       = (set (map hd_easyHandle (cr_toAdd s)) \<union> set (active_easies s)) - set (cr_toRemove s)"
    using a r by (simp add: e ae)
qed

lemma check_completed_facts:
  assumes "curl_inv s" "distinct (done_easies ms)" "set (done_easies ms) \<subseteq> set (active_easies s)"
  shows "\<exists>s'. check_completed ms s = Some s' \<and> curl_inv s' \<and> cr_toRemove s' = cr_toRemove s \<and>
    set (cr_active s') \<subseteq> set (cr_active s) \<and>
    set (cr_signaled s') = set (cr_signaled s) \<union> wh_id ` (set (cr_active s) - set (cr_active s'))"
  using assms
proof (induction ms arbitrary: s)
  case (Cons m ms)
  show ?case
  proof (cases "cm_done m")
    case False
    with Cons show ?thesis by (simp add: done_easies_def)
  next
    case True
    let ?eh = "cm_easy m"
    have in_act: "?eh \<in> set (active_easies s)" and rest: "distinct (done_easies ms)" "?eh \<notin> set (done_easies ms)"
      "set (done_easies ms) \<subseteq> set (active_easies s)"
      using Cons.prems True by (auto simp: done_easies_def)
    have "?eh \<noteq> 0" using in_act Cons.prems(1) by (auto simp: curl_inv_def)
    then obtain w where g: "active_get ?eh s = Some w"
      using active_get_None [OF Cons.prems(1)] in_act by auto
    let ?s0 = "s\<lparr>cr_callbacks := cr_callbacks s @ [(hd_user (wh_d w), cm_result m)]\<rparr>"
    let ?s1 = "active_erase ?eh w ?s0"
    have i0: "curl_inv ?s0" using Cons.prems(1) by (simp add: curl_inv_other)
    have g0: "active_get ?eh ?s0 = Some w" using g by (simp add: active_get_def)
    note f = active_erase_facts [OF i0 g0]
    have d: "distinct (active_easies ?s0)" using i0 by (simp add: curl_inv_def)
    have ae: "active_easies ?s0 = active_easies s" by (simp add: active_easies_def)
    have "set (done_easies ms) \<subseteq> set (active_easies ?s1)"
      unfolding f(1) set_remove1_eq [OF d] using rest ae by auto
    from Cons.IH [OF f(3) rest(1) this] obtain s' where s': "check_completed ms ?s1 = Some s'" "curl_inv s'"
      "cr_toRemove s' = cr_toRemove ?s1" "set (cr_active s') \<subseteq> set (cr_active ?s1)"
      "set (cr_signaled s') = set (cr_signaled ?s1) \<union> wh_id ` (set (cr_active ?s1) - set (cr_active s'))"
      by blast
    have w: "w \<in> set (cr_active s)" using active_get_Some [OF g] by blast
    have "check_completed (m # ms) s = Some s'"
      using True g s'(1) by (simp add: active_complete_def)
    moreover have "set (cr_active ?s1) = set (cr_active s) - {w}" "cr_toRemove ?s1 = cr_toRemove s"
      "set (cr_signaled ?s1) = insert (wh_id w) (set (cr_signaled s))"
      using f(2) by (simp_all add: active_erase_def)
    ultimately show ?thesis using s'(2-5) w by auto
  qed
qed simp

section \<open>Every run\<close>

definition curl_start :: "'u curl_requests" where
  "curl_start = \<lparr>cr_toAdd = [], cr_toRemove = [], cr_active = [], cr_keepRunning = True,
     cr_signaled = [], cr_nextId = 0, cr_calls = [], cr_callbacks = []\<rparr>"

lemma curl_init_start: "curl_init True = Inr curl_start"
  by (simp add: curl_init_def curl_start_def)

definition curl_good :: "'u curl_requests \<Rightarrow> bool" where
  "curl_good s \<longleftrightarrow> curl_inv s \<and> removals_ok s"

lemma curl_good_start: "curl_good curl_start"
  by (auto simp: curl_good_def curl_inv_def removals_ok_def curl_start_def active_easies_def)

text \<open>What a step keeps: nobody's event is lost, and a requested removal stays requested.\<close>

definition curl_keeps :: "'u curl_requests \<Rightarrow> 'u curl_requests \<Rightarrow> bool" where
  "curl_keeps s s' \<longleftrightarrow> set (cr_signaled s) \<subseteq> set (cr_signaled s') \<and>
     (\<forall>w \<in> set (cr_active s). wh_id w \<in> set (cr_signaled s') \<or>
        (w \<in> set (cr_active s') \<and>
         (hd_easyHandle (wh_d w) \<in> set (cr_toRemove s) \<longrightarrow> hd_easyHandle (wh_d w) \<in> set (cr_toRemove s'))))"

lemma curl_Add_good:
  assumes "curl_good s" "hd_easyHandle h \<noteq> 0"
  shows "curl_good (snd (curl_Add h s))" "curl_keeps s (snd (curl_Add h s))"
proof -
  have "\<not> list_ex (\<lambda>d. hd_is d (hd_easyHandle h)) (cr_toAdd s) \<Longrightarrow> hd_easyHandle h \<notin> hd_easyHandle ` set (cr_toAdd s)"
    using assms(2) by (auto simp: list_ex_iff hd_is_def)
  moreover have "distinct (map hd_easyHandle (cr_toAdd s))" "0 \<notin> set (map hd_easyHandle (cr_toAdd s))"
    using assms(1) by (auto simp: curl_good_def curl_inv_def)
  ultimately show "curl_good (snd (curl_Add h s))" "curl_keeps s (snd (curl_Add h s))"
    using assms by (auto simp: curl_Add_def curl_good_def removals_ok_def curl_keeps_def intro!: curl_inv_toAdd)
qed

lemma curl_Remove_good:
  assumes "curl_good s" "eh \<noteq> 0"
  shows "curl_good (snd (curl_Remove eh s))" "curl_keeps s (snd (curl_Remove eh s))"
proof -
  let ?hs = "filter (\<lambda>d. \<not> hd_is d eh) (cr_toAdd s)"
  have "distinct (map hd_easyHandle ?hs)" "0 \<notin> set (map hd_easyHandle ?hs)"
    using assms(1) by (auto simp: curl_good_def curl_inv_def intro: distinct_map_filter)
  then have "curl_inv (s\<lparr>cr_toAdd := ?hs\<rparr>)"
    using assms(1) by (intro curl_inv_toAdd) (auto simp: curl_good_def)
  then show "curl_good (snd (curl_Remove eh s))" "curl_keeps s (snd (curl_Remove eh s))"
    using assms by (auto simp: curl_Remove_def curl_good_def removals_ok_def curl_keeps_def Let_def curl_inv_other
        split: option.splits)
qed

lemma do_work_top_good:
  assumes "curl_good s"
  shows "curl_good (snd (do_work_top s))" "curl_keeps s (snd (do_work_top s))"
proof -
  have i: "curl_inv s" "removals_ok s" using assms by (auto simp: curl_good_def)
  have "w \<in> set (cr_active s) \<Longrightarrow> wh_id w \<in> set (cr_signaled (take_over s)) \<or>
      w \<in> set (cr_active (take_over s)) \<and> hd_easyHandle (wh_d w) \<notin> set (cr_toRemove s)" for w
    using take_over_facts(4) [OF i, of w] by (simp split: if_splits)
  then show "curl_good (snd (do_work_top s))" "curl_keeps s (snd (do_work_top s))"
    using assms take_over_facts(1-3) [OF i]
    by (auto simp: do_work_top_def curl_good_def curl_keeps_def Let_def)
qed

lemma perform_iteration_good:
  assumes "curl_good s" "curl_env_ok s (CeIter i n)"
  shows "\<exists>n' s'. perform_iteration i n s = Some (n', s') \<and> curl_good s' \<and> curl_keeps s s'"
proof -
  have i: "curl_inv s" and e: "distinct (done_easies (pi_msgs i))" "set (done_easies (pi_msgs i)) \<subseteq> set (active_easies s)"
    using assms by (auto simp: curl_good_def)
  obtain s' where s': "check_completed (pi_msgs i) s = Some s'" "curl_inv s'" "cr_toRemove s' = cr_toRemove s"
    "set (cr_signaled s') = set (cr_signaled s) \<union> wh_id ` (set (cr_active s) - set (cr_active s'))"
    using check_completed_facts [OF i e] by blast
  then have "curl_good s' \<and> curl_keeps s s'"
    using assms(1) by (auto simp: curl_good_def removals_ok_def curl_keeps_def)
  moreover have "curl_keeps s s" by (simp add: curl_keeps_def)
  ultimately show ?thesis
    using s'(1) assms(1) by (auto simp: perform_iteration_def Let_def)
qed

lemma curl_step_good:
  "curl_good s \<Longrightarrow> curl_env_ok s e \<Longrightarrow> \<exists>s'. curl_step s e = Some s' \<and> curl_good s' \<and> curl_keeps s s'"
proof (cases e)
  case (CeIter i n)
  then show "curl_good s \<Longrightarrow> curl_env_ok s e \<Longrightarrow> ?thesis"
    using perform_iteration_good [of s i n] by force
next
  case CeStop
  then show "curl_good s \<Longrightarrow> curl_env_ok s e \<Longrightarrow> ?thesis"
    by (simp add: curl_stop_def curl_good_def removals_ok_def curl_keeps_def curl_inv_other)
qed (auto simp: curl_Add_good curl_Remove_good do_work_top_good)

lemma curl_run_good:
  "curl_good s \<Longrightarrow> curl_follows s es \<Longrightarrow> \<exists>s'. curl_run s es = Some s' \<and> curl_good s'"
proof (induction es arbitrary: s)
  case (Cons e es)
  then obtain s1 where "curl_step s e = Some s1" "curl_good s1" using curl_step_good [of s e] by auto
  with Cons show ?case by auto
qed simp

text \<open>
  C6. Whatever clients, worker and network do, the easy handles in the multi handle are exactly
  the active ones, each of them once, a completion never looks up a handle that is not active,
  and the events signaled are those of the transfers that have ended.
\<close>

theorem curl_handles_consistent:
  assumes "curl_follows curl_start es"
  shows "\<exists>s. curl_run curl_start es = Some s \<and> distinct (active_easies s) \<and>
    multi_set (cr_calls s) [] = active_easies s \<and>
    (\<forall>i < cr_nextId s. i \<in> set (cr_signaled s) \<longleftrightarrow> i \<notin> wh_id ` set (cr_active s))"
proof -
  obtain s where s: "curl_run curl_start es = Some s" "curl_inv s"
    using curl_run_good [OF curl_good_start assms] by (auto simp: curl_good_def)
  have "set (map wh_id (cr_active s)) \<inter> set (cr_signaled s) = {}"
    and "set (map wh_id (cr_active s)) \<union> set (cr_signaled s) = {..<cr_nextId s}"
    using s(2) by (simp_all only: curl_inv_def)
  then have "\<forall>i < cr_nextId s. i \<in> set (cr_signaled s) \<longleftrightarrow> i \<notin> wh_id ` set (cr_active s)"
    by auto
  with s show ?thesis by (auto simp: curl_inv_def)
qed

definition removal_pending :: "nat \<Rightarrow> easy \<Rightarrow> 'u curl_requests \<Rightarrow> bool" where
  "removal_pending i eh s \<longleftrightarrow> i \<in> set (cr_signaled s) \<or>
     (\<exists>w \<in> set (cr_active s). wh_id w = i \<and> hd_easyHandle (wh_d w) = eh \<and> eh \<in> set (cr_toRemove s))"

lemma pending_step:
  assumes "curl_good s" "curl_env_ok s e" "removal_pending i eh s" "curl_step s e = Some s'"
  shows "removal_pending i eh s'"
  using assms curl_step_good [OF assms(1,2)] by (auto simp: removal_pending_def curl_keeps_def)

lemma pending_top:
  assumes "curl_good s" "removal_pending i eh s" "cr_keepRunning s"
  shows "i \<in> set (cr_signaled (snd (do_work_top s)))"
proof -
  have "curl_inv s" "removals_ok s" using assms(1) by (auto simp: curl_good_def)
  note f = take_over_facts(3,4) [OF this]
  show ?thesis using assms(2,3) f by (auto simp: removal_pending_def do_work_top_def Let_def split: if_splits)
qed

lemma active_remove_running: "cr_keepRunning (fold active_remove ehs s) = cr_keepRunning s"
  by (induction ehs arbitrary: s) (simp_all add: active_remove_keeps)

lemma active_add_running: "cr_keepRunning (fold active_add hs s) = cr_keepRunning s"
  by (induction hs arbitrary: s) (simp_all add: active_add_def)

lemma check_completed_running: "check_completed ms s = Some s' \<Longrightarrow> cr_keepRunning s' = cr_keepRunning s"
  by (induction ms s rule: check_completed.induct)
    (auto simp: active_complete_def active_erase_def split: if_splits option.splits)

lemma step_running: "curl_step s e = Some s' \<Longrightarrow> e \<noteq> CeStop \<Longrightarrow> cr_keepRunning s' = cr_keepRunning s"
  by (cases e) (auto simp: curl_Add_def curl_Remove_def do_work_top_def take_over_def perform_iteration_def Let_def
      active_remove_running active_add_running check_completed_running split: option.splits if_splits)

lemma signaled_run:
  "curl_good s \<Longrightarrow> curl_follows s es \<Longrightarrow> i \<in> set (cr_signaled s) \<Longrightarrow> curl_run s es = Some s' \<Longrightarrow> i \<in> set (cr_signaled s')"
proof (induction es arbitrary: s)
  case (Cons e es)
  then obtain s1 where s1: "curl_step s e = Some s1" "curl_good s1" "curl_keeps s s1" using curl_step_good [of s e] by auto
  then have "i \<in> set (cr_signaled s1)" using Cons.prems(3) by (auto simp: curl_keeps_def)
  with Cons s1 show ?case by auto
qed simp

lemma pending_run:
  "curl_good s \<Longrightarrow> curl_follows s es \<Longrightarrow> removal_pending i eh s \<Longrightarrow> cr_keepRunning s \<Longrightarrow>
   CeTop \<in> set es \<Longrightarrow> CeStop \<notin> set es \<Longrightarrow> curl_run s es = Some s' \<Longrightarrow> i \<in> set (cr_signaled s')"
proof (induction es arbitrary: s)
  case (Cons e es)
  then obtain s1 where s1: "curl_step s e = Some s1" "curl_good s1" using curl_step_good [of s e] by auto
  have rest: "curl_follows s1 es" "curl_run s1 es = Some s'" using Cons.prems s1 by auto
  show ?case
  proof (cases "e = CeTop")
    case True
    with s1 have "s1 = snd (do_work_top s)" by simp
    then have "i \<in> set (cr_signaled s1)" using pending_top Cons.prems by blast
    with signaled_run s1 rest show ?thesis by blast
  next
    case False
    have "removal_pending i eh s1" 
      using pending_step [OF Cons.prems(1) _ Cons.prems(3) s1(1)] Cons.prems(2) by simp
    moreover have "cr_keepRunning s1" using step_running [OF s1(1)] Cons.prems(4,6) by (simp add: eq_commute [of CeStop])
    ultimately show ?thesis using Cons.IH [OF s1(2) rest(1)] Cons.prems False rest by auto
  qed
qed simp

lemma curl_run_append: "curl_run s (xs @ ys) = Option.bind (curl_run s xs) (\<lambda>s'. curl_run s' ys)"
  by (induction xs arbitrary: s) auto

lemma curl_follows_append:
  "curl_follows s (xs @ ys) \<longleftrightarrow> curl_follows s xs \<and> (case curl_run s xs of None \<Rightarrow> True | Some s' \<Rightarrow> curl_follows s' ys)"
  by (induction xs arbitrary: s) (auto split: option.splits)

lemma run_running: "curl_run s es = Some s' \<Longrightarrow> CeStop \<notin> set es \<Longrightarrow> cr_keepRunning s' = cr_keepRunning s"
  by (induction es arbitrary: s) (auto simp: bind_eq_Some_conv dest: step_running)

text \<open>
  C24. \<open>Remove\<close> does not wait for a transfer that is not active, and otherwise the event it
  waits for is signaled once the worker has come to the top of its loop, whatever other clients
  and completions do in between.
\<close>

theorem curl_remove_returns:
  assumes "curl_follows curl_start (pre @ CeRemove eh # post)"
    and "CeStop \<notin> set (pre @ post)" "CeTop \<in> set post"
  shows "\<exists>s1 s2. curl_run curl_start pre = Some s1 \<and> curl_run curl_start (pre @ CeRemove eh # post) = Some s2 \<and>
    (case fst (curl_Remove eh s1) of
       None \<Rightarrow> eh \<notin> set (active_easies s1)
     | Some i \<Rightarrow> i \<in> set (cr_signaled s2))"
proof -
  have pre: "curl_follows curl_start pre" using assms(1) by (simp add: curl_follows_append)
  obtain s1 where s1: "curl_run curl_start pre = Some s1" "curl_good s1"
    using curl_run_good [OF curl_good_start pre] by blast
  have eh: "eh \<noteq> 0" and post: "curl_follows (snd (curl_Remove eh s1)) post"
    using assms(1) s1(1) by (auto simp: curl_follows_append)
  let ?s = "snd (curl_Remove eh s1)"
  have g: "curl_good ?s" using curl_Remove_good(1) [OF s1(2) eh] .
  obtain s2 where s2: "curl_run ?s post = Some s2" using curl_run_good [OF g post] by blast
  have run: "curl_run curl_start (pre @ CeRemove eh # post) = Some s2"
    using s1(1) s2 by (simp add: curl_run_append)
  have "cr_keepRunning s1" using run_running [OF s1(1)] assms(2) by (simp add: curl_start_def)
  then have kr: "cr_keepRunning ?s" by (auto simp: curl_Remove_def Let_def split: option.splits)
  have getf: "active_get eh (s1\<lparr>cr_toAdd := hs\<rparr>) = active_get eh s1" for hs by (simp add: active_get_def)
  show ?thesis
  proof (cases "active_get eh s1")
    case None
    then have "fst (curl_Remove eh s1) = None" by (simp add: curl_Remove_def getf Let_def)
    moreover have "eh \<notin> set (active_easies s1)"
      using None active_get_None [of s1 eh] s1(2) eh by (auto simp: curl_good_def)
    ultimately show ?thesis using s1(1) run by simp
  next
    case (Some w)
    then have f: "fst (curl_Remove eh s1) = Some (wh_id w)" by (simp add: curl_Remove_def getf Let_def)
    have "removal_pending (wh_id w) eh ?s"
      using active_get_Some [OF Some] Some by (auto simp: removal_pending_def curl_Remove_def getf Let_def)
    then have "wh_id w \<in> set (cr_signaled s2)"
      using pending_run [OF g post _ kr assms(3) _ s2] assms(2) by simp
    then show ?thesis using s1(1) run f by simp
  qed
qed

definition sample_done :: perform_input where
  "sample_done = \<lparr>pi_timeout = 0, pi_maxfd = 3, pi_select = 1, pi_perform_ok = True, pi_running = 0,
     pi_msgs = [\<lparr>cm_done = True, cm_easy = 7, cm_result = 0\<rparr>], pi_elapsed = 1\<rparr>"

definition sample_transfer :: "unit curl_event list" where
  "sample_transfer = [CeAdd \<lparr>hd_easyHandle = 7, hd_user = ()\<rparr>, CeTop]"

theorem curl_handles_consistent_witness:
  "\<exists>s. curl_run curl_start (sample_transfer @ [CeIter sample_done 0]) = Some s \<and> active_easies s = [] \<and>
     multi_set (cr_calls s) [] = active_easies s"
proof -
  have f: "curl_follows curl_start (sample_transfer @ [CeIter sample_done 0])" by code_simp
  have r: "map_option active_easies (curl_run curl_start (sample_transfer @ [CeIter sample_done 0])) = Some []" by code_simp
  show ?thesis using curl_handles_consistent [OF f] r by auto
qed

theorem curl_remove_returns_witness:
  "\<exists>s2. curl_run curl_start (sample_transfer @ CeRemove 7 # [CeTop]) = Some s2 \<and> 0 \<in> set (cr_signaled s2)"
proof -
  have f: "curl_follows curl_start (sample_transfer @ CeRemove 7 # [CeTop])" by code_simp
  have r: "map_option (\<lambda>s. fst (curl_Remove 7 s)) (curl_run curl_start sample_transfer) = Some (Some 0)" by code_simp
  have t: "CeStop \<notin> set (sample_transfer @ [CeTop])" by (simp add: sample_transfer_def)
  show ?thesis using curl_remove_returns [OF f t] r by auto
qed

section \<open>A removal that outlives its transfer\<close>


end
