(* ===== verification/Config.thy ===== *)
theory Config
  imports UriBuilder Threading
begin

text \<open>
  client-lite/src/config and util/do_json_parser: the cached JSON configuration, the settings read
  from it, the registry of banned cache hosts and the network check. The JSON library, the number
  and boolean translators of its property tree and \<open>getifaddrs\<close> are arguments; a parsed file is
  the list of its top-level keys and texts.
\<close>

section \<open>The JSON file cache\<close>

type_synonym json_tree = "(string \<times> string) list"

text \<open>What \<open>fs::exists\<close> and \<open>read_json\<close> find: no file, a file that does not parse, a tree.\<close>

datatype json_file = JsonAbsent | JsonMalformed | JsonTree json_tree

definition SECOND :: int where "SECOND = 1000000000"

definition RefreshInterval :: int where "RefreshInterval = 60 * SECOND"

record json_parser =
  jp_tree :: json_tree
  jp_next :: timepoint

text \<open>
  The constructor can create the file with an empty object; \<open>can_write\<close> says whether
  \<open>write_json\<close> succeeds, otherwise it throws.
\<close>

definition JsonParser_new :: "bool \<Rightarrow> bool \<Rightarrow> json_file \<Rightarrow> (json_parser \<times> json_file) res" where
  "JsonParser_new can_write alwaysCreateFile file =
     (let p = \<lparr>jp_tree = [], jp_next = 0\<rparr>
      in if alwaysCreateFile \<and> file = JsonAbsent then
           (if can_write then Inr (p, JsonTree []) else Inl (StdExn ''json_parser_error''))
         else Inr (p, file))"

definition TryRefresh :: "bool \<Rightarrow> timepoint \<Rightarrow> json_file \<Rightarrow> json_parser \<Rightarrow> json_parser" where
  "TryRefresh force now file p =
     (if \<not> force \<and> now < jp_next p then p
      else let p1 = (case file of
                       JsonTree t \<Rightarrow> p\<lparr>jp_tree := t\<rparr>
                     | JsonMalformed \<Rightarrow> p
                     | JsonAbsent \<Rightarrow> p\<lparr>jp_tree := []\<rparr>)
           in p1\<lparr>jp_next := now + RefreshInterval\<rparr>)"

definition Refresh :: "timepoint \<Rightarrow> json_file \<Rightarrow> json_parser \<Rightarrow> json_parser" where
  "Refresh now file p = TryRefresh True now file p"

text \<open>A value that does not convert is caught and gives an empty optional, like a missing key.\<close>

definition json_Get :: "(string \<Rightarrow> 'a option) \<Rightarrow> timepoint \<Rightarrow> json_file \<Rightarrow> string \<Rightarrow> json_parser
    \<Rightarrow> 'a option \<times> json_parser" where
  "json_Get conv now file key p =
     (let p1 = TryRefresh False now file p
      in (Option.bind (map_of (jp_tree p1) key) conv, p1))"

text \<open>
  Within the refresh interval a configuration value does not depend on the file; once the
  interval is over, or after a forced refresh, it is the value in the file, a missing file has
  no values, and a file that does not parse keeps the last values read.
\<close>

theorem json_cache:
  "(now < jp_next p \<longrightarrow> json_Get conv now file key p = (Option.bind (map_of (jp_tree p) key) conv, p)) \<and>
   (jp_next p \<le> now \<longrightarrow> fst (json_Get conv now (JsonTree t) key p) = Option.bind (map_of t key) conv) \<and>
   (t0 \<le> now \<and> now < t0 + RefreshInterval \<longrightarrow>
      fst (json_Get conv now file key (Refresh t0 (JsonTree t) p)) = Option.bind (map_of t key) conv \<and>
      fst (json_Get conv now file key (Refresh t0 JsonAbsent p)) = None \<and>
      fst (json_Get conv now file key (Refresh t0 JsonMalformed p)) = Option.bind (map_of (jp_tree p) key) conv)"
  by (auto simp: json_Get_def TryRefresh_def Refresh_def Let_def)

theorem json_cache_witness:
  "fst (json_Get Some 5 JsonAbsent ''k'' (Refresh 0 (JsonTree [(''k'', ''v'')]) \<lparr>jp_tree = [], jp_next = 0\<rparr>)) = Some ''v''"
  using json_cache [of 5 "\<lparr>jp_tree = [], jp_next = 0\<rparr>" Some JsonAbsent "''k''" "[(''k'', ''v'')]" 0]
  by (simp add: RefreshInterval_def SECOND_def)

section \<open>Settings\<close>

record config_manager =
  cm_admin :: json_parser
  cm_sdk :: json_parser

text \<open>What the manager reads besides its own state.\<close>

record config_env =
  ce_now :: timepoint
  ce_admin_file :: json_file
  ce_sdk_file :: json_file
  ce_get_int :: "string \<Rightarrow> int option"
  ce_get_bool :: "string \<Rightarrow> bool option"

definition g_mccHostBanInterval :: int where "g_mccHostBanInterval = 15 * 60 * SECOND"
definition g_cacheHostFallbackDelayNoFallback :: int where "g_cacheHostFallbackDelayNoFallback = - 1"
definition g_RestControllerValidateRemoteAddrDefault :: bool where
  "g_RestControllerValidateRemoteAddrDefault = True"

definition ConfigName_AduIoTConnectionString :: string where
  "ConfigName_AduIoTConnectionString = ''ADUC_IoTConnectionString''"
definition ConfigName_CacheHostFallbackDelayBgSecs :: string where
  "ConfigName_CacheHostFallbackDelayBgSecs = ''DODelayCacheServerFallbackBackground''"
definition ConfigName_CacheHostFallbackDelayFgSecs :: string where
  "ConfigName_CacheHostFallbackDelayFgSecs = ''DODelayCacheServerFallbackForeground''"
definition ConfigName_CacheHostServer :: string where "ConfigName_CacheHostServer = ''DOCacheHost''"
definition ConfigName_RestControllerValidateRemoteAddr :: string where
  "ConfigName_RestControllerValidateRemoteAddr = ''RestControllerValidateRemoteAddr''"

definition ConfigManager_new :: "bool \<Rightarrow> json_file \<Rightarrow> json_file \<Rightarrow> (config_manager \<times> json_file) res" where
  "ConfigManager_new can_write admin_file sdk_file =
     rbind (JsonParser_new can_write True admin_file) (\<lambda>(a, admin_file').
     rbind (JsonParser_new can_write False sdk_file) (\<lambda>(s, _).
       Inr (\<lparr>cm_admin = a, cm_sdk = s\<rparr>, admin_file')))"

definition RefreshAdminConfigs :: "config_env \<Rightarrow> config_manager \<Rightarrow> config_manager" where
  "RefreshAdminConfigs env c = c\<lparr>cm_admin := Refresh (ce_now env) (ce_admin_file env) (cm_admin c)\<rparr>"

definition admin_Get :: "(string \<Rightarrow> 'a option) \<Rightarrow> config_env \<Rightarrow> string \<Rightarrow> config_manager
    \<Rightarrow> 'a option \<times> config_manager" where
  "admin_Get conv env key c =
     (let (v, a) = json_Get conv (ce_now env) (ce_admin_file env) key (cm_admin c) in (v, c\<lparr>cm_admin := a\<rparr>))"

text \<open>The delay in seconds.\<close>

definition CacheHostFallbackDelay :: "config_env \<Rightarrow> config_manager \<Rightarrow> int option \<times> config_manager" where
  "CacheHostFallbackDelay env c =
     (let (delay, c1) = admin_Get (ce_get_int env) env ConfigName_CacheHostFallbackDelayBgSecs c
      in if delay = None then admin_Get (ce_get_int env) env ConfigName_CacheHostFallbackDelayFgSecs c1
         else (delay, c1))"

definition CacheHostServer :: "config_env \<Rightarrow> config_manager \<Rightarrow> string option \<times> config_manager" where
  "CacheHostServer env c = admin_Get Some env ConfigName_CacheHostServer c"

definition IoTConnectionString :: "config_env \<Rightarrow> config_manager \<Rightarrow> string \<times> config_manager" where
  "IoTConnectionString env c =
     (let (v, s) = json_Get Some (ce_now env) (ce_sdk_file env) ConfigName_AduIoTConnectionString (cm_sdk c)
      in (or_empty v, c\<lparr>cm_sdk := s\<rparr>))"

definition RestControllerValidateRemoteAddr :: "config_env \<Rightarrow> config_manager \<Rightarrow> bool \<times> config_manager" where
  "RestControllerValidateRemoteAddr env c =
     (let (v, c1) = admin_Get (ce_get_bool env) env ConfigName_RestControllerValidateRemoteAddr c
      in (case v of Some b \<Rightarrow> b | None \<Rightarrow> g_RestControllerValidateRemoteAddrDefault, c1))"

section \<open>The cache host\<close>

text \<open>\<open>strcasestr\<close>: the suffix at the first case-insensitive occurrence.\<close>

fun strcasestr :: "string \<Rightarrow> string \<Rightarrow> string option" where
  "strcasestr [] pat = (if pat = [] then Some [] else None)"
| "strcasestr (c # cs) pat =
     (if map tolower (take (length pat) (c # cs)) = map tolower pat then Some (c # cs) else strcasestr cs pat)"

definition GetHostNameFromIoTConnectionString :: "string \<Rightarrow> string" where
  "GetHostNameFromIoTConnectionString connectionString =
     (let toFind = ''GatewayHostName=''
      in case strcasestr (c_str connectionString) toFind of
           None \<Rightarrow> []
         | Some start0 \<Rightarrow>
             let start = drop (length toFind) start0
             in case find_char (CHR '';'') start of None \<Rightarrow> start | Some n \<Rightarrow> take n start)"

definition GetHost :: "config_env \<Rightarrow> config_manager \<Rightarrow> string \<times> config_manager" where
  "GetHost env c =
     (let (opt, c1) = CacheHostServer env c
      in case opt of
           Some h \<Rightarrow> (h, c1)
         | None \<Rightarrow>
             let (connString, c2) = IoTConnectionString env c1
             in (if connString \<noteq> [] then GetHostNameFromIoTConnectionString connString else [], c2))"

record original_host_status =
  oh_host :: string
  oh_timeOfUnban :: timepoint

record mcc_host =
  mh_address :: string
  mh_timeOfUnban :: timepoint
  mh_originals :: "original_host_status list"

definition timepoint_min :: timepoint where "timepoint_min = - 9223372036854775808"

definition MccHost_new :: "string \<Rightarrow> mcc_host" where
  "MccHost_new address = \<lparr>mh_address = address, mh_timeOfUnban = timepoint_min, mh_originals = []\<rparr>"

definition MccHost_Ban :: "timepoint \<Rightarrow> int \<Rightarrow> mcc_host \<Rightarrow> mcc_host" where
  "MccHost_Ban now banInterval h = h\<lparr>mh_timeOfUnban := now + banInterval\<rparr>"

fun set_unban :: "string \<Rightarrow> timepoint \<Rightarrow> original_host_status list \<Rightarrow> original_host_status list" where
  "set_unban host t [] = [\<lparr>oh_host = host, oh_timeOfUnban = t\<rparr>]"
| "set_unban host t (o1 # os) = (if oh_host o1 = host then o1\<lparr>oh_timeOfUnban := t\<rparr> # os else o1 # set_unban host t os)"

definition MccHost_BanForOriginalHost :: "timepoint \<Rightarrow> string \<Rightarrow> int \<Rightarrow> mcc_host \<Rightarrow> mcc_host" where
  "MccHost_BanForOriginalHost now originalHost banInterval h =
     h\<lparr>mh_originals := set_unban originalHost (now + banInterval) (mh_originals h)\<rparr>"

definition MccHost_IsBanned :: "timepoint \<Rightarrow> string \<Rightarrow> mcc_host \<Rightarrow> bool" where
  "MccHost_IsBanned now originalHost h =
     (if now < mh_timeOfUnban h then True
      else case List.find (\<lambda>x. oh_host x = originalHost) (mh_originals h) of
             None \<Rightarrow> False
           | Some x \<Rightarrow> now < oh_timeOfUnban x)"

type_synonym mcc_hosts = "mcc_host list"

definition IsClientError :: "u32 \<Rightarrow> bool" where
  "IsClientError httpStatusCode \<longleftrightarrow> 400 \<le> httpStatusCode \<and> httpStatusCode < 500"

fun update_mcc_host :: "string \<Rightarrow> (mcc_host \<Rightarrow> mcc_host) \<Rightarrow> mcc_hosts \<Rightarrow> mcc_hosts" where
  "update_mcc_host a f [] = [f (MccHost_new a)]"
| "update_mcc_host a f (h # hs) = (if mh_address h = a then f h # hs else h # update_mcc_host a f hs)"

definition general_fatal_error :: "hresult \<Rightarrow> bool" where
  "general_fatal_error hr \<longleftrightarrow> hr = WININET_E_TIMEOUT \<or> hr = HRESULT_FROM_WIN32 ERROR_WINHTTP_NAME_NOT_RESOLVED \<or>
     hr = HRESULT_FROM_WIN32 ERROR_WINHTTP_CANNOT_CONNECT"

text \<open>The host name does not depend on the port, so the content of the port variable is fixed.\<close>

definition original_host :: "string \<Rightarrow> string res" where
  "original_host originalUrl = rbind (uri_of_string 0 originalUrl) (\<lambda>u. Inr (m_host (m_components u)))"

definition ReportHostError :: "timepoint \<Rightarrow> hresult \<Rightarrow> u32 \<Rightarrow> string \<Rightarrow> string \<Rightarrow> (mcc_hosts, unit) sm" where
  "ReportHostError now hr httpStatusCode mccHost originalUrl =
     (let perHostFatalError = IsClientError httpStatusCode;
          generalFatalError = general_fatal_error hr
      in sbind (sres (original_host originalUrl)) (\<lambda>originalHost.
           if perHostFatalError \<or> generalFatalError then
             smod (update_mcc_host mccHost
               (if perHostFatalError then MccHost_BanForOriginalHost now originalHost g_mccHostBanInterval
                else MccHost_Ban now g_mccHostBanInterval))
           else sret ()))"

definition IsBanned :: "timepoint \<Rightarrow> string \<Rightarrow> string \<Rightarrow> mcc_hosts \<Rightarrow> bool res" where
  "IsBanned now mccHost originalUrl hosts =
     (case List.find (\<lambda>h. mh_address h = mccHost) hosts of
        None \<Rightarrow> Inr False
      | Some h \<Rightarrow> rbind (original_host originalUrl) (\<lambda>o1. Inr (MccHost_IsBanned now o1 h)))"

section \<open>Bans as a function of the reports\<close>

record host_report =
  hr_time :: timepoint
  hr_code :: hresult
  hr_status :: u32
  hr_mcc :: string
  hr_url :: string

definition report_step :: "mcc_hosts \<Rightarrow> host_report \<Rightarrow> mcc_hosts" where
  "report_step hosts r = snd (ReportHostError (hr_time r) (hr_code r) (hr_status r) (hr_mcc r) (hr_url r) hosts)"

text \<open>
  A report bans its cache host for fifteen minutes: a client error for the original host of its
  URL only, a connection failure for every original host. A URL that is not accepted has no effect.
\<close>

definition report_bans :: "timepoint \<Rightarrow> string \<Rightarrow> string \<Rightarrow> host_report \<Rightarrow> bool" where
  "report_bans now mccHost orig r \<longleftrightarrow>
     hr_mcc r = mccHost \<and> now < hr_time r + g_mccHostBanInterval \<and>
     (case original_host (hr_url r) of
        Inl _ \<Rightarrow> False
      | Inr o1 \<Rightarrow> if IsClientError (hr_status r) then o1 = orig else general_fatal_error (hr_code r))"

definition host_banned :: "timepoint \<Rightarrow> string \<Rightarrow> string \<Rightarrow> mcc_hosts \<Rightarrow> bool" where
  "host_banned now mccHost orig hosts =
     (case List.find (\<lambda>h. mh_address h = mccHost) hosts of
        None \<Rightarrow> False | Some h \<Rightarrow> MccHost_IsBanned now orig h)"

definition host_upto :: "timepoint \<Rightarrow> mcc_host \<Rightarrow> bool" where
  "host_upto t h \<longleftrightarrow> mh_timeOfUnban h \<le> t + g_mccHostBanInterval \<and>
     (\<forall>x \<in> set (mh_originals h). oh_timeOfUnban x \<le> t + g_mccHostBanInterval)"

lemma find_set_unban:
  "List.find (\<lambda>x. oh_host x = o1) (set_unban o2 t os) =
     (if o1 = o2 then (case List.find (\<lambda>x. oh_host x = o1) os of
          None \<Rightarrow> Some \<lparr>oh_host = o2, oh_timeOfUnban = t\<rparr> | Some x \<Rightarrow> Some (x\<lparr>oh_timeOfUnban := t\<rparr>))
      else List.find (\<lambda>x. oh_host x = o1) os)"
  by (induction o2 t os rule: set_unban.induct) auto

lemma find_update_mcc:
  assumes "\<And>h. mh_address (f h) = mh_address h"
  shows "List.find (\<lambda>h. mh_address h = m) (update_mcc_host a f hs) =
     (if m = a then (case List.find (\<lambda>h. mh_address h = m) hs of None \<Rightarrow> Some (f (MccHost_new a)) | Some h \<Rightarrow> Some (f h))
      else List.find (\<lambda>h. mh_address h = m) hs)"
  using assms by (induction a f hs rule: update_mcc_host.induct) (auto simp: MccHost_new_def)

lemma update_mcc_set: "h \<in> set (update_mcc_host a f hs) \<Longrightarrow> h \<in> set hs \<or> (\<exists>h' \<in> insert (MccHost_new a) (set hs). h = f h')"
  by (induction a f hs rule: update_mcc_host.induct) (auto split: if_splits)

lemma set_unban_set: "x \<in> set (set_unban o1 t os) \<Longrightarrow> x \<in> set os \<or> oh_timeOfUnban x = t"
  by (induction o1 t os rule: set_unban.induct) (auto split: if_splits)

lemma ban_effect:
  assumes "host_upto t h"
  shows "MccHost_IsBanned now o1 (MccHost_Ban t g_mccHostBanInterval h) \<longleftrightarrow>
           now < t + g_mccHostBanInterval \<or> MccHost_IsBanned now o1 h"
    and "MccHost_IsBanned now o1 (MccHost_BanForOriginalHost t o2 g_mccHostBanInterval h) \<longleftrightarrow>
           o1 = o2 \<and> now < t + g_mccHostBanInterval \<or> MccHost_IsBanned now o1 h"
proof -
  show "MccHost_IsBanned now o1 (MccHost_Ban t g_mccHostBanInterval h) \<longleftrightarrow>
           now < t + g_mccHostBanInterval \<or> MccHost_IsBanned now o1 h"
    using assms by (auto simp: MccHost_IsBanned_def MccHost_Ban_def host_upto_def split: option.splits)
  have "List.find (\<lambda>x. oh_host x = o1) (mh_originals h) = Some x \<Longrightarrow> oh_timeOfUnban x \<le> t + g_mccHostBanInterval" for x
    using assms by (auto simp: host_upto_def find_Some_iff)
  then show "MccHost_IsBanned now o1 (MccHost_BanForOriginalHost t o2 g_mccHostBanInterval h) \<longleftrightarrow>
           o1 = o2 \<and> now < t + g_mccHostBanInterval \<or> MccHost_IsBanned now o1 h"
    by (cases "List.find (\<lambda>x. oh_host x = o1) (mh_originals h)")
      (auto simp: MccHost_IsBanned_def MccHost_BanForOriginalHost_def find_set_unban)
qed

lemma new_upto: "0 \<le> t \<Longrightarrow> host_upto t (MccHost_new a)"
  by (simp add: host_upto_def MccHost_new_def timepoint_min_def g_mccHostBanInterval_def SECOND_def)

lemma new_not_banned: "0 \<le> now \<Longrightarrow> \<not> MccHost_IsBanned now o1 (MccHost_new a)"
  by (simp add: MccHost_IsBanned_def MccHost_new_def timepoint_min_def)

lemma report_step_banned:
  assumes "\<forall>h \<in> set hosts. host_upto (hr_time r) h" "0 \<le> hr_time r" "0 \<le> now"
  shows "host_banned now m o1 (report_step hosts r) \<longleftrightarrow> report_bans now m o1 r \<or> host_banned now m o1 hosts"
proof -
  have up: "List.find (\<lambda>h. mh_address h = m) hosts = Some h \<Longrightarrow> host_upto (hr_time r) h" for h
    using assms(1) by (auto simp: find_Some_iff)
  have ad: "mh_address (MccHost_Ban t i h) = mh_address h"
    "mh_address (MccHost_BanForOriginalHost t o2 i h) = mh_address h" for t i h o2
    by (simp_all add: MccHost_Ban_def MccHost_BanForOriginalHost_def)
  show ?thesis
    using ban_effect [OF up] ban_effect [OF new_upto [OF assms(2)]] new_not_banned [OF assms(3)]
    by (auto simp: report_step_def ReportHostError_def res_defs report_bans_def host_banned_def Let_def
        find_update_mcc ad split: sum.splits option.splits)
qed

lemma report_step_upto:
  assumes "\<forall>h \<in> set hosts. host_upto (hr_time r) h" "0 \<le> hr_time r" "hr_time r \<le> t"
  shows "\<forall>h \<in> set (report_step hosts r). host_upto t h"
proof
  fix h assume h: "h \<in> set (report_step hosts r)"
  have mono: "host_upto (hr_time r) h \<Longrightarrow> host_upto t h" for h
    using assms(3) by (force simp: host_upto_def)
  have ban: "host_upto (hr_time r) h \<Longrightarrow> host_upto (hr_time r) (MccHost_Ban (hr_time r) g_mccHostBanInterval h)"
    "host_upto (hr_time r) h \<Longrightarrow> host_upto (hr_time r) (MccHost_BanForOriginalHost (hr_time r) o2 g_mccHostBanInterval h)" for h o2
    by (auto simp: host_upto_def MccHost_Ban_def MccHost_BanForOriginalHost_def dest!: set_unban_set)
  have "host_upto (hr_time r) h"
    using h assms(1) ban new_upto [OF assms(2)]
    by (auto simp: report_step_def ReportHostError_def res_defs Let_def split: sum.splits if_splits
        dest!: update_mcc_set)
  then show "host_upto t h" by (rule mono)
qed

lemma reports_banned:
  assumes "sorted (map hr_time rs)" "\<forall>r \<in> set rs. 0 \<le> hr_time r" "0 \<le> now"
    "\<forall>h \<in> set hosts. rs \<noteq> [] \<longrightarrow> host_upto (hr_time (hd rs)) h"
  shows "host_banned now m o1 (run_steps report_step hosts rs) \<longleftrightarrow>
    (\<exists>r \<in> set rs. report_bans now m o1 r) \<or> host_banned now m o1 hosts"
  using assms
proof (induction rs arbitrary: hosts)
  case (Cons r rs)
  have "\<forall>h \<in> set (report_step hosts r). rs \<noteq> [] \<longrightarrow> host_upto (hr_time (hd rs)) h"
    using Cons.prems report_step_upto [of hosts r "hr_time (hd rs)"] by (cases rs) auto
  with Cons.IH [of "report_step hosts r"] Cons.prems report_step_banned [of hosts r now m o1] show ?case by auto
qed simp

text \<open>
  C22. A cache host is banned for an original host exactly when some report made less than
  fifteen minutes ago bans it: a client error for the same original host, or a timeout, an
  unresolved name or a refused connection for any. Other reports and other cache hosts have no
  influence.
\<close>

theorem mcc_banned_iff_reported:
  assumes "sorted (map hr_time rs)" "\<forall>r \<in> set rs. 0 \<le> hr_time r" "0 \<le> now" "original_host url = Inr orig"
  shows "IsBanned now m url (run_steps report_step [] rs) = Inr (\<exists>r \<in> set rs. report_bans now m orig r)"
proof -
  have "host_banned now m orig (run_steps report_step [] rs) \<longleftrightarrow> (\<exists>r \<in> set rs. report_bans now m orig r)"
    using reports_banned [of rs now "[]" m orig] assms by (simp add: host_banned_def)
  then show ?thesis
    using assms(4) by (auto simp: IsBanned_def host_banned_def split: option.splits)
qed

theorem mcc_banned_iff_reported_witness:
  "let rs = [\<lparr>hr_time = 0, hr_code = 0, hr_status = 404, hr_mcc = ''mcc'', hr_url = ''http://a/x''\<rparr>]
   in IsBanned (10 * SECOND) ''mcc'' ''http://a/y'' (run_steps report_step [] rs) = Inr True \<and>
      IsBanned (10 * SECOND) ''mcc'' ''http://b/y'' (run_steps report_step [] rs) = Inr False"
proof -
  let ?rs = "[\<lparr>hr_time = 0, hr_code = 0, hr_status = 404, hr_mcc = ''mcc'', hr_url = ''http://a/x''\<rparr>]"
  have h: "original_host ''http://a/x'' = Inr ''a''" "original_host ''http://a/y'' = Inr ''a''"
    "original_host ''http://b/y'' = Inr ''b''" by code_simp+
  have "IsClientError 404" by code_simp
  then show ?thesis
    using mcc_banned_iff_reported [of ?rs "10 * SECOND" "''http://a/y''" "''a''" "''mcc''"]
      mcc_banned_iff_reported [of ?rs "10 * SECOND" "''http://b/y''" "''b''" "''mcc''"] h
    by (simp add: report_bans_def SECOND_def g_mccHostBanInterval_def)
qed

text \<open>
  The cache host is the one the administrator configured; without one it is the gateway
  named in the IoT connection string, up to the next semicolon; without either it is empty.
\<close>

theorem mcc_host_source:
  assumes "jp_next (cm_admin c) \<le> ce_now env" "jp_next (cm_sdk c) \<le> ce_now env"
    and "ce_admin_file env = JsonTree at" "ce_sdk_file env = JsonTree st"
  shows "fst (GetHost env c) =
    (case map_of at ConfigName_CacheHostServer of
       Some h \<Rightarrow> h
     | None \<Rightarrow> (case map_of st ConfigName_AduIoTConnectionString of
                 None \<Rightarrow> []
               | Some conn \<Rightarrow> if conn = [] then [] else GetHostNameFromIoTConnectionString conn))"
  using assms
  by (auto simp: GetHost_def CacheHostServer_def IoTConnectionString_def admin_Get_def json_Get_def
      TryRefresh_def Let_def or_empty_def split: option.splits)

theorem mcc_host_source_witness:
  "fst (GetHost \<lparr>ce_now = 0, ce_admin_file = JsonTree [],
      ce_sdk_file = JsonTree [(''ADUC_IoTConnectionString'', ''a=1;gatewayhostname=edge;b=2'')],
      ce_get_int = (\<lambda>_. None), ce_get_bool = (\<lambda>_. None)\<rparr>
    \<lparr>cm_admin = \<lparr>jp_tree = [], jp_next = 0\<rparr>, cm_sdk = \<lparr>jp_tree = [], jp_next = 0\<rparr>\<rparr>) = ''edge''"
proof -
  have "GetHostNameFromIoTConnectionString ''a=1;gatewayhostname=edge;b=2'' = ''edge''" by code_simp
  then show ?thesis
    using mcc_host_source [where c = "\<lparr>cm_admin = \<lparr>jp_tree = [], jp_next = 0\<rparr>, cm_sdk = \<lparr>jp_tree = [], jp_next = 0\<rparr>\<rparr>"
        and env = "\<lparr>ce_now = 0, ce_admin_file = JsonTree [],
          ce_sdk_file = JsonTree [(''ADUC_IoTConnectionString'', ''a=1;gatewayhostname=edge;b=2'')],
          ce_get_int = (\<lambda>_. None), ce_get_bool = (\<lambda>_. None)\<rparr>"]
    by (simp add: ConfigName_AduIoTConnectionString_def)
qed

section \<open>Network\<close>

text \<open>An entry of \<open>getifaddrs\<close>: the address family, if there is an address, and the flags.\<close>

record iface =
  if_family :: "nat option"
  if_flags :: u32

definition AF_INET :: nat where "AF_INET = 2"
definition AF_INET6 :: nat where "AF_INET6 = 10"
definition IFF_LOOPBACK :: u32 where "IFF_LOOPBACK = 8"
definition IFF_RUNNING :: u32 where "IFF_RUNNING = 64"

fun viable_loop :: "iface list \<Rightarrow> bool" where
  "viable_loop [] = False"
| "viable_loop (i # is) =
     (case if_family i of
        None \<Rightarrow> viable_loop is
      | Some family \<Rightarrow>
          if family \<noteq> AF_INET \<and> family \<noteq> AF_INET6 then viable_loop is
          else if if_flags i AND IFF_RUNNING \<noteq> 0 \<and> if_flags i AND IFF_LOOPBACK = 0 then True
          else viable_loop is)"

text \<open>\<open>None\<close> stands for a failing \<open>getifaddrs\<close>, which counts as connected.\<close>

definition HasViableInterface :: "iface list option \<Rightarrow> bool" where
  "HasViableInterface ifs = (case ifs of None \<Rightarrow> True | Some l \<Rightarrow> viable_loop l)"

lemma viable_loop_iff:
  "viable_loop l \<longleftrightarrow> (\<exists>i \<in> set l. if_family i \<in> {Some AF_INET, Some AF_INET6} \<and>
     if_flags i AND IFF_RUNNING \<noteq> 0 \<and> if_flags i AND IFF_LOOPBACK = 0)"
  by (induction l) (auto split: option.splits)

end
