(* ===== verification/HttpAgent.thy ===== *)
theory HttpAgent
  imports Curl Config
begin

text \<open>
  client-lite/src/util/http_agent: one HTTP request at a time through an easy handle of libcurl.
  The agent keeps the request context; libcurl appears as the options set, the header list
  allocated and the results its functions return. The client's events are functions over the
  client's own state, which may query the agent.
\<close>

section \<open>Ranges and URLs\<close>

definition DO_HTTP_RANGEREQUEST_STR_LEN :: nat where "DO_HTTP_RANGEREQUEST_STR_LEN = 48"

definition MakeRange :: "u64 \<Rightarrow> u64 \<Rightarrow> string res" where
  "MakeRange startOffset lengthBytes =
     rbind (UInt64Add startOffset lengthBytes) (\<lambda>a. rbind (UInt64Sub a 1) (\<lambda>endOffset.
       Inr (fst (StringPrintf DO_HTTP_RANGEREQUEST_STR_LEN
         (show_nat (unat startOffset) @ ''-'' @ show_nat (unat endOffset))))))"

definition ValidateUrl :: "int \<Rightarrow> string \<Rightarrow> bool res" where
  "ValidateUrl junk url =
     (if \<not> validate url then Inr False
      else rbind (uri_of_string junk url) (\<lambda>u.
        if StringCompareCaseInsensitive (m_scheme (m_components u)) ''http'' \<noteq> 0 \<and>
           StringCompareCaseInsensitive (m_scheme (m_components u)) ''https'' \<noteq> 0 then Inr False
        else if m_host (m_components u) = [] then Inr False
        else Inr True))"

section \<open>The request context\<close>

text \<open>
  The header list is a raw pointer: null, a list, or one that has been freed. Appending to or
  freeing a freed list is undefined, which the flag \<open>ha_ub\<close> records.
\<close>

datatype slist = SlNull | SlLive "string list" | SlFreed

datatype curl_option =
    CURLOPT_FOLLOWLOCATION int
  | CURLOPT_MAXREDIRS int
  | CURLOPT_SUPPRESS_CONNECT_HEADERS int
  | CURLOPT_HTTPGET int
  | CURLOPT_USERAGENT string
  | CURLOPT_LOW_SPEED_TIME int
  | CURLOPT_LOW_SPEED_LIMIT int
  | CURLOPT_CONNECTTIMEOUT int
  | CURLOPT_HEADERFUNCTION
  | CURLOPT_HEADERDATA
  | CURLOPT_WRITEFUNCTION
  | CURLOPT_WRITEDATA
  | CURLOPT_URL string
  | CURLOPT_PROXY string
  | CURLOPT_PROXYPORT int
  | CURLOPT_HTTPHEADER slist

record http_agent =
  ha_curlHandle :: easy
  ha_requestHeaders :: slist
  ha_responseStatusCode :: u32
  ha_hrTranslatedStatusCode :: hresult
  ha_hrCallback :: hresult
  ha_responseHeaders :: "(string \<times> string) list"
  ha_onHeadersAvailableInvoked :: bool
  ha_onCompleteInvoked :: bool
  ha_options :: "curl_option list"
  ha_ub :: bool

definition agent_new :: http_agent where
  "agent_new = \<lparr>ha_curlHandle = 0, ha_requestHeaders = SlNull, ha_responseStatusCode = 0,
     ha_hrTranslatedStatusCode = 0, ha_hrCallback = 0, ha_responseHeaders = [],
     ha_onHeadersAvailableInvoked = False, ha_onCompleteInvoked = False, ha_options = [], ha_ub = False\<rparr>"

text \<open>
  What libcurl answers: the handle \<open>curl_easy_init\<close> allocates (0 when it fails), whether
  \<open>curl_slist_append\<close> finds memory; \<open>junk\<close> is the uninitialised port of a URL that ends in ':'.
\<close>

record agent_env =
  ae_easy_init :: easy
  ae_append_ok :: bool
  ae_junk :: int

definition setopt :: "curl_option \<Rightarrow> http_agent \<Rightarrow> http_agent" where
  "setopt x a = a\<lparr>ha_options := ha_options a @ [x]\<rparr>"

definition DO_USER_AGENT_STR :: string where
  "DO_USER_AGENT_STR = ''Microsoft-Delivery-Optimization-Lite/10.0.0.1''"

definition c_curlDefaultTimeout :: u32 where "c_curlDefaultTimeout = 300"

definition slist_free :: "http_agent \<Rightarrow> http_agent" where
  "slist_free a =
     (case ha_requestHeaders a of
        SlNull \<Rightarrow> a
      | SlLive _ \<Rightarrow> a\<lparr>ha_requestHeaders := SlFreed\<rparr>
      | SlFreed \<Rightarrow> a\<lparr>ha_ub := True\<rparr>)"

definition slist_append :: "string \<Rightarrow> http_agent \<Rightarrow> http_agent" where
  "slist_append h a =
     (case ha_requestHeaders a of
        SlNull \<Rightarrow> a\<lparr>ha_requestHeaders := SlLive [h]\<rparr>
      | SlLive hs \<Rightarrow> a\<lparr>ha_requestHeaders := SlLive (hs @ [h])\<rparr>
      | SlFreed \<Rightarrow> a\<lparr>ha_ub := True\<rparr>)"

section \<open>Sending\<close>

definition SetWebProxyFromProxyUrl :: "int \<Rightarrow> string option \<Rightarrow> (http_agent, unit) sm" where
  "SetWebProxyFromProxyUrl junk szProxyUrl =
     (case szProxyUrl of
        None \<Rightarrow> smod (setopt (CURLOPT_PROXY []))
      | Some u \<Rightarrow>
          sbind (sres (uri_of_string junk (c_str u))) (\<lambda>proxy.
            let port = m_port (m_components proxy);
                addr = set_port (- 1) (m_components proxy)
            in sbind (sres (builder_to_string addr)) (\<lambda>txt.
               sthen (smod (setopt (CURLOPT_PROXY (c_str txt))))
              (sthen (swhen (port \<noteq> - 1) (smod (setopt (CURLOPT_PROXYPORT port))))
              (sthen (sres (builder_to_string (set_user_info [] False addr))) (sret ()))))))"

definition client_options :: "u32 \<Rightarrow> http_agent \<Rightarrow> http_agent" where
  "client_options connectTimeoutSecs a =
     (let a1 = fold setopt [CURLOPT_FOLLOWLOCATION 1, CURLOPT_MAXREDIRS 10, CURLOPT_SUPPRESS_CONNECT_HEADERS 1,
                 CURLOPT_HTTPGET 1, CURLOPT_USERAGENT DO_USER_AGENT_STR, CURLOPT_LOW_SPEED_TIME 20,
                 CURLOPT_LOW_SPEED_LIMIT 4000] a;
          a2 = (if 0 < connectTimeoutSecs \<and> connectTimeoutSecs < c_curlDefaultTimeout
                then setopt (CURLOPT_CONNECTTIMEOUT (uint connectTimeoutSecs)) a1 else a1)
      in fold setopt [CURLOPT_HEADERFUNCTION, CURLOPT_HEADERDATA, CURLOPT_WRITEFUNCTION, CURLOPT_WRITEDATA] a2)"

text \<open>The part that runs when there is no handle yet; \<open>S_OK\<close> lets the caller go on.\<close>

definition new_client :: "agent_env \<Rightarrow> string option \<Rightarrow> u32 \<Rightarrow> (http_agent, hresult) sm" where
  "new_client env szUrl connectTimeoutSecs =
     (case szUrl of
        None \<Rightarrow> sret E_INVALIDARG
      | Some u \<Rightarrow>
          sbind (sres (ValidateUrl (ae_junk env) (c_str u))) (\<lambda>valid.
            if \<not> valid then sret INET_E_INVALID_URL
            else sthen (smod (\<lambda>a. a\<lparr>ha_curlHandle := ae_easy_init env\<rparr>))
                   (if ae_easy_init env = 0 then sret E_OUTOFMEMORY
                    else sthen (smod (client_options connectTimeoutSecs)) (sret S_OK))))"

definition set_url :: "agent_env \<Rightarrow> string option \<Rightarrow> (http_agent, hresult) sm" where
  "set_url env szUrl =
     (case szUrl of
        None \<Rightarrow> sret S_OK
      | Some u \<Rightarrow>
          sbind (sres (ValidateUrl (ae_junk env) (c_str u))) (\<lambda>valid.
            if \<not> valid then sret INET_E_INVALID_URL
            else sthen (smod (setopt (CURLOPT_URL (c_str u)))) (sret S_OK)))"

definition CreateClient :: "agent_env \<Rightarrow> string option \<Rightarrow> string option \<Rightarrow> u32 \<Rightarrow> http_agent \<Rightarrow> hresult \<times> http_agent" where
  "CreateClient env szUrl szProxyUrl connectTimeoutSecs = catch_return
     (\<lambda>a. sbind (if ha_curlHandle a = 0 then new_client env szUrl connectTimeoutSecs else sret S_OK) (\<lambda>hr.
        if FAILED hr then sret hr
        else sbind (set_url env szUrl) (\<lambda>hr.
          if FAILED hr then sret hr
          else sthen (SetWebProxyFromProxyUrl (ae_junk env) szProxyUrl) (sret S_OK))) a)"

text \<open>The state of a request: the agent, and the transfers shared by all agents.\<close>

definition reset_response :: "http_agent \<Rightarrow> http_agent" where
  "reset_response a = a\<lparr>ha_responseHeaders := [], ha_responseStatusCode := 0,
     ha_hrTranslatedStatusCode := S_OK, ha_hrCallback := S_OK,
     ha_onHeadersAvailableInvoked := False, ha_onCompleteInvoked := False\<rparr>"

definition set_request_headers :: "agent_env \<Rightarrow> string option \<Rightarrow> http_agent \<Rightarrow> hresult \<times> http_agent" where
  "set_request_headers env szRange a =
     (case szRange of
        None \<Rightarrow> (S_OK, setopt (CURLOPT_HTTPHEADER SlNull) (slist_free a))
      | Some r \<Rightarrow>
          if \<not> ae_append_ok env then (E_OUTOFMEMORY, a)
          else let a1 = slist_append (''Range: bytes='' @ c_str r) a
               in (S_OK, setopt (CURLOPT_HTTPHEADER (ha_requestHeaders a1)) a1))"

definition SendRequest :: "'u \<Rightarrow> agent_env \<Rightarrow> string option \<Rightarrow> string option \<Rightarrow> string option \<Rightarrow> u32
    \<Rightarrow> http_agent \<times> 'u curl_requests \<Rightarrow> hresult \<times> http_agent \<times> 'u curl_requests" where
  "SendRequest me env szUrl szProxyUrl szRange connectTimeoutSecs = catch_return (\<lambda>(a, ops).
     let (hr, a1) = CreateClient env szUrl szProxyUrl connectTimeoutSecs a
     in if FAILED hr then (Inr hr, a1, ops)
        else let (hr2, a2) = set_request_headers env szRange a1
             in if FAILED hr2 then (Inr hr2, a2, ops)
                else let a3 = reset_response a2
                     in (case curl_Add \<lparr>hd_easyHandle = ha_curlHandle a3, hd_user = me\<rparr> ops of
                           (Inl e, ops') \<Rightarrow> (Inl e, a3, ops')
                         | (Inr _, ops') \<Rightarrow> (Inr S_OK, a3, ops')))"

text \<open>\<open>Close\<close> blocks on the event returned here, if there is one.\<close>

definition Close :: "http_agent \<times> 'u curl_requests \<Rightarrow> nat option \<times> http_agent \<times> 'u curl_requests" where
  "Close = (\<lambda>(a, ops).
     if ha_curlHandle a \<noteq> 0
     then (let (w, ops') = curl_Remove (ha_curlHandle a) ops in (w, a, ops'))
     else (None, a, ops))"

text \<open>The destructors of the agent and of its request context.\<close>

definition agent_destroy :: "http_agent \<times> 'u curl_requests \<Rightarrow> nat option \<times> http_agent \<times> 'u curl_requests" where
  "agent_destroy s = (let (w, a, ops) = Close s in (w, slist_free a, ops))"

section \<open>Queries\<close>

text \<open>
  The response headers are an unordered map, kept in insertion order here; \<open>order\<close> is the order
  in which the map iterates.
\<close>

definition QueryStatusCode :: "http_agent \<Rightarrow> u32" where
  "QueryStatusCode a = ha_responseStatusCode a"

definition header_line :: "string \<times> string \<Rightarrow> string" where
  "header_line item =
     fst item @ '':'' @ snd item @
     (if 2 \<le> length (snd item) \<and> drop (length (snd item) - 2) (snd item) = [CHR 0x0D, CHR 0x0A] then [] else [CHR 0x0D, CHR 0x0A])"

definition QueryHeaders :: "((string \<times> string) list \<Rightarrow> (string \<times> string) list) \<Rightarrow> string option \<Rightarrow> http_agent
    \<Rightarrow> hresult \<times> string" where
  "QueryHeaders order pszName a =
     (let responseHeaders = ha_responseHeaders a
      in case pszName of
           None \<Rightarrow> (S_OK, if responseHeaders \<noteq> [] then concat (map header_line (order responseHeaders)) @ [CHR 0x0D, CHR 0x0A] else [])
         | Some name \<Rightarrow> (case map_of responseHeaders (c_str name) of
                           None \<Rightarrow> (E_NOT_SET, [])
                         | Some v \<Rightarrow> (S_OK, v)))"

datatype HttpAgentHeaders = Header_Range

definition QueryHeadersByType :: "HttpAgentHeaders \<Rightarrow> http_agent \<Rightarrow> hresult \<times> string" where
  "QueryHeadersByType type a =
     (case type of Header_Range \<Rightarrow> QueryHeaders (\<lambda>x. x) (Some ''Content-Range'') a)"

text \<open>\<open>unsigned long long\<close> is as wide as \<open>unsigned long\<close> here, so \<open>std::stoull\<close> reads like \<open>std::stoul\<close>.\<close>

definition stoull :: "string \<Rightarrow> u64 res" where
  "stoull s = stoul s"

text \<open>\<open>QueryContentLength\<close> has no handler of its own: what \<open>stoull\<close> throws leaves it.\<close>

definition QueryContentLength :: "http_agent \<Rightarrow> (hresult \<times> u64) res" where
  "QueryContentLength a =
     (let (hr, lengthHeader) = QueryHeaders (\<lambda>x. x) (Some ''Content-Length'') a
      in if SUCCEEDED hr then rbind (stoull lengthHeader) (\<lambda>v. Inr (S_OK, v)) else Inr (S_OK, 0))"

definition QueryContentLengthFromRange :: "http_agent \<Rightarrow> hresult \<times> u64" where
  "QueryContentLengthFromRange a =
     (let (hr, rangeHeader) = QueryHeadersByType Header_Range a
      in if FAILED hr then (hr, 0)
         else (case find_char (CHR ''/'') (c_str rangeHeader) of
                 None \<Rightarrow> (E_NOT_SET, 0)
               | Some n \<Rightarrow> (case stoull (drop (n + 1) (c_str rangeHeader)) of
                              Inl e \<Rightarrow> (caught e, 0)
                            | Inr v \<Rightarrow> (S_OK, v))))"

section \<open>Status codes\<close>

definition ResultFromStatusCode :: "u32 \<Rightarrow> hresult" where
  "ResultFromStatusCode code =
     (if code \<in> {200, 201, 202, 204, 203, 206} then S_OK
      else if code \<in> {300, 500, 503} then HTTP_E_STATUS_SERVER_ERROR
      else if code \<in> {301, 302, 303} then HTTP_E_STATUS_UNEXPECTED_REDIRECTION
      else if code \<in> {404, 410} then HTTP_E_STATUS_NOT_FOUND
      else if code \<in> {305, 502, 504} then HTTP_E_STATUS_BAD_GATEWAY
      else if code \<in> {400, 411, 412, 414, 415, 405, 409} then HTTP_E_STATUS_BAD_REQUEST
      else if code = 401 then HTTP_E_STATUS_DENIED
      else if code = 406 then HTTP_E_STATUS_NONE_ACCEPTABLE
      else if code = 403 then HTTP_E_STATUS_FORBIDDEN
      else if code = 407 then HTTP_E_STATUS_PROXY_AUTH_REQ
      else if code = 408 then HTTP_E_STATUS_REQUEST_TIMEOUT
      else if code = 413 then HTTP_E_STATUS_REQUEST_TOO_LARGE
      else if code \<in> {501, 505} then HTTP_E_STATUS_NOT_SUPPORTED
      else HTTP_E_STATUS_UNEXPECTED)"

definition CURLE_OK :: int where "CURLE_OK = 0"
definition CURLE_URL_MALFORMAT :: int where "CURLE_URL_MALFORMAT = 3"
definition CURLE_COULDNT_RESOLVE_HOST :: int where "CURLE_COULDNT_RESOLVE_HOST = 6"
definition CURLE_COULDNT_CONNECT :: int where "CURLE_COULDNT_CONNECT = 7"
definition CURLE_OPERATION_TIMEDOUT :: int where "CURLE_OPERATION_TIMEDOUT = 28"
definition CURLE_RANGE_ERROR :: int where "CURLE_RANGE_ERROR = 33"

lemmas curle_defs = CURLE_OK_def CURLE_URL_MALFORMAT_def CURLE_COULDNT_RESOLVE_HOST_def
  CURLE_COULDNT_CONNECT_def CURLE_OPERATION_TIMEDOUT_def CURLE_RANGE_ERROR_def

definition g_CurlErrorCodeToHResult :: "int \<Rightarrow> hresult" where
  "g_CurlErrorCodeToHResult curlResult =
     (if curlResult = CURLE_URL_MALFORMAT then INET_E_INVALID_URL
      else if curlResult = CURLE_COULDNT_RESOLVE_HOST then HRESULT_FROM_WIN32 ERROR_WINHTTP_NAME_NOT_RESOLVED
      else if curlResult = CURLE_COULDNT_CONNECT then HRESULT_FROM_WIN32 ERROR_WINHTTP_CANNOT_CONNECT
      else if curlResult = CURLE_OPERATION_TIMEDOUT then WININET_E_TIMEOUT
      else if curlResult = CURLE_RANGE_ERROR then DO_E_INSUFFICIENT_RANGE_SUPPORT
      else HRESULT_FROM_XPLAT_SYSERR (of_int curlResult))"

section \<open>Callbacks of libcurl\<close>

text \<open>The client of the agent; \<open>OnHeadersAvailable\<close> and \<open>OnComplete\<close> may query it.\<close>

record 'c agent_events =
  ev_OnHeadersAvailable :: "http_agent \<Rightarrow> 'c \<Rightarrow> hresult \<times> 'c"
  ev_OnData :: "string \<Rightarrow> 'c \<Rightarrow> hresult \<times> 'c"
  ev_OnComplete :: "http_agent \<Rightarrow> hresult \<Rightarrow> hresult \<Rightarrow> 'c \<Rightarrow> hresult \<times> 'c"

fun header_put :: "string \<Rightarrow> string \<Rightarrow> (string \<times> string) list \<Rightarrow> (string \<times> string) list" where
  "header_put k v [] = [(k, v)]"
| "header_put k v ((k', v') # m) = (if k = k' then (k', v) # m else (k', v') # header_put k v m)"

definition HeaderCallback :: "bool \<Rightarrow> string \<Rightarrow> http_agent \<Rightarrow> nat \<times> http_agent" where
  "HeaderCallback alloc_ok buf a =
     (case find_char (CHR '':'') buf of
        None \<Rightarrow> (length buf, a)
      | Some n \<Rightarrow>
          if n = 0 then (length buf, a)
          else if alloc_ok then
            (length buf, a\<lparr>ha_responseHeaders := header_put (take n buf) (drop (n + 1) buf) (ha_responseHeaders a)\<rparr>)
          else (0, a\<lparr>ha_hrCallback := E_OUTOFMEMORY\<rparr>))"

text \<open>\<open>info\<close> is what \<open>curl_easy_getinfo\<close> returns and writes.\<close>

definition TrySetStatusCodeAndInvokeOnHeadersAvailable ::
  "'c agent_events \<Rightarrow> int \<times> int \<Rightarrow> http_agent \<times> 'c \<Rightarrow> http_agent \<times> 'c" where
  "TrySetStatusCodeAndInvokeOnHeadersAvailable ev info = (\<lambda>(a, c).
     if ha_onHeadersAvailableInvoked a then (a, c)
     else let a1 = a\<lparr>ha_onHeadersAvailableInvoked := True\<rparr>;
              (curlResult, responseCode) = info;
              a2 = (if curlResult = CURLE_OK
                    then a1\<lparr>ha_responseStatusCode := of_int responseCode,
                           ha_hrTranslatedStatusCode := ResultFromStatusCode (of_int responseCode)\<rparr>
                    else a1\<lparr>ha_hrTranslatedStatusCode := HRESULT_FROM_XPLAT_SYSERR (of_int curlResult)\<rparr>)
          in if SUCCEEDED (ha_hrTranslatedStatusCode a2)
             then (let (hr, c') = ev_OnHeadersAvailable ev a2 c in (a2\<lparr>ha_hrCallback := hr\<rparr>, c'))
             else (a2, c))"

definition agent_healthy :: "http_agent \<Rightarrow> bool" where
  "agent_healthy a \<longleftrightarrow> SUCCEEDED (ha_hrTranslatedStatusCode a) \<and> SUCCEEDED (ha_hrCallback a)"

definition WriteCallback :: "'c agent_events \<Rightarrow> int \<times> int \<Rightarrow> string \<Rightarrow> http_agent \<times> 'c \<Rightarrow> nat \<times> http_agent \<times> 'c" where
  "WriteCallback ev info buf s =
     (let (a, c) = TrySetStatusCodeAndInvokeOnHeadersAvailable ev info s;
          (a1, c1) = (if agent_healthy a
                      then (let (hr, c') = ev_OnData ev buf c in (a\<lparr>ha_hrCallback := hr\<rparr>, c'))
                      else (a, c))
      in if agent_healthy a1 then (length buf, a1, c1) else (0, a1, c1))"

definition CompleteCallback :: "'c agent_events \<Rightarrow> int \<times> int \<Rightarrow> int \<Rightarrow> http_agent \<times> 'c \<Rightarrow> http_agent \<times> 'c" where
  "CompleteCallback ev info curlResult = (\<lambda>(a, c).
     if ha_onCompleteInvoked a then (a, c)
     else let a1 = a\<lparr>ha_onCompleteInvoked := True\<rparr>;
              (a2, c2) = (if curlResult = CURLE_OK then TrySetStatusCodeAndInvokeOnHeadersAvailable ev info (a1, c)
                          else if SUCCEEDED (ha_hrTranslatedStatusCode a1)
                          then (a1\<lparr>ha_hrTranslatedStatusCode := g_CurlErrorCodeToHResult curlResult\<rparr>, c)
                          else (a1, c));
              (hr, c3) = ev_OnComplete ev a2 (ha_hrTranslatedStatusCode a2) (ha_hrCallback a2) c2
          in (a2, c3))"

section \<open>The protocol of the client's events\<close>

text \<open>A client together with the log of the events it received and what it answered.\<close>

datatype agent_obs = ObHeaders hresult | ObData string hresult | ObComplete hresult hresult

definition observe :: "'c agent_events \<Rightarrow> ('c \<times> agent_obs list) agent_events" where
  "observe ev =
     \<lparr>ev_OnHeadersAvailable = (\<lambda>a (c, l). let (hr, c') = ev_OnHeadersAvailable ev a c in (hr, c', l @ [ObHeaders hr])),
      ev_OnData = (\<lambda>d (c, l). let (hr, c') = ev_OnData ev d c in (hr, c', l @ [ObData d hr])),
      ev_OnComplete = (\<lambda>a h k (c, l). let (hr, c') = ev_OnComplete ev a h k c in (hr, c', l @ [ObComplete h k]))\<rparr>"

lemma observe_run:
  "ev_OnHeadersAvailable (observe ev) a (c, l) =
     (fst (ev_OnHeadersAvailable ev a c), snd (ev_OnHeadersAvailable ev a c), l @ [ObHeaders (fst (ev_OnHeadersAvailable ev a c))])"
  "ev_OnData (observe ev) d (c, l) = (fst (ev_OnData ev d c), snd (ev_OnData ev d c), l @ [ObData d (fst (ev_OnData ev d c))])"
  "ev_OnComplete (observe ev) a h k (c, l) =
     (fst (ev_OnComplete ev a h k c), snd (ev_OnComplete ev a h k c), l @ [ObComplete h k])"
  by (simp_all add: observe_def case_prod_unfold Let_def)

datatype agent_event =
    AeHeader bool string
  | AeWrite "int \<times> int" string
  | AeComplete "int \<times> int" int

fun agent_step :: "'c agent_events \<Rightarrow> http_agent \<times> 'c \<Rightarrow> agent_event \<Rightarrow> http_agent \<times> 'c" where
  "agent_step ev (a, c) (AeHeader ok b) = (snd (HeaderCallback ok b a), c)"
| "agent_step ev s (AeWrite info b) = snd (WriteCallback ev info b s)"
| "agent_step ev s (AeComplete info r) = CompleteCallback ev info r s"

fun is_complete :: "agent_event \<Rightarrow> bool" where
  "is_complete (AeComplete _ _) = True"
| "is_complete _ = False"

fun writes :: "agent_event list \<Rightarrow> string list" where
  "writes [] = []"
| "writes (AeWrite _ b # es) = b # writes es"
| "writes (_ # es) = writes es"

fun payload :: "agent_obs list \<Rightarrow> string list" where
  "payload [] = []"
| "payload (ObData d _ # l) = d # payload l"
| "payload (_ # l) = payload l"

text \<open>
  The events of one transfer: the headers at most once and first; data only after the client
  accepted the headers, and none after it refused some.
\<close>

fun data_ok :: "agent_obs list \<Rightarrow> bool" where
  "data_ok [] = True"
| "data_ok [ObData _ _] = True"
| "data_ok (ObData _ hr # l) = (SUCCEEDED hr \<and> data_ok l)"
| "data_ok _ = False"

fun transfer_ok :: "agent_obs list \<Rightarrow> bool" where
  "transfer_ok [] = True"
| "transfer_ok (ObHeaders hr # l) = ((l \<noteq> [] \<longrightarrow> SUCCEEDED hr) \<and> data_ok l)"
| "transfer_ok _ = False"

definition all_succeeded :: "agent_obs list \<Rightarrow> bool" where
  "all_succeeded l \<longleftrightarrow> (\<forall>x \<in> set l. case x of ObHeaders hr \<Rightarrow> SUCCEEDED hr | ObData _ hr \<Rightarrow> SUCCEEDED hr | _ \<Rightarrow> False)"

definition proto_inv :: "string list \<Rightarrow> http_agent \<Rightarrow> agent_obs list \<Rightarrow> bool" where
  "proto_inv ws a l \<longleftrightarrow> \<not> ha_onCompleteInvoked a \<and> transfer_ok l \<and>
     (\<not> ha_onHeadersAvailableInvoked a \<longrightarrow> l = [] \<and> ws = [] \<and> SUCCEEDED (ha_hrTranslatedStatusCode a)) \<and>
     (ha_onHeadersAvailableInvoked a \<and> agent_healthy a \<longrightarrow> l \<noteq> [] \<and> all_succeeded l \<and> payload l = ws) \<and>
     (\<exists>rest. ws = payload l @ rest)"

lemma payload_append: "payload (xs @ ys) = payload xs @ payload ys"
  by (induction xs rule: payload.induct) auto

lemma data_ok_snoc: "data_ok l \<Longrightarrow> all_succeeded l \<Longrightarrow> data_ok (l @ [ObData d hr])"
  by (induction l rule: data_ok.induct) (auto simp: all_succeeded_def)

lemma transfer_ok_snoc: "transfer_ok l \<Longrightarrow> l \<noteq> [] \<Longrightarrow> all_succeeded l \<Longrightarrow> transfer_ok (l @ [ObData d hr])"
  by (cases l rule: transfer_ok.cases) (auto simp: all_succeeded_def intro!: data_ok_snoc)

lemma TrySet_invoked:
  "ha_onHeadersAvailableInvoked a \<Longrightarrow> TrySetStatusCodeAndInvokeOnHeadersAvailable ev info (a, c) = (a, c)"
  by (simp add: TrySetStatusCodeAndInvokeOnHeadersAvailable_def)

lemma TrySet_proto:
  assumes "TrySetStatusCodeAndInvokeOnHeadersAvailable (observe ev) info (a, c, l) = (a', c', l')"
    and "transfer_ok l" "\<not> ha_onHeadersAvailableInvoked a \<longrightarrow> l = [] \<and> ws = []"
    and "ha_onHeadersAvailableInvoked a \<and> agent_healthy a \<longrightarrow> l \<noteq> [] \<and> all_succeeded l \<and> payload l = ws"
    and "\<exists>rest. ws = payload l @ rest"
  shows "ha_onHeadersAvailableInvoked a' \<and> ha_onCompleteInvoked a' = ha_onCompleteInvoked a \<and> transfer_ok l' \<and>
    (agent_healthy a' \<longrightarrow> l' \<noteq> [] \<and> all_succeeded l' \<and> payload l' = ws) \<and> (\<exists>rest. ws = payload l' @ rest)"
  using assms
  by (auto simp: TrySetStatusCodeAndInvokeOnHeadersAvailable_def observe_run agent_healthy_def all_succeeded_def
      Let_def split: if_splits prod.splits)

lemma proto_write:
  assumes "proto_inv ws a l" "agent_step (observe ev) (a, c, l) (AeWrite info b) = (a', c', l')"
  shows "proto_inv (ws @ [b]) a' l'"
proof -
  obtain a1 c1 l1 where t: "TrySetStatusCodeAndInvokeOnHeadersAvailable (observe ev) info (a, c, l) = (a1, c1, l1)"
    by (metis prod_cases3)
  have 1: "ha_onHeadersAvailableInvoked a1 \<and> ha_onCompleteInvoked a1 = ha_onCompleteInvoked a \<and> transfer_ok l1 \<and>
    (agent_healthy a1 \<longrightarrow> l1 \<noteq> [] \<and> all_succeeded l1 \<and> payload l1 = ws) \<and> (\<exists>rest. ws = payload l1 @ rest)"
    using assms(1) by (intro TrySet_proto [OF t]) (auto simp: proto_inv_def)
  have nc: "\<not> ha_onCompleteInvoked a1" using assms(1) 1 by (simp add: proto_inv_def)
  show ?thesis
  proof (cases "agent_healthy a1")
    case True
    obtain hr c2 where d: "ev_OnData ev b c1 = (hr, c2)" by (cases "ev_OnData ev b c1")
    have st: "a' = a1\<lparr>ha_hrCallback := hr\<rparr>" "l' = l1 @ [ObData b hr]"
      using assms(2) True d by (auto simp: WriteCallback_def t observe_run Let_def split: if_splits)
    with 1 True nc transfer_ok_snoc [of l1 b hr] show ?thesis
      by (auto simp: proto_inv_def agent_healthy_def payload_append all_succeeded_def)
  next
    case False
    have st: "a' = a1" "l' = l1" using assms(2) False by (auto simp: WriteCallback_def t Let_def)
    with 1 False nc show ?thesis by (auto simp: proto_inv_def)
  qed
qed

lemma proto_header:
  "proto_inv ws a l \<Longrightarrow> proto_inv ws (snd (HeaderCallback ok b a)) l"
  by (auto simp: proto_inv_def HeaderCallback_def agent_healthy_def E_OUTOFMEMORY_def SUCCEEDED_def split: option.splits)

lemma proto_run:
  "proto_inv ws a l \<Longrightarrow> \<forall>e \<in> set es. \<not> is_complete e \<Longrightarrow>
   run_steps (agent_step (observe ev)) (a, c, l) es = (a', c', l') \<Longrightarrow> proto_inv (ws @ writes es) a' l'"
proof (induction es arbitrary: ws a c l)
  case (Cons e es)
  obtain a1 c1 l1 where s: "agent_step (observe ev) (a, c, l) e = (a1, c1, l1)" by (metis prod_cases3)
  with Cons.prems have r: "run_steps (agent_step (observe ev)) (a1, c1, l1) es = (a', c', l')" by simp
  show ?case
  proof (cases e)
    case (AeHeader ok b)
    then have "proto_inv ws a1 l1" using proto_header [OF Cons.prems(1)] s by auto
    with Cons.IH [OF this _ r] Cons.prems(2) AeHeader show ?thesis by simp
  next
    case (AeWrite info b)
    then have "proto_inv (ws @ [b]) a1 l1" using proto_write [OF Cons.prems(1)] s by simp
    with Cons.IH [OF this _ r] Cons.prems(2) AeWrite show ?thesis by simp
  qed (use Cons.prems(2) in simp)
qed simp

lemma complete_again:
  "ha_onCompleteInvoked a \<Longrightarrow> \<forall>e \<in> set es. is_complete e \<Longrightarrow> run_steps (agent_step ev) (a, c) es = (a, c)"
proof (induction es)
  case (Cons e es)
  then show ?case by (cases e) (auto simp: CompleteCallback_def)
qed simp

lemma curl_error_failed [simp]: "FAILED (g_CurlErrorCodeToHResult r)"
proof -
  have "FAILED (HRESULT_FROM_WIN32 ERROR_WINHTTP_NAME_NOT_RESOLVED)" "FAILED (HRESULT_FROM_WIN32 ERROR_WINHTTP_CANNOT_CONNECT)"
    by code_simp+
  then show ?thesis by (simp add: g_CurlErrorCodeToHResult_def)
qed

lemma proto_complete:
  assumes "proto_inv ws a l" "CompleteCallback (observe ev) info r (a, c, l) = (a', c', l')"
  shows "ha_onCompleteInvoked a' \<and>
    (\<exists>t h k. l' = t @ [ObComplete h k] \<and> transfer_ok t \<and> (\<exists>rest. ws = payload t @ rest) \<and>
       (SUCCEEDED h \<and> SUCCEEDED k \<longrightarrow> r = CURLE_OK \<and> t \<noteq> [] \<and> payload t = ws))"
proof -
  let ?a1 = "a\<lparr>ha_onCompleteInvoked := True\<rparr>"
  have nc: "\<not> ha_onCompleteInvoked a" and iv: "transfer_ok l"
    "\<not> ha_onHeadersAvailableInvoked a \<longrightarrow> l = [] \<and> ws = []"
    "ha_onHeadersAvailableInvoked a \<and> agent_healthy a \<longrightarrow> l \<noteq> [] \<and> all_succeeded l \<and> payload l = ws"
    "\<exists>rest. ws = payload l @ rest"
    using assms(1) by (auto simp: proto_inv_def)
  have hl: "agent_healthy ?a1 = agent_healthy a" by (simp add: agent_healthy_def)
  show ?thesis
  proof (cases "r = CURLE_OK")
    case True
    obtain a2 c2 l2 where t: "TrySetStatusCodeAndInvokeOnHeadersAvailable (observe ev) info (?a1, c, l) = (a2, c2, l2)"
      by (metis prod_cases3)
    have 1: "ha_onHeadersAvailableInvoked a2 \<and> ha_onCompleteInvoked a2 = ha_onCompleteInvoked ?a1 \<and> transfer_ok l2 \<and>
      (agent_healthy a2 \<longrightarrow> l2 \<noteq> [] \<and> all_succeeded l2 \<and> payload l2 = ws) \<and> (\<exists>rest. ws = payload l2 @ rest)"
      using iv hl by (intro TrySet_proto [OF t]) auto
    have "a' = a2" "l' = l2 @ [ObComplete (ha_hrTranslatedStatusCode a2) (ha_hrCallback a2)]"
      using assms(2) nc True t by (auto simp: CompleteCallback_def observe_run Let_def)
    with 1 True show ?thesis by (auto simp: agent_healthy_def)
  next
    case False
    define h where "h = (if SUCCEEDED (ha_hrTranslatedStatusCode a) then g_CurlErrorCodeToHResult r else ha_hrTranslatedStatusCode a)"
    have "\<not> SUCCEEDED h" by (simp add: h_def FAILED_iff_not_SUCCEEDED [symmetric])
    moreover have "l' = l @ [ObComplete h (ha_hrCallback a)]" "ha_onCompleteInvoked a'"
      using assms(2) nc False by (auto simp: CompleteCallback_def observe_run Let_def h_def split: if_splits)
    ultimately show ?thesis using iv by blast
  qed
qed

text \<open>
  C5. Over one transfer the client's \<open>OnComplete\<close> is called exactly once and last, however
  often the completion is reported; \<open>OnHeadersAvailable\<close> at most once and before any data; no data
  follows a refusal; the data are the first pieces of the body, and when the two results passed
  to \<open>OnComplete\<close> are successes they are the whole body.
\<close>

theorem agent_callback_protocol:
  assumes "\<forall>e \<in> set es. \<not> is_complete e" "\<forall>e \<in> set again. is_complete e"
  shows "\<exists>t h k rest.
    snd (snd (run_steps (agent_step (observe ev)) (reset_response a, c, []) (es @ AeComplete info r # again)))
      = t @ [ObComplete h k] \<and>
    transfer_ok t \<and> writes es = payload t @ rest \<and>
    (SUCCEEDED h \<and> SUCCEEDED k \<longrightarrow> r = CURLE_OK \<and> t \<noteq> [] \<and> rest = [])"
proof -
  have i: "proto_inv [] (reset_response a) []"
    by (simp add: proto_inv_def reset_response_def)
  obtain a1 c1 l1 where r1: "run_steps (agent_step (observe ev)) (reset_response a, c, []) es = (a1, c1, l1)"
    by (metis prod_cases3)
  have p: "proto_inv (writes es) a1 l1" using proto_run [OF i assms(1) r1] by simp
  obtain a2 c2 l2 where r2: "CompleteCallback (observe ev) info r (a1, c1, l1) = (a2, c2, l2)"
    by (metis prod_cases3)
  note f = proto_complete [OF p r2]
  then have "run_steps (agent_step (observe ev)) (a2, c2, l2) again = (a2, c2, l2)"
    using assms(2) by (intro complete_again) auto
  then have "run_steps (agent_step (observe ev)) (reset_response a, c, []) (es @ AeComplete info r # again) = (a2, c2, l2)"
    by (simp add: run_steps_append r1 r2)
  with f show ?thesis by fastforce
qed

definition sample_client :: "nat agent_events" where
  "sample_client = \<lparr>ev_OnHeadersAvailable = (\<lambda>a n. (S_OK, n)), ev_OnData = (\<lambda>d n. (S_OK, n + length d)),
     ev_OnComplete = (\<lambda>a h k n. (S_OK, n))\<rparr>"

theorem agent_callback_protocol_witness:
  "\<exists>t h k rest. snd (snd (run_steps (agent_step (observe sample_client)) (reset_response agent_new, 0, [])
     ([AeHeader True ''A:b'', AeWrite (0, 200) ''xy'', AeWrite (0, 200) ''z''] @ AeComplete (0, 200) 0 # [AeComplete (0, 200) 0])))
      = t @ [ObComplete h k] \<and> transfer_ok t \<and> [''xy'', ''z''] = payload t @ rest \<and> rest = []"
proof -
  have run: "snd (snd (run_steps (agent_step (observe sample_client)) (reset_response agent_new, 0, [])
     ([AeHeader True ''A:b'', AeWrite (0, 200) ''xy'', AeWrite (0, 200) ''z''] @ AeComplete (0, 200) 0 # [AeComplete (0, 200) 0])))
     = [ObHeaders 0, ObData ''xy'' 0, ObData ''z'' 0, ObComplete 0 0]" by code_simp
  have s: "SUCCEEDED 0" by (simp add: SUCCEEDED_def)
  show ?thesis
    using agent_callback_protocol [of "[AeHeader True ''A:b'', AeWrite (0, 200) ''xy'', AeWrite (0, 200) ''z'']"
      "[AeComplete (0, 200) 0]" sample_client agent_new 0 "(0, 200)" 0] s
    unfolding run by (auto simp: append_eq_Cons_conv Cons_eq_append_conv)
qed

section \<open>Ranges\<close>

lemma show_nat_u64: "length (show_nat (unat (x :: u64))) \<le> 20"
proof -
  have "unat x < 2 ^ LENGTH(64)" by (rule unsigned_less)
  then have "unat x < 10 ^ 20" by simp
  then show ?thesis by (rule length_show_nat) simp
qed

text \<open>
  C28. The range requested for \<open>lengthBytes\<close> bytes from \<open>startOffset\<close> names the first and the
  last of exactly these bytes and fits its buffer; when the end is past 64 bits, or the empty
  range at 0 is asked for, the call throws. An empty range elsewhere ends before it starts.
\<close>

theorem make_range_exact:
  "MakeRange startOffset lengthBytes =
     (if unat startOffset + unat lengthBytes < 2 ^ 64 \<and> 0 < unat startOffset + unat lengthBytes
      then Inr (show_nat (unat startOffset) @ ''-'' @ show_nat (unat startOffset + unat lengthBytes - 1))
      else Inl (DOResult INTSAFE_E_ARITHMETIC_OVERFLOW))"
proof (cases "unat startOffset + unat lengthBytes < 2 ^ 64")
  case False
  then show ?thesis by (simp add: MakeRange_def UInt64Add_exact)
next
  case True
  let ?a = "startOffset + lengthBytes"
  have a: "unat ?a = unat startOffset + unat lengthBytes" using True by (simp add: unat_word_ariths)
  show ?thesis
  proof (cases "0 < unat startOffset + unat lengthBytes")
    case False
    with True a show ?thesis by (simp add: MakeRange_def UInt64Add_exact UInt64Sub_exact)
  next
    case pos: True
    have s: "UInt64Sub ?a 1 = Inr (?a - 1)" using a pos by (auto simp: UInt64Sub_exact)
    have e: "unat (?a - 1) = unat startOffset + unat lengthBytes - 1"
      using UInt64Sub_value [OF s] a by simp
    have "length (show_nat (unat startOffset) @ ''-'' @ show_nat (unat (?a - 1))) < DO_HTTP_RANGEREQUEST_STR_LEN"
      using show_nat_u64 [of startOffset] show_nat_u64 [of "?a - 1"] by (simp add: DO_HTTP_RANGEREQUEST_STR_LEN_def)
    note fits = StringPrintf_fits [OF this]
    show ?thesis using True pos s e fits by (simp add: MakeRange_def UInt64Add_exact)
  qed
qed

lemma digits_no_slash: "c \<in> set (show_nat n) \<Longrightarrow> isdigit c" "c \<in> set (show_nat n) \<Longrightarrow> c \<noteq> CHR ''/'' \<and> c \<noteq> NUL"
proof -
  show d: "c \<in> set (show_nat n) \<Longrightarrow> isdigit c" using show_nat_digits by blast
  have "\<not> isdigit (CHR ''/'')" "\<not> isdigit NUL" by code_simp+
  with d show "c \<in> set (show_nat n) \<Longrightarrow> c \<noteq> CHR ''/'' \<and> c \<noteq> NUL" by blast
qed

lemma stoull_show:
  assumes "n < 2 ^ 64" "rest = [] \<or> \<not> isdigit (hd rest)" "NUL \<notin> set rest"
  shows "stoull (show_nat n @ rest) = Inr (of_nat n)"
proof -
  have c: "c_str (show_nat n @ rest) = show_nat n @ rest"
    using digits_no_slash(2) [of _ n] assms(3) by (intro c_str_id) auto
  obtain d ds where d: "show_nat n = d # ds" by (cases "show_nat n") auto
  then have "isdigit d" using show_nat_digits [of n] by auto
  then have nd: "\<not> isspace d" "d \<noteq> CHR ''-''" "d \<noteq> CHR ''+''" by (auto simp: isdigit_def isspace_def ord_def)
  have tw: "takeWhile isdigit (show_nat n @ rest) = show_nat n"
  proof (cases rest)
    case Nil
    then show ?thesis using show_nat_digits [of n] by (simp add: takeWhile_all)
  next
    case (Cons r rs)
    then show ?thesis using takeWhile_append_stop [OF show_nat_digits, of r n rs] assms(2) by simp
  qed
  show ?thesis
    using nd assms(1) tw [unfolded d] c [unfolded d] dec_val_show_nat [of n, unfolded d] by (simp add: stoull_def stoul_def Let_def d)
qed

text \<open>
  The total length is read back from a Content-Range header as a server writes it, whatever
  range it names, once the header line has been received.
\<close>

theorem content_range_total:
  assumes "size_all < 2 ^ 64"
  shows "QueryContentLengthFromRange (snd (HeaderCallback True
      (''Content-Range: bytes '' @ show_nat s @ ''-'' @ show_nat e @ ''/'' @ show_nat size_all @ [CHR 0x0D, CHR 0x0A]) a))
    = (S_OK, of_nat size_all)"
proof -
  let ?v = "'' bytes '' @ show_nat s @ ''-'' @ show_nat e @ ''/'' @ show_nat size_all @ [CHR 0x0D, CHR 0x0A]"
  have cut: "find_char (CHR '':'') (''Content-Range:'' @ ?v) = Some 13"
    by simp
  have put: "map_of (header_put k v m) k = Some v" for k :: string and v :: string and m
    by (induction k v m rule: header_put.induct) auto
  have name: "c_str ''Content-Range'' = ''Content-Range''" by code_simp
  have cv: "c_str ?v = ?v"
    using digits_no_slash(2) by (intro c_str_id) (auto simp: NUL_def)
  let ?p = "'' bytes '' @ show_nat s @ ''-'' @ show_nat e"
  have np: "CHR ''/'' \<notin> set ?p" using digits_no_slash(2) by auto
  have fs: "find_char (CHR ''/'') ?v = Some (length ?p)"
    using find_char_split [OF np, of "show_nat size_all @ [CHR 0x0D, CHR 0x0A]"] by simp
  have dr: "drop (length ?p + 1) ?v = show_nat size_all @ [CHR 0x0D, CHR 0x0A]" by simp
  have st: "stoull (show_nat size_all @ [CHR 0x0D, CHR 0x0A]) = Inr (of_nat size_all)"
    using assms by (intro stoull_show) (auto simp: NUL_def isdigit_def ord_def)
  have q: "QueryHeadersByType Header_Range (snd (HeaderCallback True (''Content-Range:'' @ ?v) a)) = (S_OK, ?v)"
    unfolding HeaderCallback_def cut QueryHeadersByType_def QueryHeaders_def Let_def
    by (simp add: name put)
  show ?thesis
    using q fs dr st cv by (simp add: QueryContentLengthFromRange_def)
qed

theorem content_range_total_witness:
  "QueryContentLengthFromRange (snd (HeaderCallback True
      (''Content-Range: bytes '' @ show_nat 10 @ ''-'' @ show_nat 19 @ ''/'' @ show_nat 100 @ [CHR 0x0D, CHR 0x0A]) agent_new))
    = (S_OK, 100)"
  using content_range_total [of 100 10 19 agent_new] by simp

section \<open>Request headers and results\<close>

definition headers_are :: "slist \<Rightarrow> http_agent \<Rightarrow> bool" where
  "headers_are h a \<longleftrightarrow> ha_requestHeaders a = h"

lemma setopt_headers [simp]: "ha_requestHeaders (setopt x a) = ha_requestHeaders a"
  by (simp add: setopt_def)

lemma setopts_headers [simp]: "ha_requestHeaders (fold setopt xs a) = ha_requestHeaders a"
  by (induction xs arbitrary: a) auto

lemma proxy_keeps: "skeeps (headers_are h) (SetWebProxyFromProxyUrl junk p)"
  unfolding SetWebProxyFromProxyUrl_def
  by (auto simp: headers_are_def Let_def split: option.splits intro!: skeeps_intros)

lemma new_client_keeps: "skeeps (headers_are h) (new_client env u t)"
  unfolding new_client_def 
  by (auto simp: headers_are_def client_options_def Let_def split: option.splits intro!: skeeps_intros)

lemma set_url_keeps: "skeeps (headers_are h) (set_url env u)"
  unfolding set_url_def by (auto simp: headers_are_def split: option.splits intro!: skeeps_intros)

lemma CreateClient_headers: "ha_requestHeaders (snd (CreateClient env u p t a)) = ha_requestHeaders a"
proof -
  let ?m = "\<lambda>a. sbind (if ha_curlHandle a = 0 then new_client env u t else sret S_OK) (\<lambda>hr.
        if FAILED hr then sret hr
        else sbind (set_url env u) (\<lambda>hr.
          if FAILED hr then sret hr
          else sthen (SetWebProxyFromProxyUrl (ae_junk env) p) (sret S_OK))) a"
  have "skeeps (headers_are (ha_requestHeaders a)) (sbind (if b then new_client env u t else sret S_OK) (\<lambda>hr.
        if FAILED hr then sret hr
        else sbind (set_url env u) (\<lambda>hr.
          if FAILED hr then sret hr
          else sthen (SetWebProxyFromProxyUrl (ae_junk env) p) (sret S_OK))))" for b
    using proxy_keeps new_client_keeps set_url_keeps by (intro skeeps_intros) auto
  then have "headers_are (ha_requestHeaders a) (snd (?m a))"
    unfolding skeeps_def by (rule allE [where x = a]) (simp add: headers_are_def)
  then show ?thesis unfolding CreateClient_def catch_return_snd headers_are_def by simp
qed

lemma SendRequest_headers:
  assumes "SendRequest me env u p (Some r) t (a, ops) = (hr, a1, ops1)" "\<not> FAILED hr"
  shows "ha_requestHeaders a1 = ha_requestHeaders (slist_append (''Range: bytes='' @ c_str r) a)"
    and "last (ha_options a1) = CURLOPT_HTTPHEADER (ha_requestHeaders a1)"
proof -
  obtain hr0 a0 where c: "CreateClient env u p t a = (hr0, a0)" by (cases "CreateClient env u p t a")
  have h0: "ha_requestHeaders a0 = ha_requestHeaders a" using CreateClient_headers [of env u p t a] c by simp
  have app: "ha_requestHeaders (slist_append x a0) = ha_requestHeaders (slist_append x a)" for x
    using h0 by (simp add: slist_append_def split: slist.splits)
  have f: "FAILED E_OUTOFMEMORY" by simp
  show "ha_requestHeaders a1 = ha_requestHeaders (slist_append (''Range: bytes='' @ c_str r) a)"
    "last (ha_options a1) = CURLOPT_HTTPHEADER (ha_requestHeaders a1)"
    using assms c app f
    by (auto simp: SendRequest_def catch_return_def set_request_headers_def reset_response_def setopt_def Let_def
        split: if_splits prod.splits sum.splits)
qed

text \<open>
  C39. An agent that sends a second ranged request asks libcurl for both ranges: the header list
  of the first request is kept and the new Range header is appended to it.
\<close>

theorem range_headers_accumulate:
  assumes "ha_requestHeaders a = SlNull"
    and "SendRequest me env1 u1 p1 (Some r1) t1 (a, ops) = (S_OK, a1, ops1)"
    and "SendRequest me env2 u2 p2 (Some r2) t2 (a1, ops2) = (S_OK, a2, ops3)"
  shows "last (ha_options a2) = CURLOPT_HTTPHEADER (SlLive [''Range: bytes='' @ c_str r1, ''Range: bytes='' @ c_str r2])"
  using SendRequest_headers [OF assms(2)] SendRequest_headers [OF assms(3)] assms(1)
  by (simp add: slist_append_def)

definition sample_env :: agent_env where
  "sample_env = \<lparr>ae_easy_init = 7, ae_append_ok = True, ae_junk = 0\<rparr>"

theorem range_headers_accumulate_witness:
  "let s1 = snd (SendRequest () sample_env (Some ''http://a/b'') None (Some ''0-9'') 0 (agent_new, curl_start));
       s2 = snd (SendRequest () sample_env (Some ''http://a/b'') None (Some ''5-9'') 0 (fst s1, curl_start))
   in last (ha_options (fst s2)) = CURLOPT_HTTPHEADER (SlLive [''Range: bytes=0-9'', ''Range: bytes=5-9''])"
proof -
  let ?s1 = "SendRequest () sample_env (Some ''http://a/b'') None (Some ''0-9'') 0 (agent_new, curl_start)"
  let ?s2 = "SendRequest () sample_env (Some ''http://a/b'') None (Some ''5-9'') 0 (fst (snd ?s1), curl_start)"
  have 1: "fst ?s1 = S_OK" "fst ?s2 = S_OK" by code_simp+
  then have "?s1 = (S_OK, fst (snd ?s1), snd (snd ?s1))" "?s2 = (S_OK, fst (snd ?s2), snd (snd ?s2))"
    by (metis prod.collapse)+
  note r = range_headers_accumulate [OF _ this]
  have c: "c_str ''0-9'' = ''0-9''" "c_str ''5-9'' = ''5-9''" by code_simp+
  have "ha_requestHeaders agent_new = SlNull" by (simp add: agent_new_def)
  from r [OF this] show ?thesis by (simp add: c)
qed

text \<open>
  A response is accepted exactly for the six success codes; every other code, and every
  curl error, is reported as a failure.
\<close>

theorem status_code_result:
  "(FAILED (ResultFromStatusCode code) \<longleftrightarrow> code \<notin> {200, 201, 202, 203, 204, 206}) \<and>
   FAILED (g_CurlErrorCodeToHResult r)"
proof -
  have "FAILED HTTP_E_STATUS_SERVER_ERROR" "FAILED HTTP_E_STATUS_UNEXPECTED_REDIRECTION" "FAILED HTTP_E_STATUS_NOT_FOUND"
    "FAILED HTTP_E_STATUS_BAD_GATEWAY" "FAILED HTTP_E_STATUS_BAD_REQUEST" "FAILED HTTP_E_STATUS_DENIED"
    "FAILED HTTP_E_STATUS_NONE_ACCEPTABLE" "FAILED HTTP_E_STATUS_FORBIDDEN" "FAILED HTTP_E_STATUS_PROXY_AUTH_REQ"
    "FAILED HTTP_E_STATUS_REQUEST_TIMEOUT" "FAILED HTTP_E_STATUS_REQUEST_TOO_LARGE" "FAILED HTTP_E_STATUS_NOT_SUPPORTED"
    "FAILED HTTP_E_STATUS_UNEXPECTED"
    by (simp_all add: hr_defs FAILED_def)
  then have "code \<notin> {200, 201, 202, 203, 204, 206} \<Longrightarrow> FAILED (ResultFromStatusCode code)"
    unfolding ResultFromStatusCode_def by simp
  moreover have "code \<in> {200, 201, 202, 203, 204, 206} \<Longrightarrow> \<not> FAILED (ResultFromStatusCode code)"
    unfolding ResultFromStatusCode_def by auto
  ultimately show ?thesis by auto
qed

section \<open>What the client keeps\<close>

lemma TrySet_client:
  assumes "\<And>a c. P c \<Longrightarrow> P (snd (ev_OnHeadersAvailable ev a c))" "P c"
  shows "P (snd (TrySetStatusCodeAndInvokeOnHeadersAvailable ev info (a, c)))"
  using assms
  by (auto simp: TrySetStatusCodeAndInvokeOnHeadersAvailable_def Let_def case_prod_unfold)

lemma agent_step_client:
  assumes "\<And>a c. P c \<Longrightarrow> P (snd (ev_OnHeadersAvailable ev a c))"
    and "\<And>d c. P c \<Longrightarrow> P (snd (ev_OnData ev d c))"
    and "\<And>a h k c. P c \<Longrightarrow> P (snd (ev_OnComplete ev a h k c))"
    and "P c"
  shows "P (snd (agent_step ev (a, c) e))"
proof -
  have ts: "P c \<Longrightarrow> P (snd (TrySetStatusCodeAndInvokeOnHeadersAvailable ev info (a, c)))" for info a c
    by (rule TrySet_client) (use assms(1) in auto)
  show ?thesis
  proof (cases e)
    case (AeHeader ok b)
    with assms(4) show ?thesis by simp
  next
    case (AeWrite info b)
    obtain a1 c1 where t: "TrySetStatusCodeAndInvokeOnHeadersAvailable ev info (a, c) = (a1, c1)" by (metis prod.exhaust)
    with ts [OF assms(4), of info a] have "P c1" by simp
    then show ?thesis using assms(2) [of c1 b] by (auto simp: AeWrite WriteCallback_def t Let_def case_prod_unfold)
  next
    case (AeComplete info r)
    show ?thesis
    proof (cases "ha_onCompleteInvoked a")
      case True
      with assms(4) AeComplete show ?thesis by (simp add: CompleteCallback_def)
    next
      case False
      let ?a1 = "a\<lparr>ha_onCompleteInvoked := True\<rparr>"
      obtain a1 c1 where t: "TrySetStatusCodeAndInvokeOnHeadersAvailable ev info (?a1, c) = (a1, c1)" by (metis prod.exhaust)
      with ts [OF assms(4), of info ?a1] have "P c1" by simp
      then show ?thesis using assms(3) assms(4) False
        by (auto simp: AeComplete CompleteCallback_def t Let_def case_prod_unfold)
    qed
  qed
qed

end
