(* ===== verification/Download.thy ===== *)
theory Download
  imports DownloadState HttpAgent Util
begin

text \<open>
  client-lite/src/download/download.cpp: one download. Its state, the requests of the REST side
  (start, pause, finalize, abort, properties, status), the tasks it schedules for itself and the
  events of its HTTP agent. A lambda given to the task thread is a constructor of \<open>task\<close> that
  carries what the lambda captures.
\<close>

section \<open>State\<close>

datatype ConnectionType = CT_None | CT_MCC | CT_CDN

record download =
  dl_key :: nat
  dl_id :: guid
  dl_url :: string
  dl_destFilePath :: string
  dl_noProgressTimeout :: int
  dl_mccFallbackDue :: "timepoint option"
  dl_status :: download_status
  dl_progressTracker :: progress_tracker
  dl_timer :: stop_watch
  dl_fileStream :: do_file
  dl_httpAgent :: "http_agent option"
  dl_responseHeaders :: string
  dl_httpStatusCode :: u32
  dl_proxyList :: proxy_list
  dl_mccHost :: string
  dl_numAttempts :: u32
  dl_connectionType :: ConnectionType
  dl_cbTransferredAtRequestBegin :: u64
  dl_fOriginalHostAttempted :: bool
  dl_fHttpRequestActive :: bool
  dl_fDestFileCreated :: bool
  dl_fAllowMcc :: bool

text \<open>The key is the address of the object, which tags its tasks.\<close>

datatype task_tag = TagDownload nat | TagTracker nat | TagManager

datatype task =
    TkHeaders nat u32 u64 string
  | TkData nat u32
  | TkComplete nat
  | TkFailed nat hresult hresult u32 string
  | TkRetry nat
  | TkProgress nat
  | TkTransient nat
  | TkTransferred nat
  | TkRefreshConfigs

text \<open>
  What downloads share: the clock, the task queue, the transfers, the configuration, the bans,
  the files, and what the environment answers (proxies of a URL, network interfaces, libcurl, the
  iteration order of the response headers, the content of an uninitialised variable). \<open>w_fault\<close>
  records undefined behaviour or an exception that leaves a noexcept function.
\<close>

record world =
  w_now :: timepoint
  w_queue :: "(task, task_tag) task_queue"
  w_curl :: "nat curl_requests"
  w_config :: config_manager
  w_config_env :: config_env
  w_mcc :: mcc_hosts
  w_fs :: file_system
  w_proxies :: "string \<Rightarrow> string list option"
  w_ifaces :: "iface list option"
  w_agent_env :: agent_env
  w_header_order :: "(string \<times> string) list \<Rightarrow> (string \<times> string) list"
  w_junk :: u64
  w_fault :: bool

record ctx =
  cx_dl :: download
  cx_w :: world

definition dget :: "(download \<Rightarrow> 'a) \<Rightarrow> ctx \<Rightarrow> 'a" where
  "dget f c = f (cx_dl c)"

definition dmod :: "(download \<Rightarrow> download) \<Rightarrow> (ctx, unit) sm" where
  "dmod f = smod (\<lambda>c. c\<lparr>cx_dl := f (cx_dl c)\<rparr>)"

definition wmod :: "(world \<Rightarrow> world) \<Rightarrow> (ctx, unit) sm" where
  "wmod f = smod (\<lambda>c. c\<lparr>cx_w := f (cx_w c)\<rparr>)"

definition with_dl :: "(download \<Rightarrow> (ctx, 'a) sm) \<Rightarrow> (ctx, 'a) sm" where
  "with_dl m c = m (cx_dl c) c"

definition with_w :: "(world \<Rightarrow> (ctx, 'a) sm) \<Rightarrow> (ctx, 'a) sm" where
  "with_w m c = m (cx_w c) c"

definition on_fs :: "(file_system, 'a) sm \<Rightarrow> (ctx, 'a) sm" where
  "on_fs m c = (let (r, fs) = m (w_fs (cx_w c)) in (r, c\<lparr>cx_w := (cx_w c)\<lparr>w_fs := fs\<rparr>\<rparr>))"

definition status_mod :: "(download_status \<Rightarrow> download_status) \<Rightarrow> (ctx, unit) sm" where
  "status_mod f = dmod (\<lambda>d. d\<lparr>dl_status := f (dl_status d)\<rparr>)"

definition fault :: "(ctx, unit) sm" where
  "fault = wmod (\<lambda>w. w\<lparr>w_fault := True\<rparr>)"

definition unsetTimeout :: int where "unsetTimeout = 0"

text \<open>The delay is in milliseconds, as the task queue takes it.\<close>

definition sched_task :: "task \<Rightarrow> int \<Rightarrow> task_tag \<Rightarrow> (ctx, unit) sm" where
  "sched_task t delay tag = wmod (\<lambda>w. w\<lparr>w_queue := sched (w_now w) t delay (Some tag) (w_queue w)\<rparr>)"

definition download_new :: "int \<Rightarrow> nat \<Rightarrow> guid \<Rightarrow> string \<Rightarrow> string \<Rightarrow> download res" where
  "download_new junk key newId url destFilePath =
     rbind (if url \<noteq> [] then rbind (ValidateUrl junk url) (\<lambda>v. rbind (Throw_HrIf INET_E_INVALID_URL (\<not> v)) (\<lambda>_. Inr ()))
            else Inr ()) (\<lambda>_.
     Inr \<lparr>dl_key = key, dl_id = newId, dl_url = url, dl_destFilePath = destFilePath,
          dl_noProgressTimeout = unsetTimeout, dl_mccFallbackDue = None, dl_status = status_init,
          dl_progressTracker = pt_init, dl_timer = sw_new, dl_fileStream = None, dl_httpAgent = None,
          dl_responseHeaders = [], dl_httpStatusCode = 0, dl_proxyList = pl_new, dl_mccHost = [],
          dl_numAttempts = 0, dl_connectionType = CT_None, dl_cbTransferredAtRequestBegin = 0,
          dl_fOriginalHostAttempted = False, dl_fHttpRequestActive = False, dl_fDestFileCreated = False,
          dl_fAllowMcc = True\<rparr>)"

section \<open>Helpers of the operations\<close>

definition CancelTasks :: "(ctx, unit) sm" where
  "CancelTasks = with_dl (\<lambda>d. wmod (\<lambda>w. w\<lparr>w_queue :=
     unschedule (Some (TagTracker (dl_key d))) (unschedule (Some (TagDownload (dl_key d))) (w_queue w))\<rparr>))"

text \<open>
  Closing the agent waits until the transfer is inactive: the worker's next pass removes it.
  Callbacks that run while it waits are steps made before.
\<close>

definition close_agent :: "(ctx, unit) sm" where
  "close_agent c =
     (case dl_httpAgent (cx_dl c) of
        None \<Rightarrow> fault c
      | Some a \<Rightarrow>
          (let (waits, a', ops) = Close (a, w_curl (cx_w c));
               ops' = (if waits \<noteq> None then snd (do_work_top ops) else ops)
           in (Inr (), c\<lparr>cx_dl := (cx_dl c)\<lparr>dl_httpAgent := Some a'\<rparr>, cx_w := (cx_w c)\<lparr>w_curl := ops'\<rparr>\<rparr>)))"

text \<open>Destroying the agent closes it; its easy handle is gone with it.\<close>

definition destroy_agent :: "(ctx, unit) sm" where
  "destroy_agent = sthen (with_dl (\<lambda>d. swhen (dl_httpAgent d \<noteq> None) close_agent)) (dmod (\<lambda>d. d\<lparr>dl_httpAgent := None\<rparr>))"

definition stop_timer :: "(ctx, unit) sm" where
  "stop_timer = with_w (\<lambda>w. dmod (\<lambda>d. d\<lparr>dl_timer := sw_Stop (w_now w) (dl_timer d)\<rparr>))"

definition close_file :: "(ctx, unit) sm" where
  "close_file = with_dl (\<lambda>d. sbind (on_fs (DOFile_Close (dl_fileStream d))) (\<lambda>f. dmod (\<lambda>d. d\<lparr>dl_fileStream := f\<rparr>)))"

text \<open>Assigning a file closes the old one in a noexcept function.\<close>

definition assign_file :: "do_file \<Rightarrow> (ctx, unit) sm" where
  "assign_file f = sthen (scatch close_file (\<lambda>_. fault)) (dmod (\<lambda>d. d\<lparr>dl_fileStream := f\<rparr>))"

definition g_INTERNET_DEFAULT_PORT :: int where "g_INTERNET_DEFAULT_PORT = 0"

definition SwapUrlHostNameForMCC :: "int \<Rightarrow> string \<Rightarrow> string \<Rightarrow> int \<Rightarrow> string res" where
  "SwapUrlHostNameForMCC junk url newHostname port =
     rbind (uri_of_string junk url) (\<lambda>inputUri.
       let out1 = set_host newHostname False (m_components inputUri);
           out2 = (if port \<noteq> g_INTERNET_DEFAULT_PORT then set_port port out1 else out1);
           out3 = append_query_param ''cacheHostOrigin'' (m_host (m_components inputUri)) True out2
       in builder_to_string out3)"

text \<open>The new connection type of a retry, and whether the cache host may still be used.\<close>

definition retry_connection :: "timepoint \<Rightarrow> download \<Rightarrow> ConnectionType \<times> bool" where
  "retry_connection now d =
     (case dl_mccFallbackDue d of
        Some due \<Rightarrow> if due \<le> now then (CT_CDN, False) else (dl_connectionType d, dl_fAllowMcc d)
      | None \<Rightarrow>
          let noProgress = (dl_cbTransferredAtRequestBegin d = BytesTransferred (dl_status d));
              giveUp = (noProgress \<and> 2 \<le> dl_numAttempts d)
          in (case dl_connectionType d of
                CT_MCC \<Rightarrow> if dl_fOriginalHostAttempted d then (if giveUp then CT_CDN else CT_MCC) else CT_CDN
              | CT_CDN \<Rightarrow> if giveUp then CT_MCC else CT_CDN
              | CT_None \<Rightarrow> CT_None, dl_fAllowMcc d))"

definition UpdateConnectionTypeAndGetUrl :: "bool \<Rightarrow> (ctx, string) sm" where
  "UpdateConnectionTypeAndGetUrl retryAfterFailure =
     with_w (\<lambda>w. with_dl (\<lambda>d0.
       let (newType, allow) = (if retryAfterFailure then retry_connection (w_now w) d0 else (CT_MCC, dl_fAllowMcc d0))
       in sthen (dmod (\<lambda>d. d\<lparr>dl_fAllowMcc := allow\<rparr>)) (with_dl (\<lambda>d.
         sbind (if newType = CT_MCC \<and> dl_fAllowMcc d \<and> dl_mccHost d \<noteq> []
                then sres (IsBanned (w_now w) (dl_mccHost d) (dl_url d) (w_mcc w)) else sret True) (\<lambda>banned.
         sbind (if \<not> banned
                then sbind (sres (SwapUrlHostNameForMCC (ae_junk (w_agent_env w)) (dl_url d) (dl_mccHost d) g_INTERNET_DEFAULT_PORT))
                       (\<lambda>u. sret (CT_MCC, u))
                else sret (CT_CDN, dl_url d)) (\<lambda>(ct, urlToUse).
         sthen (dmod (\<lambda>d. if ct \<noteq> dl_connectionType d then d\<lparr>dl_connectionType := ct, dl_numAttempts := 1\<rparr>
                          else d\<lparr>dl_numAttempts := dl_numAttempts d + 1\<rparr>))
           (sret urlToUse)))))))"

section \<open>Sending a request\<close>

definition agent_send :: "string \<Rightarrow> string option \<Rightarrow> string option \<Rightarrow> u32 \<Rightarrow> (ctx, hresult) sm" where
  "agent_send url proxy rng connectTimeoutSecs c =
     (case dl_httpAgent (cx_dl c) of
        None \<Rightarrow> sthen fault (sret S_OK) c
      | Some a \<Rightarrow>
          (let (hr, a', ops) = SendRequest (dl_key (cx_dl c)) (w_agent_env (cx_w c)) (Some url) proxy rng
                                 connectTimeoutSecs (a, w_curl (cx_w c))
           in (Inr hr, c\<lparr>cx_dl := (cx_dl c)\<lparr>dl_httpAgent := Some a'\<rparr>, cx_w := (cx_w c)\<lparr>w_curl := ops\<rparr>\<rparr>)))"

definition SchedProgressTracking :: "(ctx, unit) sm" where
  "SchedProgressTracking = with_dl (\<lambda>d. with_w (\<lambda>w.
     if is_scheduled (Some (TagTracker (dl_key d))) (w_queue w) then sret ()
     else sched_task (TkProgress (dl_key d)) (g_progressTrackerCheckInterval * 1000) (TagTracker (dl_key d))))"

definition next_proxy :: "(ctx, string option) sm" where
  "next_proxy = with_dl (\<lambda>d.
     let (proxy, l) = pl_Next (dl_proxyList d)
     in sthen (dmod (\<lambda>d. d\<lparr>dl_proxyList := l\<rparr>)) (sret (if proxy \<noteq> [] then Some proxy else None)))"

definition SendHttpRequest :: "bool \<Rightarrow> (ctx, unit) sm" where
  "SendHttpRequest retryAfterFailure =
     sbind next_proxy (\<lambda>szProxyUrl.
     sbind (UpdateConnectionTypeAndGetUrl retryAfterFailure) (\<lambda>url.
     with_dl (\<lambda>d.
       let connectTimeoutSecs = (if dl_connectionType d = CT_MCC then 3 else 15);
           st = dl_status d
       in sthen
         (if BytesTransferred st = 0
          then sbind (agent_send url szProxyUrl None connectTimeoutSecs) throw_if_failed
          else sbind (sres (MakeRange (BytesTransferred st) (BytesTotal st - BytesTransferred st))) (\<lambda>rng.
               sbind (agent_send url szProxyUrl (Some rng) connectTimeoutSecs) throw_if_failed))
        (sthen (with_w (\<lambda>w. dmod (\<lambda>d. d\<lparr>
            dl_timer := sw_Start (w_now w) (dl_timer d),
            dl_fHttpRequestActive := True,
            dl_cbTransferredAtRequestBegin := BytesTransferred (dl_status d),
            dl_fOriginalHostAttempted := (if dl_connectionType d = CT_CDN then True else dl_fOriginalHostAttempted d),
            dl_status := (dl_status d)\<lparr>Error := S_OK, ExtendedError := S_OK\<rparr>\<rparr>)))
          SchedProgressTracking))))"

definition MaxNoProgressIntervals :: "download \<Rightarrow> u32" where
  "MaxNoProgressIntervals d =
     (if dl_noProgressTimeout d = unsetTimeout then g_progressTrackerMaxNoProgressIntervals
      else of_int ((dl_noProgressTimeout d + 5) div g_progressTrackerCheckInterval))"

section \<open>Transitions\<close>

definition mcc_fallback_delay :: "(ctx, int option) sm" where
  "mcc_fallback_delay = with_w (\<lambda>w.
     let (delay, cfg) = CacheHostFallbackDelay ((w_config_env w)\<lparr>ce_now := w_now w\<rparr>) (w_config w)
     in sthen (wmod (\<lambda>w. w\<lparr>w_config := cfg\<rparr>)) (sret delay))"

definition mcc_get_host :: "(ctx, string) sm" where
  "mcc_get_host = with_w (\<lambda>w.
     let (h, cfg) = GetHost ((w_config_env w)\<lparr>ce_now := w_now w\<rparr>) (w_config w)
     in sthen (wmod (\<lambda>w. w\<lparr>w_config := cfg\<rparr>)) (sret h))"

definition refresh_proxies :: "(ctx, unit) sm" where
  "refresh_proxies = with_w (\<lambda>w. dmod (\<lambda>d. d\<lparr>dl_proxyList := pl_Refresh (w_proxies w (c_str (dl_url d))) (dl_proxyList d)\<rparr>))"

definition set_fallback_due :: "int option \<Rightarrow> (ctx, unit) sm" where
  "set_fallback_due delay =
     (case delay of
        None \<Rightarrow> sret ()
      | Some secs \<Rightarrow> with_w (\<lambda>w. dmod (\<lambda>d. d\<lparr>dl_mccFallbackDue :=
          Some (if secs = g_cacheHostFallbackDelayNoFallback then timepoint_max else w_now w + secs * SECOND)\<rparr>)))"

definition start :: "(ctx, unit) sm" where
  "start = with_dl (\<lambda>d.
     sthen (throw_hr_if DO_E_DOWNLOAD_NO_URI (dl_url d = []))
    (sthen (throw_hr_if DO_E_FILE_DOWNLOADSINK_UNSPECIFIED (dl_destFilePath d = []))
    (sbind (on_fs (DOFile_Create (c_str (dl_destFilePath d)))) (\<lambda>f.
     sthen (assign_file f)
    (sthen (dmod (\<lambda>d. d\<lparr>dl_fDestFileCreated := True\<rparr>))
    (sthen destroy_agent
    (sthen (dmod (\<lambda>d. d\<lparr>dl_httpAgent := Some agent_new\<rparr>))
    (sthen refresh_proxies
    (sbind mcc_fallback_delay (\<lambda>delay.
     sthen (set_fallback_due delay)
    (sbind mcc_get_host (\<lambda>h.
     sthen (dmod (\<lambda>d. d\<lparr>dl_mccHost := h\<rparr>)) (SendHttpRequest False)))))))))))))"

definition resume :: "(ctx, unit) sm" where
  "resume = with_dl (\<lambda>d.
     sbind (on_fs (DOFile_Open (c_str (dl_destFilePath d)))) (\<lambda>f.
     sthen (assign_file f)
       (if BytesTotal (dl_status d) \<noteq> 0 \<and> BytesTransferred (dl_status d) = BytesTotal (dl_status d)
        then wmod (\<lambda>w. w\<lparr>w_queue := sched_immediate (w_now w) (TkTransferred (dl_key d)) (Some (TagDownload (dl_key d))) (w_queue w)\<rparr>)
        else sthen (if dl_fAllowMcc d then sbind mcc_get_host (\<lambda>h. dmod (\<lambda>d. d\<lparr>dl_mccHost := h\<rparr>)) else sret ())
               (SendHttpRequest False))))"

definition pause :: "(ctx, unit) sm" where
  "pause = sthen close_agent (sthen stop_timer (sthen (dmod (\<lambda>d. d\<lparr>dl_fHttpRequestActive := False\<rparr>)) close_file))"

definition finalize :: "(ctx, unit) sm" where
  "finalize = sthen close_agent (sthen (dmod (\<lambda>d. d\<lparr>dl_fHttpRequestActive := False\<rparr>)) (sthen close_file CancelTasks))"

definition abort :: "(ctx, unit) sm" where
  "abort = scatch
     (sthen (with_dl (\<lambda>d. swhen (dl_httpAgent d \<noteq> None) close_agent))
     (sthen stop_timer
     (sthen close_file
     (sthen CancelTasks
        (with_dl (\<lambda>d. swhen (dl_fDestFileCreated d \<and> dl_destFilePath d \<noteq> [])
           (on_fs (DOFile_Delete (c_str (dl_destFilePath d))))))))))
     (\<lambda>_. sret ())"

text \<open>The state changes the REST side may ask for.\<close>

fun PerformStateChange_from :: "DownloadState \<Rightarrow> DownloadState \<Rightarrow> (ctx, unit) sm" where
  "PerformStateChange_from DS_Created DS_Transferring = sthen start (status_mod st_Transferring)"
| "PerformStateChange_from DS_Created DS_Paused = sret ()"
| "PerformStateChange_from DS_Created DS_Finalized = throw_hr DO_E_INVALID_STATE"
| "PerformStateChange_from DS_Created DS_Aborted = sthen abort (status_mod st_Aborted)"
| "PerformStateChange_from DS_Transferring DS_Transferring = sret ()"
| "PerformStateChange_from DS_Transferring DS_Paused = sthen pause (status_mod (st_Paused S_OK S_OK))"
| "PerformStateChange_from DS_Transferring DS_Finalized = throw_hr DO_E_INVALID_STATE"
| "PerformStateChange_from DS_Transferring DS_Aborted = sthen abort (status_mod st_Aborted)"
| "PerformStateChange_from DS_Transferred DS_Transferring = sret ()"
| "PerformStateChange_from DS_Transferred DS_Paused = sret ()"
| "PerformStateChange_from DS_Transferred DS_Finalized = sthen finalize (status_mod st_Finalized)"
| "PerformStateChange_from DS_Transferred DS_Aborted = sthen abort (status_mod st_Aborted)"
| "PerformStateChange_from DS_Paused DS_Transferring = sthen resume (status_mod st_Transferring)"
| "PerformStateChange_from DS_Paused DS_Paused = sret ()"
| "PerformStateChange_from DS_Paused DS_Finalized = throw_hr DO_E_INVALID_STATE"
| "PerformStateChange_from DS_Paused DS_Aborted = sthen abort (status_mod st_Aborted)"
| "PerformStateChange_from DS_Finalized newState = throw_hr_if DO_E_INVALID_STATE (newState \<noteq> DS_Finalized)"
| "PerformStateChange_from DS_Aborted newState = throw_hr_if DO_E_INVALID_STATE (newState \<noteq> DS_Aborted)"
| "PerformStateChange_from _ _ = sret ()"

definition PerformStateChange :: "DownloadState \<Rightarrow> (ctx, unit) sm" where
  "PerformStateChange newState = with_dl (\<lambda>d. PerformStateChange_from (State (dl_status d)) newState)"

definition Start :: "(ctx, unit) sm" where "Start = PerformStateChange DS_Transferring"
definition Pause :: "(ctx, unit) sm" where "Pause = PerformStateChange DS_Paused"
definition Finalize :: "(ctx, unit) sm" where "Finalize = PerformStateChange DS_Finalized"
definition Abort :: "(ctx, unit) sm" where "Abort = PerformStateChange DS_Aborted"

section \<open>Properties and status\<close>

definition SetProperty :: "DownloadProperty \<Rightarrow> string \<Rightarrow> (ctx, unit) sm" where
  "SetProperty key val = with_dl (\<lambda>d. with_w (\<lambda>w.
     case key of
       DP_Id \<Rightarrow> throw_hr DO_E_READ_ONLY_PROPERTY
     | DP_Uri \<Rightarrow>
         sthen (throw_hr_if E_INVALIDARG (val = []))
        (sbind (sres (ValidateUrl (ae_junk (w_agent_env w)) val)) (\<lambda>ok.
         sthen (throw_hr_if INET_E_INVALID_URL (\<not> ok))
        (sthen (throw_hr_if DO_E_INVALID_STATE (State (dl_status d) \<noteq> DS_Created \<and> State (dl_status d) \<noteq> DS_Paused))
        (sthen (dmod (\<lambda>d. d\<lparr>dl_url := val\<rparr>))
        (swhen (State (dl_status d) = DS_Paused \<and> val \<noteq> dl_url d)
          (sthen (dmod (\<lambda>d. d\<lparr>dl_progressTracker := pt_Reset (dl_progressTracker d)\<rparr>)) refresh_proxies))))))
     | DP_LocalPath \<Rightarrow>
         sthen (throw_hr_if E_INVALIDARG (val = []))
        (sthen (throw_hr_if DO_E_INVALID_STATE (State (dl_status d) \<noteq> DS_Created))
        (dmod (\<lambda>d. d\<lparr>dl_destFilePath := val\<rparr>)))
     | DP_NoProgressTimeoutSeconds \<Rightarrow>
         sbind (sres (ToUInt val)) (\<lambda>v.
         sthen (throw_hr_if E_INVALIDARG (uint v < g_progressTrackerCheckInterval))
        (dmod (\<lambda>d. d\<lparr>dl_noProgressTimeout := uint v\<rparr>)))
     | _ \<Rightarrow> sret ()))"

definition GetProperty :: "DownloadProperty \<Rightarrow> download \<Rightarrow> string" where
  "GetProperty key d =
     (case key of
        DP_Id \<Rightarrow> GuidToString (dl_id d)
      | DP_Uri \<Rightarrow> dl_url d
      | DP_LocalPath \<Rightarrow> dl_destFilePath d
      | DP_NoProgressTimeoutSeconds \<Rightarrow> show_int (dl_noProgressTimeout d)
      | _ \<Rightarrow> [])"

definition GetStatus :: "download \<Rightarrow> download_status" where
  "GetStatus d = dl_status d"

section \<open>Errors and retries\<close>

definition HandleTransientError :: "hresult \<Rightarrow> (ctx, unit) sm" where
  "HandleTransientError hr = with_dl (\<lambda>d.
     sthen (status_mod (st_Paused S_OK hr)) (sched_task (TkTransient (dl_key d)) (30 * 1000) (TagDownload (dl_key d))))"

definition ResumeAfterTransientError :: "(ctx, unit) sm" where
  "ResumeAfterTransientError = with_dl (\<lambda>d.
     swhen (IsTransientError (dl_status d)) (sthen (SendHttpRequest False) (status_mod st_Transferring)))"

definition UsingMcc :: "download \<Rightarrow> bool" where
  "UsingMcc d \<longleftrightarrow> dl_connectionType d = CT_MCC"

definition NoFallbackFromMcc :: "download \<Rightarrow> bool" where
  "NoFallbackFromMcc d \<longleftrightarrow> dl_mccFallbackDue d = Some timepoint_max"

definition FallbackFromMccDue :: "timepoint \<Rightarrow> download \<Rightarrow> bool" where
  "FallbackFromMccDue now d \<longleftrightarrow> (case dl_mccFallbackDue d of None \<Rightarrow> False | Some due \<Rightarrow> due \<le> now)"

definition ShouldPauseMccUsage :: "timepoint \<Rightarrow> bool \<Rightarrow> download \<Rightarrow> bool" where
  "ShouldPauseMccUsage now isFatalError d =
     (if UsingMcc d then
        if isFatalError then True
        else (case dl_mccFallbackDue d of
                Some due \<Rightarrow> due \<le> now
              | None \<Rightarrow> \<not> dl_fOriginalHostAttempted d)
      else False)"

definition ShouldFailFastPerConnectionType :: "download \<Rightarrow> bool" where
  "ShouldFailFastPerConnectionType d = (if UsingMcc d then NoFallbackFromMcc d else True)"

definition CURLE_WRITE_ERROR :: "32 word" where "CURLE_WRITE_ERROR = 23"

definition IsFatalError :: "hresult \<Rightarrow> hresult \<Rightarrow> u32 \<Rightarrow> download \<Rightarrow> bool" where
  "IsFatalError hrRequest hrCallback httpStatusCode d =
     (if FAILED hrCallback then True
      else if IsClientError httpStatusCode \<and> ShouldFailFastPerConnectionType d then True
      else hrRequest \<in> {E_OUTOFMEMORY, INET_E_INVALID_URL, DO_E_INSUFFICIENT_RANGE_SUPPORT,
             HRESULT_FROM_XPLAT_SYSERR CURLE_WRITE_ERROR})"

definition report_host_error :: "hresult \<Rightarrow> (ctx, unit) sm" where
  "report_host_error hrRequest c =
     (let d = cx_dl c; w = cx_w c;
          (r, m) = ReportHostError (w_now w) hrRequest (dl_httpStatusCode d) (dl_mccHost d) (dl_url d) (w_mcc w)
      in (r, c\<lparr>cx_w := w\<lparr>w_mcc := m\<rparr>\<rparr>))"

text \<open>The task a failed request schedules.\<close>

definition request_failed :: "hresult \<Rightarrow> hresult \<Rightarrow> u32 \<Rightarrow> string \<Rightarrow> (ctx, unit) sm" where
  "request_failed hrRequest hrCallback httpStatusCode responseHeaders =
     sthen (dmod (\<lambda>d. d\<lparr>dl_fHttpRequestActive := False, dl_httpStatusCode := httpStatusCode, dl_responseHeaders := responseHeaders\<rparr>))
     (with_w (\<lambda>w.
       if \<not> HasViableInterface (w_ifaces w) then HandleTransientError DO_E_BLOCKED_BY_NO_NETWORK
       else sthen (with_dl (\<lambda>d. swhen (UsingMcc d) (report_host_error hrRequest)))
         (with_dl (\<lambda>d.
            let hrErrorToReport = (if FAILED hrCallback then hrCallback else hrRequest)
            in if IsFatalError hrRequest hrCallback httpStatusCode d
               then sthen pause (status_mod (st_Paused hrErrorToReport S_OK))
               else sthen (dmod (\<lambda>d. d\<lparr>dl_status := (dl_status d)\<lparr>Error := hrErrorToReport\<rparr>,
                                     dl_progressTracker := OnDownloadFailure (dl_progressTracker d)\<rparr>))
                 (with_dl (\<lambda>d.
                    let pauseMcc = ShouldPauseMccUsage (w_now w) (IsClientError (dl_httpStatusCode d)) d;
                        retryDelay = (if pauseMcc then 0 else NextRetryDelay (dl_progressTracker d))
                    in sthen (swhen pauseMcc (dmod (\<lambda>d. d\<lparr>dl_progressTracker := ResetRetryDelay (dl_progressTracker d)\<rparr>)))
                         (sched_task (TkRetry (dl_key d)) (retryDelay * 1000) (TagDownload (dl_key d)))))))))"

section \<open>Tasks\<close>

definition run_headers :: "u32 \<Rightarrow> u64 \<Rightarrow> string \<Rightarrow> (ctx, unit) sm" where
  "run_headers httpStatusCode bytesTotal responseHeaders =
     dmod (\<lambda>d. d\<lparr>dl_httpStatusCode := httpStatusCode, dl_responseHeaders := responseHeaders,
                dl_status := (dl_status d)\<lparr>BytesTotal := bytesTotal\<rparr>\<rparr>)"

definition run_data :: "u32 \<Rightarrow> (ctx, unit) sm" where
  "run_data cbData = status_mod (\<lambda>st. st\<lparr>BytesTransferred := BytesTransferred st + ucast cbData\<rparr>)"

definition run_complete :: "(ctx, unit) sm" where
  "run_complete = sthen (dmod (\<lambda>d. d\<lparr>dl_fHttpRequestActive := False\<rparr>)) (sthen stop_timer (status_mod st_Transferred))"

definition run_retry :: "(ctx, unit) sm" where
  "run_retry = with_dl (\<lambda>d.
     swhen (State (dl_status d) = DS_Transferring \<and> \<not> dl_fHttpRequestActive d) (SendHttpRequest True))"

definition run_progress :: "(ctx, unit) sm" where
  "run_progress = with_dl (\<lambda>d.
     swhen (State (dl_status d) = DS_Transferring)
       (let (fTimedOut, p) = CheckProgress (BytesTransferred (dl_status d)) (MaxNoProgressIntervals d) (dl_progressTracker d)
        in sthen (dmod (\<lambda>d. d\<lparr>dl_progressTracker := p\<rparr>))
             (if fTimedOut
              then sthen pause (with_dl (\<lambda>d. status_mod (st_Paused DO_E_DOWNLOAD_NO_PROGRESS (Error (dl_status d)))))
              else SchedProgressTracking)))"

definition run_transient :: "(ctx, unit) sm" where
  "run_transient = with_w (\<lambda>w.
     if HasViableInterface (w_ifaces w) then ResumeAfterTransientError
     else HandleTransientError DO_E_BLOCKED_BY_NO_NETWORK)"

fun run_download_task :: "task \<Rightarrow> (ctx, unit) sm" where
  "run_download_task (TkHeaders _ httpStatusCode bytesTotal responseHeaders) = run_headers httpStatusCode bytesTotal responseHeaders"
| "run_download_task (TkData _ cbData) = run_data cbData"
| "run_download_task (TkComplete _) = run_complete"
| "run_download_task (TkFailed _ hrRequest hrCallback httpStatusCode responseHeaders) =
     request_failed hrRequest hrCallback httpStatusCode responseHeaders"
| "run_download_task (TkRetry _) = run_retry"
| "run_download_task (TkProgress _) = run_progress"
| "run_download_task (TkTransient _) = run_transient"
| "run_download_task (TkTransferred _) = status_mod st_Transferred"
| "run_download_task TkRefreshConfigs = sret ()"

section \<open>Events of the HTTP agent\<close>

definition HTTP_STATUS_OK :: u32 where "HTTP_STATUS_OK = 200"
definition HTTP_STATUS_PARTIAL_CONTENT :: u32 where "HTTP_STATUS_PARTIAL_CONTENT = 206"

text \<open>
  For other accepted codes \<open>bytesTotal\<close> is not assigned and its content goes into the status.
\<close>

definition Download_OnHeadersAvailable :: "http_agent \<Rightarrow> ctx \<Rightarrow> hresult \<times> ctx" where
  "Download_OnHeadersAvailable a = catch_return (with_w (\<lambda>w. with_dl (\<lambda>d.
     let httpStatusCode = QueryStatusCode a;
         (_, responseHeaders) = QueryHeaders (w_header_order w) None a
     in sbind (if httpStatusCode = HTTP_STATUS_OK then sres (QueryContentLength a)
               else if httpStatusCode = HTTP_STATUS_PARTIAL_CONTENT then sret (QueryContentLengthFromRange a)
               else sret (S_OK, w_junk w)) (\<lambda>(hr, bytesTotal).
          if FAILED hr then sret hr
          else sthen (sched_task (TkHeaders (dl_key d) httpStatusCode bytesTotal responseHeaders) 0 (TagDownload (dl_key d)))
                 (sret S_OK)))))"

definition Download_OnData :: "string \<Rightarrow> ctx \<Rightarrow> hresult \<times> ctx" where
  "Download_OnData pData = catch_return (with_dl (\<lambda>d.
     sthen (on_fs (DOFile_Append (dl_fileStream d) pData))
    (sthen (sched_task (TkData (dl_key d) (of_nat (length pData))) 0 (TagDownload (dl_key d))) (sret S_OK))))"

definition Download_OnComplete :: "http_agent \<Rightarrow> hresult \<Rightarrow> hresult \<Rightarrow> ctx \<Rightarrow> hresult \<times> ctx" where
  "Download_OnComplete a hrRequest hrCallback c =
     (let d = cx_dl c; w = cx_w c;
          t = (if SUCCEEDED hrRequest then TkComplete (dl_key d)
               else TkFailed (dl_key d) hrRequest hrCallback (QueryStatusCode a)
                      (snd (QueryHeaders (w_header_order w) None a)))
      in (S_OK, snd (sched_task t 0 (TagDownload (dl_key d)) c)))"

definition download_events :: "ctx agent_events" where
  "download_events = \<lparr>ev_OnHeadersAvailable = Download_OnHeadersAvailable, ev_OnData = Download_OnData, ev_OnComplete = Download_OnComplete\<rparr>"

text \<open>An event of libcurl for the download's agent.\<close>

definition download_agent_event :: "agent_event \<Rightarrow> ctx \<Rightarrow> ctx" where
  "download_agent_event e c =
     (case dl_httpAgent (cx_dl c) of
        None \<Rightarrow> c
      | Some a \<Rightarrow> (let (a', c') = agent_step download_events (a, c) e
                  in c'\<lparr>cx_dl := (cx_dl c')\<lparr>dl_httpAgent := Some a'\<rparr>\<rparr>))"

definition download_destroy :: "(ctx, unit) sm" where
  "download_destroy = sthen CancelTasks destroy_agent"

end
