(* ===== verification/DownloadProps.thy ===== *)
theory DownloadProps
  imports Download
begin

text \<open>
  Properties of one download: the table of state changes, what each request may write, the choice
  between the cache host and the original host, and the ownership of the destination file.
\<close>

section \<open>Frames\<close>

lemma skeeps_with_dl [intro]: "(\<And>d. skeeps P (m d)) \<Longrightarrow> skeeps P (with_dl m)"
  by (simp add: skeeps_def with_dl_def)

lemma skeeps_with_w [intro]: "(\<And>w. skeeps P (m w)) \<Longrightarrow> skeeps P (with_w m)"
  by (simp add: skeeps_def with_w_def)

lemma skeeps_dmod [intro]: "(\<And>c. P c \<Longrightarrow> P (c\<lparr>cx_dl := f (cx_dl c)\<rparr>)) \<Longrightarrow> skeeps P (dmod f)"
  by (simp add: skeeps_def dmod_def)

lemma skeeps_wmod [intro]: "(\<And>c. P c \<Longrightarrow> P (c\<lparr>cx_w := f (cx_w c)\<rparr>)) \<Longrightarrow> skeeps P (wmod f)"
  by (simp add: skeeps_def wmod_def)

lemma skeeps_status_mod [intro]:
  "(\<And>c. P c \<Longrightarrow> P (c\<lparr>cx_dl := (cx_dl c)\<lparr>dl_status := f (dl_status (cx_dl c))\<rparr>\<rparr>)) \<Longrightarrow> skeeps P (status_mod f)"
  by (simp add: status_mod_def skeeps_dmod)

lemma skeeps_on_fs [intro]:
  "(\<And>c r fs. P c \<Longrightarrow> m (w_fs (cx_w c)) = (r, fs) \<Longrightarrow> P (c\<lparr>cx_w := (cx_w c)\<lparr>w_fs := fs\<rparr>\<rparr>)) \<Longrightarrow> skeeps P (on_fs m)"
  by (auto simp: skeeps_def on_fs_def split: prod.splits)

lemmas frame_intros = skeeps_intros skeeps_with_dl skeeps_with_w skeeps_dmod skeeps_wmod skeeps_status_mod
  skeeps_throw_hr_if skeeps_throw_if_failed

text \<open>A predicate that looks at the state of the download only.\<close>

definition state_is :: "DownloadState \<Rightarrow> ctx \<Rightarrow> bool" where
  "state_is s c \<longleftrightarrow> State (dl_status (cx_dl c)) = s"

named_theorems keeps_state "operations that keep the state of the download"

lemma ks_on_fs [keeps_state]: "skeeps (state_is s) (on_fs m)"
  by (rule skeeps_on_fs) (simp add: state_is_def)

lemma ks_sched [keeps_state]: "skeeps (state_is s) (sched_task t n g)"
  unfolding sched_task_def by (rule skeeps_wmod) (simp add: state_is_def)

lemma ks_fault [keeps_state]: "skeeps (state_is s) fault"
  unfolding fault_def by (rule skeeps_wmod) (simp add: state_is_def)

lemma ks_cancel [keeps_state]: "skeeps (state_is s) CancelTasks"
  unfolding CancelTasks_def by (intro frame_intros) (simp add: state_is_def)

lemma ks_close_agent [keeps_state]: "skeeps (state_is s) close_agent"
  using ks_fault [of s] by (auto simp: skeeps_def close_agent_def state_is_def Let_def split: option.splits prod.splits)

lemma ks_agent_send [keeps_state]: "skeeps (state_is s) (agent_send u p r t)"
proof -
  have "skeeps (state_is s) (sthen fault (sret S_OK))" by (intro frame_intros keeps_state)
  then show ?thesis
    by (auto simp: skeeps_def agent_send_def state_is_def Let_def split: option.splits prod.splits)
qed

lemma ks_stop_timer [keeps_state]: "skeeps (state_is s) stop_timer"
  unfolding stop_timer_def by (intro frame_intros) (simp add: state_is_def)

lemma ks_close_file [keeps_state]: "skeeps (state_is s) close_file"
  unfolding close_file_def by (intro frame_intros keeps_state) (simp add: state_is_def)

lemma ks_assign_file [keeps_state]: "skeeps (state_is s) (assign_file f)"
  unfolding assign_file_def by (intro frame_intros keeps_state) (simp add: state_is_def)

lemma ks_destroy_agent [keeps_state]: "skeeps (state_is s) destroy_agent"
  unfolding destroy_agent_def by (intro frame_intros keeps_state) (simp add: state_is_def)

lemma ks_next_proxy [keeps_state]: "skeeps (state_is s) next_proxy"
  unfolding next_proxy_def by (auto simp: state_is_def case_prod_unfold Let_def intro!: frame_intros)

lemma ks_update [keeps_state]: "skeeps (state_is s) (UpdateConnectionTypeAndGetUrl r)"
  unfolding UpdateConnectionTypeAndGetUrl_def
  by (auto simp: state_is_def case_prod_unfold Let_def intro!: frame_intros split: if_splits)

lemma ks_progress [keeps_state]: "skeeps (state_is s) SchedProgressTracking"
  unfolding SchedProgressTracking_def by (intro frame_intros keeps_state)

lemma ks_send [keeps_state]: "skeeps (state_is s) (SendHttpRequest r)"
  unfolding SendHttpRequest_def Let_def
  by (intro frame_intros keeps_state) (simp_all add: state_is_def)

lemma ks_config [keeps_state]:
  "skeeps (state_is s) mcc_fallback_delay" "skeeps (state_is s) mcc_get_host" "skeeps (state_is s) refresh_proxies"
  "skeeps (state_is s) (set_fallback_due x)"
  unfolding mcc_fallback_delay_def mcc_get_host_def refresh_proxies_def set_fallback_due_def
  by (auto simp: state_is_def case_prod_unfold Let_def intro!: frame_intros split: option.splits)

lemma ks_start: "skeeps (state_is s) start"
  unfolding start_def by (intro frame_intros keeps_state) (simp_all add: state_is_def)

lemma ks_resume: "skeeps (state_is s) resume"
  unfolding resume_def by (intro frame_intros keeps_state) (simp_all add: state_is_def)

lemma ks_pause: "skeeps (state_is s) pause"
  unfolding pause_def by (intro frame_intros keeps_state) (simp_all add: state_is_def)

lemma ks_finalize: "skeeps (state_is s) finalize"
  unfolding finalize_def by (intro frame_intros keeps_state) (simp_all add: state_is_def)

lemma ks_abort: "skeeps (state_is s) abort"
  unfolding abort_def by (intro frame_intros keeps_state)

section \<open>The table of state changes\<close>

text \<open>
  What a request leads to in each state; \<open>None\<close> is a request that is refused. Everything but the
  four states a client asks for is left out.
\<close>

definition request_target :: "DownloadState \<Rightarrow> DownloadState \<Rightarrow> DownloadState option" where
  "request_target s req =
     (if s \<in> {DS_Finalized, DS_Aborted} then (if req = s then Some s else None)
      else if req = DS_Aborted then Some DS_Aborted
      else if req = DS_Finalized then (if s = DS_Transferred then Some DS_Finalized else None)
      else if s = DS_Transferred \<or> (s = DS_Created \<and> req = DS_Paused) then Some s
      else Some req)"

definition client_request :: "DownloadState \<Rightarrow> bool" where
  "client_request req \<longleftrightarrow> req \<in> {DS_Transferring, DS_Paused, DS_Finalized, DS_Aborted}"

lemma keeps_run: "skeeps (state_is s) m \<Longrightarrow> state_is s c \<Longrightarrow> m c = (r, c') \<Longrightarrow> state_is s c'"
  by (rule skeepsD)

lemma state_is_self: "state_is (State (dl_status (cx_dl c))) c"
  by (simp add: state_is_def)

lemma sthen_status_mod:
  assumes "skeeps (state_is s) m" "state_is s c"
  shows "case fst (sthen m (status_mod f) c) of
      Inl e \<Rightarrow> state_is s (snd (sthen m (status_mod f) c))
    | Inr _ \<Rightarrow> \<exists>st. State st = s \<and> state_is (State (f st)) (snd (sthen m (status_mod f) c))"
proof (cases "m c")
  case (Pair r c')
  have "state_is s c'" using keeps_run [OF assms Pair] .
  with Pair show ?thesis
    by (cases r) (auto simp: sthen_run status_mod_def dmod_def state_is_def)
qed

lemma abort_total: "fst (abort c) = Inr ()"
  by (auto simp: abort_def scatch_run split: prod.splits sum.splits)

lemma change_lemma:
  assumes "skeeps (state_is s) m" "state_is s c" "sthen m (status_mod f) c = (r, c')"
    "\<And>st. State (f st) = t"
  shows "case r of Inl _ \<Rightarrow> State (dl_status (cx_dl c')) = s | Inr _ \<Rightarrow> State (dl_status (cx_dl c')) = t"
  using sthen_status_mod [OF assms(1,2), of f] assms(3,4) by (cases r) (auto simp: state_is_def)

text \<open>
  C12. Requests move a download only as the table says: a refused request throws
  \<open>DO_E_INVALID_STATE\<close> and changes nothing, a request that fails leaves the state it was made
  in, a repeated one changes nothing at all, an abort always succeeds, and a finalized or
  aborted download stays so.
\<close>

theorem state_change_table:
  assumes "client_request req" "PerformStateChange req c = (r, c')"
  shows "case request_target (State (dl_status (cx_dl c))) req of
      None \<Rightarrow> r = Inl (hr_exn DO_E_INVALID_STATE) \<and> c' = c
    | Some t \<Rightarrow>
        (case r of Inr _ \<Rightarrow> State (dl_status (cx_dl c')) = t | Inl _ \<Rightarrow> State (dl_status (cx_dl c')) = State (dl_status (cx_dl c))) \<and>
        (req = DS_Aborted \<longrightarrow> r = Inr ()) \<and>
        (t = State (dl_status (cx_dl c)) \<longrightarrow> r = Inr () \<and> c' = c)"
proof -
  let ?s = "State (dl_status (cx_dl c))"
  have st: "\<And>st. State (st_Transferring st) = DS_Transferring" "\<And>st. State (st_Paused S_OK S_OK st) = DS_Paused"
    "\<And>st. State (st_Finalized st) = DS_Finalized" "\<And>st. State (st_Aborted st) = DS_Aborted"
    by (simp_all add: status_defs)
  have run: "PerformStateChange_from ?s req c = (r, c')"
    using assms(2) by (simp add: PerformStateChange_def with_dl_def)
  note ch = change_lemma [OF _ state_is_self]
  have ab: "sthen abort (status_mod st_Aborted) c = (r, c') \<Longrightarrow> r = Inr ()"
    using abort_total [of c] by (cases "abort c") (auto simp: sthen_run status_mod_def dmod_def)
  show ?thesis
    using assms(1) run
      ch [OF ks_start _ st(1), where c = c and r = r and c' = c'] ch [OF ks_resume _ st(1), where c = c and r = r and c' = c']
      ch [OF ks_pause _ st(2), where c = c and r = r and c' = c'] ch [OF ks_finalize _ st(3), where c = c and r = r and c' = c']
      ch [OF ks_abort _ st(4), where c = c and r = r and c' = c'] ab
    by (cases ?s; cases req) (auto simp: client_request_def request_target_def throw_hr_if_run)
qed

section \<open>A sample context\<close>

definition sample_world :: world where
  "sample_world = \<lparr>w_now = 0, w_queue = [], w_curl = curl_start,
     w_config = \<lparr>cm_admin = \<lparr>jp_tree = [], jp_next = 0\<rparr>, cm_sdk = \<lparr>jp_tree = [], jp_next = 0\<rparr>\<rparr>,
     w_config_env = \<lparr>ce_now = 0, ce_admin_file = JsonTree [], ce_sdk_file = JsonAbsent, ce_get_int = (\<lambda>_. None), ce_get_bool = (\<lambda>_. None)\<rparr>,
     w_mcc = [], w_fs = \<lparr>fs_files = (\<lambda>_. None), fs_faults = []\<rparr>, w_proxies = (\<lambda>_. None),
     w_ifaces = None, w_agent_env = sample_env, w_header_order = (\<lambda>m. m), w_junk = 77, w_fault = False\<rparr>"

definition sample_download :: download where
  "sample_download = \<lparr>dl_key = 1, dl_id = sample_guid, dl_url = ''http://a/b'', dl_destFilePath = ''/f'',
     dl_noProgressTimeout = unsetTimeout, dl_mccFallbackDue = None, dl_status = status_init,
     dl_progressTracker = pt_init, dl_timer = sw_new, dl_fileStream = None, dl_httpAgent = None,
     dl_responseHeaders = [], dl_httpStatusCode = 0, dl_proxyList = pl_new, dl_mccHost = [],
     dl_numAttempts = 0, dl_connectionType = CT_None, dl_cbTransferredAtRequestBegin = 0,
     dl_fOriginalHostAttempted = False, dl_fHttpRequestActive = False, dl_fDestFileCreated = False,
     dl_fAllowMcc = True\<rparr>"

definition sample_ctx :: ctx where
  "sample_ctx = \<lparr>cx_dl = sample_download, cx_w = sample_world\<rparr>"

lemma sample_download_new: "download_new 0 1 sample_guid ''http://a/b'' ''/f'' = Inr sample_download"
proof -
  have "ValidateUrl 0 ''http://a/b'' = Inr True" by code_simp
  then show ?thesis by (simp add: download_new_def sample_download_def)
qed

theorem state_change_table_witness:
  "fst (Finalize sample_ctx) = Inl (hr_exn DO_E_INVALID_STATE) \<and> snd (Finalize sample_ctx) = sample_ctx"
  using state_change_table [of DS_Finalized sample_ctx "fst (Finalize sample_ctx)" "snd (Finalize sample_ctx)"]
  by (simp add: client_request_def request_target_def sample_ctx_def sample_download_def status_init_def Finalize_def)

section \<open>Properties\<close>



section \<open>The URL of a cache host\<close>

lemma cacheHostOrigin_plain: "encode_query_impl ''cacheHostOrigin'' = ''cacheHostOrigin''"
proof -
  have "list_all (\<lambda>c. \<not> encode_query_char c) ''cacheHostOrigin''" by code_simp
  then show ?thesis unfolding encode_query_impl_def list_all_iff by (rule encode_impl_id)
qed

definition mcc_base :: "uri_components \<Rightarrow> string" where
  "mcc_base c = (if m_query c = [] then [] else if last (m_query c) = CHR ''&'' then m_query c else m_query c @ ''&'')"

definition mcc_query :: "uri_components \<Rightarrow> string" where
  "mcc_query c = mcc_base c @ ''cacheHostOrigin='' @ encode_query_impl (m_host c)"

lemma swap_url:
  assumes "uri_wf c" "uri_wf (c\<lparr>m_host := h\<rparr>)"
  shows "SwapUrlHostNameForMCC junk (join_print c) h g_INTERNET_DEFAULT_PORT = Inr (join_print (c\<lparr>m_host := h, m_query := mcc_query c\<rparr>))"
    and "uri_wf (c\<lparr>m_host := h, m_query := mcc_query c\<rparr>)"
proof -
  have q: "is_query_character (CHR ''&'')" "list_all is_query_character ''cacheHostOrigin=''" by code_simp+
  have "list_all is_query_character (encode_query_impl (m_host c))"
    using encode_query_impl_legal by (auto simp: list_all_iff)
  moreover have "list_all is_query_character (m_query c)" using assms(1) by (simp add: uri_wf_def)
  ultimately have "list_all is_query_character (mcc_query c)" using q by (simp add: mcc_query_def mcc_base_def)
  then show wf: "uri_wf (c\<lparr>m_host := h, m_query := mcc_query c\<rparr>)"
    using assms(2) by (simp add: uri_wf_def)
  have "append_query_param ''cacheHostOrigin'' (m_host c) True (c\<lparr>m_host := h\<rparr>) = c\<lparr>m_host := h, m_query := mcc_query c\<rparr>"
    by (simp add: append_query_param_def append_query_encode_impl_def append_query_def cacheHostOrigin_plain
        mcc_query_def mcc_base_def Let_def)
  then show "SwapUrlHostNameForMCC junk (join_print c) h g_INTERNET_DEFAULT_PORT = Inr (join_print (c\<lparr>m_host := h, m_query := mcc_query c\<rparr>))"
    using uri_wf_print_parse [OF assms(1)] uri_wf_print_parse [OF wf]
    by (simp add: SwapUrlHostNameForMCC_def set_host_def builder_to_string_def to_uri_def)
qed

text \<open>
  C37. The URL sent to a cache host is the client's URL with the host replaced: scheme, port,
  path and fragment are kept, and the query is kept with the original host appended to it in a
  form that decodes to that host.
\<close>

theorem mcc_url_names_cache_host:
  assumes "uri_wf c" "uri_wf (c\<lparr>m_host := h\<rparr>)"
  shows "\<exists>url base. SwapUrlHostNameForMCC junk (join_print c) h g_INTERNET_DEFAULT_PORT = Inr url \<and>
    uri_of_string junk' url = Inr \<lparr>m_uri = url,
      m_components = c\<lparr>m_host := h, m_query := base @ ''cacheHostOrigin='' @ encode_query_impl (m_host c)\<rparr>\<rparr> \<and>
    base \<in> {[], m_query c, m_query c @ ''&''} \<and> (base = [] \<longleftrightarrow> m_query c = []) \<and> (base = [] \<or> last base = CHR ''&'') \<and>
    decode (encode_query_impl (m_host c)) = Inr (m_host c)"
proof -
  have "mcc_base c \<in> {[], m_query c, m_query c @ ''&''} \<and> (mcc_base c = [] \<longleftrightarrow> m_query c = []) \<and>
      (mcc_base c = [] \<or> last (mcc_base c) = CHR ''&'')"
    by (auto simp: mcc_base_def)
  then show ?thesis
    using swap_url(1) [OF assms, of junk] uri_wf_print_parse [OF swap_url(2) [OF assms], of junk'] query_codec.dec_enc [of "m_host c"]
    unfolding mcc_query_def by blast
qed

definition sample_components :: uri_components where
  "sample_components = \<lparr>m_scheme = ''http'', m_host = ''a'', m_user_info = [], m_path = ''/b'', m_query = [], m_fragment = [], m_port = 0\<rparr>"

lemma sample_components_wf: "uri_wf sample_components" "uri_wf (sample_components\<lparr>m_host := ''mcc''\<rparr>)"
  by code_simp+

lemma sample_swap: "SwapUrlHostNameForMCC junk ''http://a/b'' ''mcc'' g_INTERNET_DEFAULT_PORT = Inr ''http://mcc/b?cacheHostOrigin=a''"
proof -
  have "encode_query_impl ''a'' = ''a''" by code_simp
  moreover have "join_print sample_components = ''http://a/b''" by code_simp
  ultimately show ?thesis
    using swap_url(1) [OF sample_components_wf, of junk]
    by (simp add: mcc_query_def mcc_base_def sample_components_def join_print_def)
qed

theorem mcc_url_names_cache_host_witness:
  "\<exists>url. SwapUrlHostNameForMCC 0 (join_print sample_components) ''mcc'' g_INTERNET_DEFAULT_PORT = Inr url \<and>
     m_host (m_components (case uri_of_string 0 url of Inr u \<Rightarrow> u)) = ''mcc''"
proof -
  obtain url base where "SwapUrlHostNameForMCC 0 (join_print sample_components) ''mcc'' g_INTERNET_DEFAULT_PORT = Inr url"
    "uri_of_string 0 url = Inr \<lparr>m_uri = url,
      m_components = sample_components\<lparr>m_host := ''mcc'', m_query := base @ ''cacheHostOrigin='' @ encode_query_impl (m_host sample_components)\<rparr>\<rparr>"
    using mcc_url_names_cache_host [OF sample_components_wf, of 0 0] by blast
  then show ?thesis by simp
qed

section \<open>The choice of the source\<close>

definition wanted_connection :: "bool \<Rightarrow> timepoint \<Rightarrow> download \<Rightarrow> ConnectionType \<times> bool" where
  "wanted_connection retry now d = (if retry then retry_connection now d else (CT_MCC, dl_fAllowMcc d))"

text \<open>
  A request goes to the cache host only when that is wanted, allowed, a cache host is known
  and not banned for the URL's host; then the URL names the cache host. Otherwise it goes to the
  URL the client gave. Attempts are counted per kind of source.
\<close>

theorem source_choice:
  assumes "UpdateConnectionTypeAndGetUrl retry c = (Inr url, c')"
  shows "let d = cx_dl c; w = cx_w c; (wanted, allow) = wanted_connection retry (w_now w) d;
             use_mcc = (wanted = CT_MCC \<and> allow \<and> dl_mccHost d \<noteq> [] \<and> IsBanned (w_now w) (dl_mccHost d) (dl_url d) (w_mcc w) = Inr False)
    in (if use_mcc then SwapUrlHostNameForMCC (ae_junk (w_agent_env w)) (dl_url d) (dl_mccHost d) g_INTERNET_DEFAULT_PORT = Inr url
        else url = dl_url d) \<and>
       dl_connectionType (cx_dl c') = (if use_mcc then CT_MCC else CT_CDN) \<and>
       dl_fAllowMcc (cx_dl c') = allow \<and>
       dl_numAttempts (cx_dl c') = (if dl_connectionType (cx_dl c') = dl_connectionType d then dl_numAttempts d + 1 else 1) \<and>
       cx_w c' = w"
proof -
  obtain wanted allow where wa: "wanted_connection retry (w_now (cx_w c)) (cx_dl c) = (wanted, allow)"
    by (cases "wanted_connection retry (w_now (cx_w c)) (cx_dl c)")
  then show ?thesis
    using assms
    by (auto simp: UpdateConnectionTypeAndGetUrl_def wanted_connection_def [symmetric] with_dl_def with_w_def sthen_run
        sbind_run dmod_def split: if_splits sum.splits)
qed

theorem source_choice_witness:
  "let r = UpdateConnectionTypeAndGetUrl False (sample_ctx\<lparr>cx_dl := sample_download\<lparr>dl_mccHost := ''mcc''\<rparr>\<rparr>)
   in fst r = Inr ''http://mcc/b?cacheHostOrigin=a'' \<and> dl_connectionType (cx_dl (snd r)) = CT_MCC"
proof -
  let ?c = "sample_ctx\<lparr>cx_dl := sample_download\<lparr>dl_mccHost := ''mcc''\<rparr>\<rparr>"
  let ?r = "UpdateConnectionTypeAndGetUrl False ?c"
  have f: "fst ?r = Inr ''http://mcc/b?cacheHostOrigin=a''"
    using sample_swap by (simp add: UpdateConnectionTypeAndGetUrl_def with_w_def with_dl_def sample_ctx_def sample_download_def
        sample_world_def IsBanned_def sthen_run sbind_run dmod_def sample_env_def)
  then have "?r = (Inr ''http://mcc/b?cacheHostOrigin=a'', snd ?r)" by (metis prod.collapse)
  from source_choice [OF this] f show ?thesis
    by (simp add: wanted_connection_def sample_ctx_def sample_download_def sample_world_def IsBanned_def Let_def)
qed

text \<open>A failed attempt and the choice of the next source, without any progress in between.\<close>

definition retry_source :: "ctx \<Rightarrow> ctx" where
  "retry_source c = snd (sthen (UpdateConnectionTypeAndGetUrl True)
     (dmod (\<lambda>d. d\<lparr>dl_fOriginalHostAttempted := (if dl_connectionType d = CT_CDN then True else dl_fOriginalHostAttempted d)\<rparr>)) c)"

definition mcc_usable :: "ctx \<Rightarrow> bool" where
  "mcc_usable c \<longleftrightarrow> dl_fAllowMcc (cx_dl c) \<and> dl_mccHost (cx_dl c) \<noteq> [] \<and>
     IsBanned (w_now (cx_w c)) (dl_mccHost (cx_dl c)) (dl_url (cx_dl c)) (w_mcc (cx_w c)) = Inr False \<and>
     (\<exists>u. SwapUrlHostNameForMCC (ae_junk (w_agent_env (cx_w c))) (dl_url (cx_dl c)) (dl_mccHost (cx_dl c)) g_INTERNET_DEFAULT_PORT = Inr u)"

text \<open>The state of the choice: kind of source, attempts with it, original host attempted.\<close>

definition choice_is :: "ConnectionType \<Rightarrow> u32 \<Rightarrow> bool \<Rightarrow> ctx \<Rightarrow> bool" where
  "choice_is ct n att c \<longleftrightarrow> mcc_usable c \<and> dl_mccFallbackDue (cx_dl c) = None \<and>
     dl_cbTransferredAtRequestBegin (cx_dl c) = BytesTransferred (dl_status (cx_dl c)) \<and>
     dl_connectionType (cx_dl c) = ct \<and> dl_numAttempts (cx_dl c) = n \<and> dl_fOriginalHostAttempted (cx_dl c) = att"

lemma retry_source_step:
  assumes "choice_is ct n att c" "ct \<noteq> CT_None"
  shows "choice_is (if ct = CT_MCC then if att \<and> n < 2 then CT_MCC else CT_CDN else if 2 \<le> n then CT_MCC else CT_CDN)
    (if (ct = CT_MCC \<and> \<not> att) \<or> 2 \<le> n then 1 else n + 1)
    (att \<or> (ct = CT_MCC \<and> \<not> att) \<or> (ct = CT_MCC \<and> 2 \<le> n) \<or> (ct = CT_CDN \<and> n < 2)) (retry_source c)"
  using assms
  by (cases ct) (auto simp: choice_is_def mcc_usable_def retry_source_def UpdateConnectionTypeAndGetUrl_def retry_connection_def
      with_dl_def with_w_def sthen_run sbind_run dmod_def Let_def not_less)

lemma retry_sources:
  assumes "choice_is CT_MCC 1 False c"
  shows "choice_is (if even (n div 2) then CT_CDN else CT_MCC) (if even n then 1 else 2) True ((retry_source ^^ Suc n) c)"
proof (induction n)
  case 0
  then show ?case using retry_source_step [OF assms] by simp
next
  case (Suc n)
  let ?ct = "if even (n div 2) then CT_CDN else CT_MCC"
  have ne: "?ct \<noteq> CT_None" by simp
  have w: "\<not> (2 :: u32) \<le> 1" by code_simp
  from retry_source_step [OF Suc ne] show ?case
    by (cases "even n") (auto simp: even_Suc_div_two odd_Suc_div_two w)
qed



end
