(* ===== verification/DownloadSystem.thy ===== *)
theory DownloadSystem
  imports DownloadProps
begin

text \<open>
  A download together with the task thread, the transfer worker, libcurl and the clock: one step
  per request, task, callback or pass of the worker. The invariants of this system show that a
  finalized or aborted download is at rest and how the received bytes are accounted for; runs of
  it exhibit what goes wrong when a server ignores a range or a write is cut short.
\<close>

section \<open>Steps\<close>

datatype sys_event =
    SvTime int
  | SvNetwork "iface list option"
  | SvRequest DownloadState
  | SvSet DownloadProperty string
  | SvTask
  | SvAgent agent_event
  | SvWorker

definition agent_easy :: "ctx \<Rightarrow> easy" where
  "agent_easy c = (case dl_httpAgent (cx_dl c) of None \<Rightarrow> 0 | Some a \<Rightarrow> ha_curlHandle a)"

definition agent_active :: "ctx \<Rightarrow> bool" where
  "agent_active c \<longleftrightarrow> agent_easy c \<noteq> 0 \<and> agent_easy c \<in> set (active_easies (w_curl (cx_w c)))"

text \<open>An exception that leaves a task ends the process.\<close>

definition run_task_step :: "ctx \<Rightarrow> ctx" where
  "run_task_step c =
     (case tq_pop (w_now (cx_w c)) (w_queue (cx_w c)) of
        (None, _) \<Rightarrow> c
      | (Some (t, _), q) \<Rightarrow>
          (case run_download_task t (c\<lparr>cx_w := (cx_w c)\<lparr>w_queue := q\<rparr>\<rparr>) of
             (Inr _, c') \<Rightarrow> c'
           | (Inl _, c') \<Rightarrow> snd (fault c')))"

text \<open>libcurl calls back for active transfers only; a completed one is removed afterwards.\<close>

definition agent_callback_step :: "agent_event \<Rightarrow> ctx \<Rightarrow> ctx" where
  "agent_callback_step e c =
     (if agent_active c then
        (let c' = download_agent_event e c
         in if is_complete e then c'\<lparr>cx_w := (cx_w c')\<lparr>w_curl := active_remove (agent_easy c) (w_curl (cx_w c'))\<rparr>\<rparr> else c')
      else c)"

fun sys_step :: "ctx \<Rightarrow> sys_event \<Rightarrow> ctx" where
  "sys_step c (SvTime n) = c\<lparr>cx_w := (cx_w c)\<lparr>w_now := w_now (cx_w c) + max 0 n\<rparr>\<rparr>"
| "sys_step c (SvNetwork ifs) = c\<lparr>cx_w := (cx_w c)\<lparr>w_ifaces := ifs\<rparr>\<rparr>"
| "sys_step c (SvRequest req) = (if client_request req then snd (PerformStateChange req c) else c)"
| "sys_step c (SvSet key val) = snd (SetProperty key val c)"
| "sys_step c SvTask = run_task_step c"
| "sys_step c (SvAgent e) = agent_callback_step e c"
| "sys_step c SvWorker = c\<lparr>cx_w := (cx_w c)\<lparr>w_curl := snd (do_work_top (w_curl (cx_w c)))\<rparr>\<rparr>"

section \<open>What every step keeps\<close>

text \<open>
  The queue holds tasks that satisfy \<open>Q\<close> only, the transfers are consistent and their worker runs,
  and, when \<open>F\<close> says so, no system call on files fails. \<open>Q\<close> accepts the tasks a download with key
  \<open>k\<close> schedules for itself.
\<close>

definition own_tag :: "nat \<Rightarrow> task_tag option \<Rightarrow> bool" where
  "own_tag k tag \<longleftrightarrow> tag = Some (TagDownload k) \<or> tag = Some (TagTracker k)"

fun task_key :: "task \<Rightarrow> nat option" where
  "task_key (TkHeaders k _ _ _) = Some k"
| "task_key (TkData k _) = Some k"
| "task_key (TkComplete k) = Some k"
| "task_key (TkFailed k _ _ _ _) = Some k"
| "task_key (TkRetry k) = Some k"
| "task_key (TkProgress k) = Some k"
| "task_key (TkTransient k) = Some k"
| "task_key (TkTransferred k) = Some k"
| "task_key TkRefreshConfigs = None"

definition sys_ok :: "(task \<Rightarrow> task_tag option \<Rightarrow> bool) \<Rightarrow> bool \<Rightarrow> nat \<Rightarrow> ctx \<Rightarrow> bool" where
  "sys_ok Q F k c \<longleftrightarrow> dl_key (cx_dl c) = k \<and> (\<forall>e \<in> set (w_queue (cx_w c)). Q (tq_task e) (tq_tag e)) \<and>
     curl_good (w_curl (cx_w c)) \<and> cr_keepRunning (w_curl (cx_w c)) \<and> (F \<longrightarrow> fs_faults (w_fs (cx_w c)) = [])"

lemma tq_emplace_set: "set (tq_emplace e q) = insert e (set q)"
  by (induction e q rule: tq_emplace.induct) auto

lemma tq_add_set: "e \<in> set (tq_add now t d g q) \<Longrightarrow> (tq_task e = t \<and> tq_tag e = g) \<or> e \<in> set q"
  by (auto simp: tq_add_def tq_emplace_set Let_def)

lemma tq_add_front_set: "e \<in> set (tq_add_front now t g q) \<Longrightarrow> (tq_task e = t \<and> tq_tag e = g) \<or> e \<in> set q"
  by (auto simp: tq_add_front_def tq_emplace_set Let_def)

lemma fs_no_faults:
  assumes "fs_faults fs = []"
  shows "fs_faults (snd (DOFile_Create p fs)) = []" "fs_faults (snd (DOFile_Open p fs)) = []"
    "fs_faults (snd (DOFile_Delete p fs)) = []" "fs_faults (snd (DOFile_Append f d fs)) = []"
    "fs_faults (snd (DOFile_Close f fs)) = []"
  using assms
  by (auto simp: DOFile_Create_def DOFile_Open_def DOFile_Delete_def DOFile_Append_def DOFile_Close_def sbind_run
      next_fault_def throw_hr_if_run split: option.splits)

lemma curl_Remove_running: "cr_keepRunning (snd (curl_Remove eh s)) = cr_keepRunning s"
  by (auto simp: curl_Remove_def Let_def split: option.splits)

lemma do_work_top_running: "cr_keepRunning (snd (do_work_top s)) = cr_keepRunning s"
  using step_running [of s CeTop "snd (do_work_top s)"] by simp

lemma active_remove_good: "curl_good s \<Longrightarrow> curl_good (active_remove eh s)"
  by (simp add: curl_good_def removals_ok_def active_remove_inv active_remove_keeps)

lemma Close_good:
  assumes "curl_good ops" "cr_keepRunning ops" "Close (a, ops) = (waits, a', ops')"
  shows "a' = a \<and> curl_good ops' \<and> cr_keepRunning ops'"
  using assms curl_Remove_good [of ops "ha_curlHandle a"] curl_Remove_running [of "ha_curlHandle a" ops]
  by (cases "ha_curlHandle a = 0") (auto simp: Close_def split: prod.splits)

lemma setopt_handle [simp]: "ha_curlHandle (setopt x a) = ha_curlHandle a"
  by (simp add: setopt_def)

lemma setopts_handle [simp]: "ha_curlHandle (fold setopt xs a) = ha_curlHandle a"
  by (induction xs arbitrary: a) auto

lemma client_options_handle [simp]: "ha_curlHandle (client_options t a) = ha_curlHandle a"
  by (simp add: client_options_def Let_def)

definition has_handle :: "http_agent \<Rightarrow> bool" where
  "has_handle a \<longleftrightarrow> ha_curlHandle a \<noteq> 0"

lemma proxy_handle: "skeeps has_handle (SetWebProxyFromProxyUrl junk p)"
  unfolding SetWebProxyFromProxyUrl_def
  by (auto simp: has_handle_def Let_def split: option.splits intro!: skeeps_intros)

lemma set_url_handle: "skeeps has_handle (set_url env u)"
  unfolding set_url_def by (auto simp: has_handle_def split: option.splits intro!: skeeps_intros)

lemma new_client_handle: "new_client env u t a = (Inr hr, a') \<Longrightarrow> \<not> FAILED hr \<Longrightarrow> has_handle a'"
  by (auto simp: new_client_def sbind_run sthen_run has_handle_def split: option.splits sum.splits if_splits)

lemma CreateClient_handle:
  assumes "CreateClient env u p t a = (hr, a')" "\<not> FAILED hr"
  shows "has_handle a'"
proof -
  let ?new = "(if ha_curlHandle a = 0 then new_client env u t else sret S_OK)"
  let ?rest = "\<lambda>hr. if FAILED hr then sret hr else sbind (set_url env u) (\<lambda>hr.
          if FAILED hr then sret hr else sthen (SetWebProxyFromProxyUrl (ae_junk env) p) (sret S_OK))"
  obtain r1 a1 where n: "?new a = (r1, a1)" by (cases "?new a")
  have run: "catch_return (sbind ?new ?rest) a = (hr, a')"
    using assms(1) by (simp add: CreateClient_def catch_return_def)
  show ?thesis
  proof (cases r1)
    case (Inl e)
    with run n assms(2) show ?thesis by (auto simp: catch_return_def sbind_run)
  next
    case (Inr hr1)
    have f: "FAILED hr1 \<Longrightarrow> hr = hr1" using run n Inr by (auto simp: catch_return_def sbind_run)
    then have ok: "\<not> FAILED hr1" using assms(2) by auto
    have h1: "has_handle a1"
      using n Inr ok new_client_handle [of env u t a hr1 a1] by (auto simp: has_handle_def split: if_splits)
    have "skeeps has_handle (?rest hr1)"
      using proxy_handle set_url_handle by (intro skeeps_intros) auto
    then have "has_handle (snd (?rest hr1 a1))" using h1 unfolding skeeps_def by blast
    moreover have "a' = snd (?rest hr1 a1)"
      using run n Inr by (auto simp: catch_return_def sbind_run split: prod.splits sum.splits)
    ultimately show ?thesis by simp
  qed
qed

lemma request_headers_handle: "set_request_headers env r a = (hr, a') \<Longrightarrow> has_handle a \<Longrightarrow> has_handle a'"
  by (auto simp: set_request_headers_def has_handle_def slist_free_def slist_append_def Let_def
      split: option.splits slist.splits if_splits)

lemma SendRequest_ops:
  assumes "SendRequest me env u p r t (a, ops) = (hr, a', ops')"
  shows "ops' = ops \<or> (ha_curlHandle a' \<noteq> 0 \<and> ops' = snd (curl_Add \<lparr>hd_easyHandle = ha_curlHandle a', hd_user = me\<rparr> ops))"
proof -
  obtain hr1 a1 where c: "CreateClient env u p t a = (hr1, a1)" by (cases "CreateClient env u p t a")
  obtain hr2 a2 where s: "set_request_headers env r a1 = (hr2, a2)" by (cases "set_request_headers env r a1")
  show ?thesis
  proof (cases "FAILED hr1 \<or> FAILED hr2")
    case True
    with assms c s show ?thesis by (auto simp: SendRequest_def catch_return_def split: if_splits)
  next
    case False
    then have "has_handle (reset_response a2)"
      using CreateClient_handle [OF c] request_headers_handle [OF s] by (simp add: has_handle_def reset_response_def)
    with False assms c s show ?thesis
      by (auto simp: SendRequest_def catch_return_def has_handle_def Let_def split: prod.splits sum.splits)
  qed
qed

lemma curl_Add_running: "cr_keepRunning (snd (curl_Add h s)) = cr_keepRunning s"
  by (simp add: curl_Add_def)

lemma own_tags: "own_tag k (Some (TagDownload k))" "own_tag k (Some (TagTracker k))"
  by (simp_all add: own_tag_def)

lemma sys_ok_key: "sys_ok Q F k c \<Longrightarrow> dl_key (cx_dl c) = k"
  by (simp add: sys_ok_def)

named_theorems keeps_ok "operations that keep the system consistent"

locale task_owner =
  fixes Q :: "task \<Rightarrow> task_tag option \<Rightarrow> bool" and F :: bool and k :: nat
  assumes owns: "task_key t = Some k \<Longrightarrow> own_tag k g \<Longrightarrow> Q t g"
begin

lemma ok_sched [keeps_ok]: "task_key t = Some k \<Longrightarrow> own_tag k (Some g) \<Longrightarrow> skeeps (sys_ok Q F k) (sched_task t n g)"
  unfolding sched_task_def
  by (rule skeeps_wmod) (auto simp: sys_ok_def sched_def owns dest!: tq_add_set)

lemma ok_fault [keeps_ok]: "skeeps (sys_ok Q F k) fault"
  unfolding fault_def by (rule skeeps_wmod) (simp add: sys_ok_def)

lemma ok_dmod [keeps_ok]: "(\<And>d. dl_key (f d) = dl_key d) \<Longrightarrow> skeeps (sys_ok Q F k) (dmod f)"
  by (rule skeeps_dmod) (simp add: sys_ok_def)

lemma ok_status [keeps_ok]: "skeeps (sys_ok Q F k) (status_mod f)"
  unfolding status_mod_def by (rule ok_dmod) simp

lemma ok_cancel [keeps_ok]: "skeeps (sys_ok Q F k) CancelTasks"
  unfolding CancelTasks_def
  by (intro skeeps_with_dl skeeps_wmod) (auto simp: sys_ok_def unschedule_def tq_remove_def)

lemma ok_on_fs_gen: "(\<And>fs. fs_faults fs = [] \<Longrightarrow> fs_faults (snd (m fs)) = []) \<Longrightarrow> skeeps (sys_ok Q F k) (on_fs m)"
  by (rule skeeps_on_fs) (fastforce simp: sys_ok_def)

lemma ok_on_fs [keeps_ok]:
  "skeeps (sys_ok Q F k) (on_fs (DOFile_Create p))" "skeeps (sys_ok Q F k) (on_fs (DOFile_Open p))"
  "skeeps (sys_ok Q F k) (on_fs (DOFile_Delete p))" "skeeps (sys_ok Q F k) (on_fs (DOFile_Append f x))"
  "skeeps (sys_ok Q F k) (on_fs (DOFile_Close f))"
  by (rule ok_on_fs_gen, erule fs_no_faults)+

lemma ok_close_agent [keeps_ok]: "skeeps (sys_ok Q F k) close_agent"
  unfolding skeeps_def
proof (intro allI impI)
  fix c assume ok: "sys_ok Q F k c"
  show "sys_ok Q F k (snd (close_agent c))"
  proof (cases "dl_httpAgent (cx_dl c)")
    case None
    with ok ok_fault show ?thesis by (auto simp: close_agent_def skeeps_def)
  next
    case (Some a)
    obtain waits a' ops' where cl: "Close (a, w_curl (cx_w c)) = (waits, a', ops')" by (metis prod_cases3)
    have "curl_good (w_curl (cx_w c))" "cr_keepRunning (w_curl (cx_w c))" using ok by (auto simp: sys_ok_def)
    note g = Close_good [OF this cl]
    then have "curl_good (snd (do_work_top ops'))" "cr_keepRunning (snd (do_work_top ops'))"
      by (simp_all add: do_work_top_good do_work_top_running)
    with g ok show ?thesis by (simp add: close_agent_def Some cl sys_ok_def)
  qed
qed

lemma ok_agent_send [keeps_ok]: "skeeps (sys_ok Q F k) (agent_send u p r t)"
  unfolding skeeps_def
proof (intro allI impI)
  fix c assume ok: "sys_ok Q F k c"
  show "sys_ok Q F k (snd (agent_send u p r t c))"
  proof (cases "dl_httpAgent (cx_dl c)")
    case None
    have "skeeps (sys_ok Q F k) (sthen fault (sret S_OK))" by (intro skeeps_intros keeps_ok)
    with None ok show ?thesis by (auto simp: agent_send_def skeeps_def)
  next
    case (Some a)
    obtain hr a' ops' where s: "SendRequest (dl_key (cx_dl c)) (w_agent_env (cx_w c)) (Some u) p r t (a, w_curl (cx_w c)) = (hr, a', ops')"
      by (metis prod_cases3)
    have "curl_good (w_curl (cx_w c))" "cr_keepRunning (w_curl (cx_w c))" using ok by (auto simp: sys_ok_def)
    then have "curl_good ops' \<and> cr_keepRunning ops'"
      using SendRequest_ops [OF s] curl_Add_good curl_Add_running by fastforce
    with ok s show ?thesis by (auto simp: agent_send_def Some sys_ok_def)
  qed
qed

lemma ok_wmod_config [keeps_ok]: "skeeps (sys_ok Q F k) (wmod (\<lambda>w. w\<lparr>w_config := cfg\<rparr>))"
  by (rule skeeps_wmod) (simp add: sys_ok_def)

lemma ok_config [keeps_ok]:
  "skeeps (sys_ok Q F k) mcc_fallback_delay" "skeeps (sys_ok Q F k) mcc_get_host" "skeeps (sys_ok Q F k) refresh_proxies"
  "skeeps (sys_ok Q F k) (set_fallback_due x)"
  unfolding mcc_fallback_delay_def mcc_get_host_def refresh_proxies_def set_fallback_due_def
  by (auto simp: case_prod_unfold Let_def intro!: skeeps_intros skeeps_with_w keeps_ok split: option.splits)

lemma ok_stop_timer [keeps_ok]: "skeeps (sys_ok Q F k) stop_timer"
  unfolding stop_timer_def by (intro skeeps_with_w keeps_ok) simp

lemma ok_close_file [keeps_ok]: "skeeps (sys_ok Q F k) close_file"
  unfolding close_file_def by (intro skeeps_with_dl skeeps_intros keeps_ok) simp

lemma ok_assign_file [keeps_ok]: "skeeps (sys_ok Q F k) (assign_file f)"
  unfolding assign_file_def by (intro skeeps_intros keeps_ok) simp

lemma ok_destroy_agent [keeps_ok]: "skeeps (sys_ok Q F k) destroy_agent"
  unfolding destroy_agent_def by (intro skeeps_with_dl skeeps_intros keeps_ok) simp

lemma ok_next_proxy [keeps_ok]: "skeeps (sys_ok Q F k) next_proxy"
  unfolding next_proxy_def Let_def case_prod_unfold by (intro skeeps_with_dl skeeps_intros keeps_ok) simp

lemma ok_update [keeps_ok]: "skeeps (sys_ok Q F k) (UpdateConnectionTypeAndGetUrl r)"
  unfolding UpdateConnectionTypeAndGetUrl_def
  by (auto simp: case_prod_unfold Let_def intro!: skeeps_with_dl skeeps_with_w skeeps_intros keeps_ok split: if_splits)

lemma with_dl_own: "(\<And>d. dl_key d = k \<Longrightarrow> skeeps (sys_ok Q F k) (m d)) \<Longrightarrow> skeeps (sys_ok Q F k) (with_dl m)"
  unfolding skeeps_def with_dl_def by (meson sys_ok_key)

lemma ok_progress [keeps_ok]: "skeeps (sys_ok Q F k) SchedProgressTracking"
  unfolding SchedProgressTracking_def
  by (intro with_dl_own skeeps_with_w skeeps_if skeeps_sret keeps_ok) (simp_all add: own_tag_def)

lemma ok_send [keeps_ok]: "skeeps (sys_ok Q F k) (SendHttpRequest r)"
  unfolding SendHttpRequest_def Let_def
  by (intro skeeps_with_dl skeeps_with_w skeeps_intros keeps_ok skeeps_throw_if_failed) simp_all

lemma ok_start [keeps_ok]: "skeeps (sys_ok Q F k) start"
  unfolding start_def by (intro skeeps_with_dl skeeps_intros keeps_ok skeeps_throw_hr_if) simp_all

lemma ok_resume [keeps_ok]: "skeeps (sys_ok Q F k) resume"
proof -
  have "skeeps (sys_ok Q F k) (wmod (\<lambda>w. w\<lparr>w_queue := sched_immediate (w_now w) (TkTransferred k) (Some (TagDownload k)) (w_queue w)\<rparr>))"
    by (intro skeeps_wmod) (auto simp: sys_ok_def sched_immediate_def own_tag_def owns dest!: tq_add_front_set)
  then show ?thesis
    unfolding resume_def
    by (intro with_dl_own skeeps_intros keeps_ok) (simp_all add: own_tag_def)
qed

lemma ok_pause [keeps_ok]: "skeeps (sys_ok Q F k) pause"
  unfolding pause_def by (intro skeeps_intros keeps_ok) simp

lemma ok_finalize [keeps_ok]: "skeeps (sys_ok Q F k) finalize"
  unfolding finalize_def by (intro skeeps_intros keeps_ok) simp

lemma ok_abort [keeps_ok]: "skeeps (sys_ok Q F k) abort"
  unfolding abort_def by (intro skeeps_with_dl skeeps_intros keeps_ok)

lemma ok_change: "skeeps (sys_ok Q F k) (PerformStateChange req)"
proof -
  have "skeeps (sys_ok Q F k) (PerformStateChange_from s req)" for s
    by (cases s; cases req) (auto simp: throw_hr_def intro!: skeeps_intros keeps_ok skeeps_throw_hr_if)
  then show ?thesis unfolding PerformStateChange_def by (intro skeeps_with_dl)
qed

lemma ok_set: "skeeps (sys_ok Q F k) (SetProperty key val)"
  unfolding SetProperty_def
  by (cases key) (auto simp: throw_hr_def intro!: skeeps_with_dl skeeps_with_w skeeps_intros keeps_ok skeeps_throw_hr_if)

lemma ok_transient [keeps_ok]: "skeeps (sys_ok Q F k) (HandleTransientError hr)"
  unfolding HandleTransientError_def
  by (intro with_dl_own skeeps_intros keeps_ok) (simp_all add: own_tag_def)

lemma ok_resume_transient [keeps_ok]: "skeeps (sys_ok Q F k) ResumeAfterTransientError"
  unfolding ResumeAfterTransientError_def by (intro skeeps_with_dl skeeps_intros keeps_ok)

lemma ok_report [keeps_ok]: "skeeps (sys_ok Q F k) (report_host_error hr)"
  by (auto simp: skeeps_def report_host_error_def sys_ok_def Let_def case_prod_unfold)

lemma ok_failed [keeps_ok]: "skeeps (sys_ok Q F k) (request_failed h1 h2 code hdrs)"
proof -
  have r: "skeeps (sys_ok Q F k) (with_dl (\<lambda>d. sthen (swhen (b d) (dmod (\<lambda>d. d\<lparr>dl_progressTracker := ResetRetryDelay (dl_progressTracker d)\<rparr>)))
       (sched_task (TkRetry (dl_key d)) (n d) (TagDownload (dl_key d)))))" for b n
    by (intro with_dl_own skeeps_intros keeps_ok) (simp_all add: own_tag_def)
  show ?thesis
    unfolding request_failed_def Let_def
    by (intro skeeps_sthen skeeps_with_w skeeps_if keeps_ok skeeps_with_dl skeeps_swhen r) simp_all
qed

lemma ok_task: "skeeps (sys_ok Q F k) (run_download_task t)"
proof -
  have "skeeps (sys_ok Q F k) run_progress"
    unfolding run_progress_def Let_def case_prod_unfold by (intro skeeps_with_dl skeeps_intros keeps_ok) simp
  moreover have "skeeps (sys_ok Q F k) run_retry" unfolding run_retry_def by (intro skeeps_with_dl skeeps_intros keeps_ok)
  moreover have "skeeps (sys_ok Q F k) run_transient" unfolding run_transient_def by (intro skeeps_with_w skeeps_intros keeps_ok)
  moreover have "skeeps (sys_ok Q F k) run_complete" unfolding run_complete_def by (intro skeeps_intros keeps_ok) simp
  moreover have "skeeps (sys_ok Q F k) (run_headers u b h)" for u b h unfolding run_headers_def by (intro keeps_ok) simp
  moreover have "skeeps (sys_ok Q F k) (run_data n)" for n unfolding run_data_def by (intro keeps_ok)
  moreover have "skeeps (sys_ok Q F k) (status_mod f)" for f by (intro keeps_ok)
  ultimately show ?thesis using ok_failed skeeps_sret by (cases t) simp_all
qed

lemma ok_events:
  assumes "sys_ok Q F k c"
  shows "sys_ok Q F k (snd (Download_OnHeadersAvailable a c))" "sys_ok Q F k (snd (Download_OnData d c))"
    "sys_ok Q F k (snd (Download_OnComplete a h1 h2 c))"
proof -
  have "skeeps (sys_ok Q F k) (\<lambda>c. with_w (\<lambda>w. with_dl (\<lambda>d.
     let httpStatusCode = QueryStatusCode a;
         (_, responseHeaders) = QueryHeaders (w_header_order w) None a
     in sbind (if httpStatusCode = HTTP_STATUS_OK then sres (QueryContentLength a)
               else if httpStatusCode = HTTP_STATUS_PARTIAL_CONTENT then sret (QueryContentLengthFromRange a)
               else sret (S_OK, w_junk w)) (\<lambda>(hr, bytesTotal).
          if FAILED hr then sret hr
          else sthen (sched_task (TkHeaders (dl_key d) httpStatusCode bytesTotal responseHeaders) 0 (TagDownload (dl_key d)))
                 (sret S_OK)))) c)"
    unfolding Let_def case_prod_unfold
    by (intro skeeps_with_w with_dl_own skeeps_intros keeps_ok) (simp_all add: own_tag_def)
  then show "sys_ok Q F k (snd (Download_OnHeadersAvailable a c))"
    using assms unfolding skeeps_def Download_OnHeadersAvailable_def catch_return_snd by simp
  have "skeeps (sys_ok Q F k) (\<lambda>c. with_dl (\<lambda>da. sthen (on_fs (DOFile_Append (dl_fileStream da) d))
    (sthen (sched_task (TkData (dl_key da) (of_nat (length d))) 0 (TagDownload (dl_key da))) (sret S_OK))) c)"
    by (intro with_dl_own skeeps_intros keeps_ok) (simp_all add: own_tag_def)
  then show "sys_ok Q F k (snd (Download_OnData d c))"
    using assms unfolding skeeps_def Download_OnData_def catch_return_snd by simp
  have "skeeps (sys_ok Q F k) (sched_task t 0 (TagDownload k))" if "task_key t = Some k" for t
    using that by (intro keeps_ok own_tags)
  then show "sys_ok Q F k (snd (Download_OnComplete a h1 h2 c))"
    using assms sys_ok_key [OF assms] by (simp add: Download_OnComplete_def skeeps_def Let_def)
qed

lemma agent_step_ok:
  assumes "sys_ok Q F k c"
  shows "sys_ok Q F k (snd (agent_step download_events (a, c) e))"
  by (rule agent_step_client) (auto simp: download_events_def assms ok_events)

lemma agent_event_ok:
  assumes "sys_ok Q F k c"
  shows "sys_ok Q F k (download_agent_event e c)"
proof (cases "dl_httpAgent (cx_dl c)")
  case (Some a)
  obtain a' c' where r: "agent_step download_events (a, c) e = (a', c')" by fastforce
  then have "sys_ok Q F k c'" using agent_step_ok [OF assms, of a e] by simp
  with Some r show ?thesis by (simp add: download_agent_event_def sys_ok_def)
qed (use assms in \<open>simp add: download_agent_event_def\<close>)

lemma ok_destroy: "skeeps (sys_ok Q F k) download_destroy"
  unfolding download_destroy_def by (intro skeeps_intros keeps_ok)

end

text \<open>A system of one download: all tasks are its own, and the files work.\<close>

definition sys_good :: "nat \<Rightarrow> ctx \<Rightarrow> bool" where
  "sys_good k = sys_ok (\<lambda>t g. own_tag k g) True k"

interpretation own: task_owner "\<lambda>t g. own_tag k g" True k for k
  by unfold_locales

lemmas good_task = own.ok_task [folded sys_good_def]
lemmas good_fault = own.ok_fault [folded sys_good_def]
lemmas good_change = own.ok_change [folded sys_good_def]
lemmas good_set = own.ok_set [folded sys_good_def]
lemmas good_close_agent = own.ok_close_agent [folded sys_good_def]
lemmas good_agent_event = own.agent_event_ok [folded sys_good_def]

lemmas sys_good_defs = sys_good_def sys_ok_def

end
