(* ===== verification/DownloadRest.thy ===== *)
theory DownloadRest
  imports DownloadSystem
begin

text \<open>
  Runs of a download in its environment: the consistency of the system, and what a finalized or
  aborted download still does, which is nothing.
\<close>

section \<open>Every step keeps the system consistent\<close>

lemma tq_pop_subset: "tq_pop now es = (r, q) \<Longrightarrow> set q \<subseteq> set es"
  by (cases es) (auto simp: tq_pop_def split: if_splits)

lemma sys_step_ok:
  assumes "sys_good k c"
  shows "sys_good k (sys_step c e)"
proof (cases e)
  case SvTask
  show ?thesis
  proof (cases "tq_pop (w_now (cx_w c)) (w_queue (cx_w c))")
    case (Pair r q)
    have "set q \<subseteq> set (w_queue (cx_w c))" 
      using tq_pop_subset [OF Pair] .
    then have "sys_good k (c\<lparr>cx_w := (cx_w c)\<lparr>w_queue := q\<rparr>\<rparr>)" using assms by (auto simp: sys_good_defs)
    then have "sys_good k (snd (run_download_task t (c\<lparr>cx_w := (cx_w c)\<lparr>w_queue := q\<rparr>\<rparr>)))" for t
      using good_task [of k t] by (simp add: skeeps_def)
    then show ?thesis
      using SvTask Pair assms good_fault [of k]
      by (auto simp: run_task_step_def skeeps_def split: option.splits sum.splits prod.splits) (metis snd_conv)+
  qed
next
  case (SvAgent a)
  from good_agent_event [OF assms, of a] have "sys_good k (download_agent_event a c)" .
  then have "sys_good k ((download_agent_event a c)\<lparr>cx_w := (cx_w (download_agent_event a c))\<lparr>w_curl := active_remove eh (w_curl (cx_w (download_agent_event a c)))\<rparr>\<rparr>)" for eh
    by (simp add: sys_good_defs active_remove_good active_remove_keeps)
  with SvAgent assms good_agent_event [OF assms, of a] show ?thesis
    by (simp add: agent_callback_step_def Let_def)
next
  case (SvRequest req)
  then show ?thesis using good_change [of k req] assms by (simp add: skeeps_def)
next
  case (SvSet key val)
  then show ?thesis using good_set [of k key val] assms by (simp add: skeeps_def)
next
  case SvWorker
  then show ?thesis using assms by (simp add: sys_good_defs do_work_top_good do_work_top_running)
qed (use assms in \<open>simp_all add: sys_good_defs\<close>)

section \<open>Closing the agent\<close>

definition idle :: "ctx \<Rightarrow> bool" where
  "idle c \<longleftrightarrow> agent_easy c \<notin> set (active_easies (w_curl (cx_w c))) \<and>
     agent_easy c \<notin> hd_easyHandle ` set (cr_toAdd (w_curl (cx_w c)))"

lemma fold_remove_toAdd: "cr_toAdd (fold active_remove ehs s) = cr_toAdd s"
  by (induction ehs arbitrary: s) (simp_all add: active_remove_keeps)

lemma top_idle:
  assumes "curl_good s" "eh \<notin> hd_easyHandle ` set (cr_toAdd s)" "eh \<in> set (active_easies s) \<Longrightarrow> eh \<in> set (cr_toRemove s) \<and> cr_keepRunning s"
  shows "eh \<notin> set (active_easies (snd (do_work_top s))) \<and> eh \<notin> hd_easyHandle ` set (cr_toAdd (snd (do_work_top s)))"
proof (cases "cr_keepRunning s")
  case True
  have "cr_toAdd (take_over s) = []" using assms(1) unfolding take_over_def Let_def
    by (simp add: fold_remove_toAdd)
  with True assms take_over_facts(5) [of s] show ?thesis by (auto simp: do_work_top_def Let_def curl_good_def)
next
  case False
  with assms show ?thesis by (auto simp: do_work_top_def)
qed

lemma agent_easy_zero: "sys_good k c \<Longrightarrow> agent_easy c = 0 \<Longrightarrow> idle c"
  by (auto simp: idle_def sys_good_defs curl_good_def curl_inv_def)

lemma close_agent_idle:
  assumes "sys_good k c" "close_agent c = (r, c')"
  shows "r = Inr () \<and> idle c'"
proof (cases "dl_httpAgent (cx_dl c)")
  case None
  with assms show ?thesis
    using agent_easy_zero [of k c'] good_fault [of k]
    by (auto simp: close_agent_def fault_def wmod_def agent_easy_def sys_good_defs)
next
  case (Some a)
  show ?thesis
  proof (cases "ha_curlHandle a = 0")
    case True
    with Some assms show ?thesis
      using agent_easy_zero [of k c] by (auto simp: close_agent_def Close_def agent_easy_def idle_def)
  next
    case False
    let ?s = "w_curl (cx_w c)" and ?eh = "ha_curlHandle a"
    have g: "curl_good ?s" "cr_keepRunning ?s" using assms(1) by (auto simp: sys_good_defs)
    obtain w ops where rm: "curl_Remove ?eh ?s = (w, ops)" by fastforce
    have g': "curl_good ops" using curl_Remove_good [OF g(1) False] rm by simp
    have act: "active_easies ops = active_easies ?s" and run: "cr_keepRunning ops"
      using rm g(2) by (auto simp: curl_Remove_def active_easies_def Let_def split: option.splits)
    have "cr_toAdd ops = filter (\<lambda>d. \<not> hd_is d ?eh) (cr_toAdd ?s)"
      using rm by (auto simp: curl_Remove_def Let_def split: option.splits if_splits)
    with False have add: "?eh \<notin> hd_easyHandle ` set (cr_toAdd ops)" by (auto simp: hd_is_def)
    have get: "active_get ?eh (?s\<lparr>cr_toAdd := ts\<rparr>) = active_get ?eh ?s" for ts by (simp add: active_get_def)
    have none: "w = None \<longleftrightarrow> ?eh \<notin> set (active_easies ?s)"
      using active_get_None [of ?s ?eh] g(1) False rm
      by (auto simp: curl_Remove_def Let_def get curl_good_def split: option.splits)
    have "w \<noteq> None \<Longrightarrow> ?eh \<in> set (cr_toRemove ops)"
      using rm by (auto simp: curl_Remove_def Let_def split: option.splits)
    then have "w \<noteq> None \<Longrightarrow> ?eh \<notin> set (active_easies (snd (do_work_top ops))) \<and>
        ?eh \<notin> hd_easyHandle ` set (cr_toAdd (snd (do_work_top ops)))"
      by (intro top_idle g' add) (use run in auto)
    with Some assms(2) False rm none act add show ?thesis
      by (auto simp: close_agent_def Close_def agent_easy_def idle_def Let_def split: if_splits)
  qed
qed

section \<open>Rest\<close>

definition terminal :: "ctx \<Rightarrow> bool" where
  "terminal c \<longleftrightarrow> State (dl_status (cx_dl c)) \<in> {DS_Finalized, DS_Aborted}"

definition at_rest :: "ctx \<Rightarrow> bool" where
  "at_rest c \<longleftrightarrow> w_queue (cx_w c) = [] \<and> idle c"

definition idle_ok :: "nat \<Rightarrow> ctx \<Rightarrow> bool" where
  "idle_ok k c \<longleftrightarrow> sys_good k c \<and> idle c"

lemma idle_dmod: "(\<And>d. dl_key (f d) = dl_key d) \<Longrightarrow> (\<And>d. dl_httpAgent (f d) = dl_httpAgent d) \<Longrightarrow> skeeps (idle_ok k) (dmod f)"
  by (rule skeeps_dmod) (simp add: idle_ok_def sys_good_defs idle_def agent_easy_def)

lemma idle_close_file: "idle_ok k c \<Longrightarrow> fst (close_file c) = Inr () \<and> idle_ok k (snd (close_file c))"
  by (auto simp: close_file_def with_dl_def sbind_run on_fs_def DOFile_Close_def dmod_def next_fault_def sys_good_defs
      idle_ok_def idle_def agent_easy_def split: prod.splits)

lemma cancel_rest: "idle_ok k c \<Longrightarrow> fst (CancelTasks c) = Inr () \<and> sys_good k (snd (CancelTasks c)) \<and> at_rest (snd (CancelTasks c))"
  by (auto simp: CancelTasks_def with_dl_def wmod_def at_rest_def idle_ok_def idle_def agent_easy_def sys_good_defs
      unschedule_def tq_remove_def own_tag_def filter_empty_conv)

lemma rest_status: "at_rest (c\<lparr>cx_dl := (cx_dl c)\<lparr>dl_status := st\<rparr>\<rparr>) = at_rest c"
  by (simp add: at_rest_def idle_def agent_easy_def)

lemma rest_fs: "at_rest (c\<lparr>cx_w := (cx_w c)\<lparr>w_fs := fs\<rparr>\<rparr>) = at_rest c"
  by (simp add: at_rest_def idle_def agent_easy_def)

lemma finalize_rest:
  assumes "sys_good k c"
  shows "at_rest (snd (finalize c))" and "fst (finalize c) = Inr ()"
proof -
  obtain r1 c1 where 1: "close_agent c = (r1, c1)" by fastforce
  have ok1: "r1 = Inr ()" "idle_ok k c1"
    using close_agent_idle [OF assms 1] skeepsD [OF good_close_agent assms 1] by (auto simp: idle_ok_def)
  define c2 where "c2 = c1\<lparr>cx_dl := (cx_dl c1)\<lparr>dl_fHttpRequestActive := False\<rparr>\<rparr>"
  have ok2: "idle_ok k c2" using ok1 by (simp add: c2_def idle_ok_def sys_good_defs idle_def agent_easy_def)
  obtain r3 c3 where 3: "close_file c2 = (r3, c3)" by fastforce
  have ok3: "r3 = Inr ()" "idle_ok k c3" using idle_close_file [OF ok2] 3 by auto
  have "finalize c = CancelTasks c3"
    using 1 ok1 3 ok3 by (simp add: finalize_def sthen_run dmod_def c2_def)
  with cancel_rest [OF ok3(2)] show "at_rest (snd (finalize c))" "fst (finalize c) = Inr ()" by auto
qed

lemma abort_rest:
  assumes "sys_good k c"
  shows "at_rest (snd (abort c))"
proof -
  let ?m = "with_dl (\<lambda>d. swhen (dl_httpAgent d \<noteq> None) close_agent)"
  have 1: "fst (?m c) = Inr () \<and> idle_ok k (snd (?m c))"
  proof (cases "dl_httpAgent (cx_dl c)")
    case None
    with agent_easy_zero [OF assms] assms show ?thesis by (simp add: with_dl_def swhen_app idle_ok_def agent_easy_def)
  next
    case (Some a)
    obtain r c' where "close_agent c = (r, c')" by fastforce
    with close_agent_idle [OF assms] skeepsD [OF good_close_agent assms] Some show ?thesis
      by (simp add: with_dl_def swhen_app idle_ok_def)
  qed
  obtain c1 where m: "?m c = (Inr (), c1)" and ok1: "idle_ok k c1" using 1 by (metis prod.collapse)
  obtain c2 where 2: "stop_timer c1 = (Inr (), c2)" "idle_ok k c2"
    using ok1 by (simp add: stop_timer_def with_w_def dmod_def idle_ok_def sys_good_defs idle_def agent_easy_def)
  obtain c3 where 3: "close_file c2 = (Inr (), c3)" "idle_ok k c3" using idle_close_file [OF 2(2)] by (metis prod.collapse)
  obtain c4 where 4: "CancelTasks c3 = (Inr (), c4)" "at_rest c4" using cancel_rest [OF 3(2)] by (metis prod.collapse)
  let ?del = "with_dl (\<lambda>d. swhen (dl_fDestFileCreated d \<and> dl_destFilePath d \<noteq> []) (on_fs (DOFile_Delete (c_str (dl_destFilePath d)))))"
  have "abort c = scatch ?del (\<lambda>_. sret ()) c4"
    unfolding abort_def scatch_run sthen_run m by (simp add: 2(1) 3(1) 4(1))
  moreover have "at_rest (snd (?del c4))"
    using 4(2) by (auto simp: with_dl_def swhen_app on_fs_def rest_fs split: prod.splits)
  ultimately show ?thesis by (cases "?del c4") (auto simp: scatch_run split: sum.splits)
qed

lemma terminal_request:
  assumes "terminal c"
  shows "snd (PerformStateChange req c) = c"
proof -
  consider "State (dl_status (cx_dl c)) = DS_Finalized" | "State (dl_status (cx_dl c)) = DS_Aborted"
    using assms by (auto simp: terminal_def)
  then show ?thesis by cases (simp_all add: PerformStateChange_def with_dl_def throw_hr_if_run)
qed

lemma rest_run:
  assumes "at_rest c" "sys_good k c" "terminal c"
  shows "at_rest (sys_step c e) \<and> State (dl_status (cx_dl (sys_step c e))) = State (dl_status (cx_dl c)) \<and>
    w_fs (cx_w (sys_step c e)) = w_fs (cx_w c) \<and> BytesTransferred (dl_status (cx_dl (sys_step c e))) = BytesTransferred (dl_status (cx_dl c))"
proof (cases e)
  case (SvRequest req)
  then show ?thesis using assms by (simp add: terminal_request)
next
  case (SvSet key val)
  then show ?thesis
    using assms
    by (cases key) (auto simp: terminal_def SetProperty_def with_dl_def with_w_def sthen_run sbind_run throw_hr_if_run
        dmod_def at_rest_def idle_def agent_easy_def split: sum.splits)
next
  case SvWorker
  have "curl_good (w_curl (cx_w c))" using assms(2) by (simp add: sys_good_defs)
  from top_idle [OF this] assms(1,2) SvWorker show ?thesis
    by (auto simp: at_rest_def idle_def agent_easy_def sys_good_defs)
next
  case SvTask
  with assms(1) show ?thesis by (simp add: run_task_step_def at_rest_def tq_pop_def)
next
  case (SvAgent a)
  with assms(1) show ?thesis by (simp add: agent_callback_step_def agent_active_def at_rest_def idle_def)
qed (use assms(1) in \<open>simp_all add: at_rest_def idle_def agent_easy_def\<close>)

section \<open>Steps into a terminal state\<close>

lemma skeeps_snd: "skeeps P m \<Longrightarrow> P s \<Longrightarrow> P (snd (m s))"
  by (simp add: skeeps_def)

definition live :: "ctx \<Rightarrow> bool" where
  "live c \<longleftrightarrow> \<not> terminal c"

lemma live_keeps: "(\<And>s. skeeps (state_is s) m) \<Longrightarrow> skeeps live m"
  by (auto simp: skeeps_def state_is_def live_def terminal_def)

lemma live_status: "(\<And>st. State st \<notin> {DS_Finalized, DS_Aborted} \<Longrightarrow> State (f st) \<notin> {DS_Finalized, DS_Aborted}) \<Longrightarrow> skeeps live (status_mod f)"
  by (rule skeeps_status_mod) (simp add: live_def terminal_def)

lemma ks_report [keeps_state]: "skeeps (state_is s) (report_host_error hr)"
  by (auto simp: skeeps_def report_host_error_def state_is_def Let_def case_prod_unfold)

lemma live_transient: "skeeps live (HandleTransientError hr)" "skeeps live ResumeAfterTransientError"
  unfolding HandleTransientError_def ResumeAfterTransientError_def
  by (intro skeeps_with_dl skeeps_sthen skeeps_swhen live_status live_keeps keeps_state; simp add: status_defs)+

lemma live_failed: "skeeps live (request_failed h1 h2 code hdrs)"
proof -
  have d: "skeeps live (dmod f)" if "\<And>d. State (dl_status (f d)) = State (dl_status d)" for f
    using that by (intro skeeps_dmod) (simp add: live_def terminal_def)
  have r: "skeeps live (report_host_error hr)" "skeeps live pause" "skeeps live (sched_task t n g)" for hr t n g
    by (rule live_keeps, intro keeps_state ks_pause)+
  have "skeeps live (status_mod (st_Paused a b))" for a b by (rule live_status) (simp add: status_defs)
  then show ?thesis
    unfolding request_failed_def Let_def
    by (intro skeeps_sthen skeeps_with_w skeeps_if live_transient skeeps_with_dl skeeps_swhen d r) simp_all
qed

lemma live_task: "skeeps live (run_download_task t)"
proof -
  have d: "skeeps live (dmod f)" if "\<And>d. State (dl_status (f d)) = State (dl_status d)" for f
    using that by (intro skeeps_dmod) (simp add: live_def terminal_def)
  have r: "skeeps live pause" "skeeps live SchedProgressTracking" "skeeps live (SendHttpRequest b)" "skeeps live stop_timer" for b
    by (rule live_keeps, intro keeps_state ks_pause)+
  have s: "skeeps live (status_mod (st_Paused a b))" "skeeps live (status_mod st_Transferred)"
    "skeeps live (status_mod (\<lambda>st. st\<lparr>BytesTransferred := x st\<rparr>))" for a b x
    by (rule live_status; simp add: status_defs)+
  have "skeeps live run_progress"
    unfolding run_progress_def Let_def case_prod_unfold by (intro skeeps_with_dl skeeps_intros d r s) simp
  moreover have "skeeps live run_retry" unfolding run_retry_def by (intro skeeps_with_dl skeeps_intros r)
  moreover have "skeeps live run_transient" unfolding run_transient_def by (intro skeeps_with_w skeeps_intros live_transient)
  moreover have "skeeps live run_complete" unfolding run_complete_def by (intro skeeps_intros d r s) simp
  moreover have "skeeps live (run_headers u b h)" for u b h unfolding run_headers_def by (intro d) simp
  moreover have "skeeps live (run_data n)" for n unfolding run_data_def by (intro s)
  ultimately show ?thesis using live_failed s(2) skeeps_sret by (cases t) simp_all
qed

lemma event_state:
  assumes "state_is s c"
  shows "state_is s (snd (Download_OnHeadersAvailable a c))" "state_is s (snd (Download_OnData d c))"
    "state_is s (snd (Download_OnComplete a h1 h2 c))"
proof -
  have "skeeps (state_is s) (sched_task t n g)" for t n g by (intro keeps_state)
  with assms show "state_is s (snd (Download_OnComplete a h1 h2 c))"
    by (simp add: Download_OnComplete_def skeeps_def Let_def)
  have "skeeps (state_is s) (\<lambda>c. with_dl (\<lambda>da. sthen (on_fs (DOFile_Append (dl_fileStream da) d))
    (sthen (sched_task (TkData (dl_key da) (of_nat (length d))) 0 (TagDownload (dl_key da))) (sret S_OK))) c)"
    by (intro frame_intros keeps_state)
  with assms show "state_is s (snd (Download_OnData d c))"
    unfolding skeeps_def Download_OnData_def catch_return_snd by simp
  show "state_is s (snd (Download_OnHeadersAvailable a c))"
    using assms unfolding Download_OnHeadersAvailable_def catch_return_snd Let_def case_prod_unfold
    by (rule skeeps_snd [rotated]) (auto intro!: frame_intros keeps_state)
qed

lemma agent_event_state:
  assumes "state_is s c"
  shows "state_is s (download_agent_event e c)"
proof (cases "dl_httpAgent (cx_dl c)")
  case (Some a)
  obtain a' c' where r: "agent_step download_events (a, c) e = (a', c')" by fastforce
  have "state_is s (snd (agent_step download_events (a, c) e))"
    by (rule agent_step_client) (auto simp: download_events_def assms event_state)
  with Some r show ?thesis by (simp add: download_agent_event_def state_is_def)
qed (use assms in \<open>simp add: download_agent_event_def\<close>)

lemma live_changes:
  "skeeps live (sthen start (status_mod st_Transferring))" "skeeps live (sthen resume (status_mod st_Transferring))"
  "skeeps live (sthen pause (status_mod (st_Paused a b)))"
  by (intro skeeps_sthen live_keeps ks_start ks_resume ks_pause live_status; simp add: status_defs)+

lemma request_rest:
  assumes "sys_good k c" "live c" "terminal (snd (PerformStateChange req c))"
  shows "at_rest (snd (PerformStateChange req c))"
proof -
  let ?s = "State (dl_status (cx_dl c))"
  have "req = DS_Finalized \<and> ?s = DS_Transferred \<or> req = DS_Aborted"
  proof (rule ccontr)
    assume "\<not> ?thesis"
    then have "skeeps live (PerformStateChange_from ?s req)"
      using assms(2) live_changes by (cases ?s; cases req) (auto simp: throw_hr_def live_def terminal_def)
    then show False
      using skeeps_snd [of live "PerformStateChange_from ?s req" c] assms(2,3)
      by (simp add: PerformStateChange_def with_dl_def live_def)
  qed
  then have "PerformStateChange req c = sthen finalize (status_mod st_Finalized) c \<or>
      PerformStateChange req c = sthen abort (status_mod st_Aborted) c"
    using assms(2) by (cases ?s) (auto simp: PerformStateChange_def with_dl_def live_def terminal_def)
  moreover have "at_rest (snd (sthen finalize (status_mod st_Finalized) c))"
    using finalize_rest [OF assms(1)] by (cases "finalize c") (simp add: sthen_run status_mod_def dmod_def rest_status)
  moreover have "at_rest (snd (sthen abort (status_mod st_Aborted) c))"
    using abort_rest [OF assms(1)] abort_total [of c]
    by (cases "abort c") (simp add: sthen_run status_mod_def dmod_def rest_status)
  ultimately show ?thesis by auto
qed

definition sys_inv :: "nat \<Rightarrow> ctx \<Rightarrow> bool" where
  "sys_inv k c \<longleftrightarrow> sys_good k c \<and> (terminal c \<longrightarrow> at_rest c)"

lemma set_state: "skeeps (state_is s) (SetProperty key val)"
  unfolding SetProperty_def
  by (cases key) (auto simp: throw_hr_def state_is_def intro!: frame_intros keeps_state)

lemma fault_state: "state_is s c \<Longrightarrow> state_is s (snd (fault c))"
  using ks_fault by (simp add: skeeps_def)

lemma sys_step_inv:
  assumes "sys_inv k c"
  shows "sys_inv k (sys_step c e)"
proof (cases "terminal c")
  case True
  then show ?thesis
    using assms sys_step_ok [of k c e] rest_run [of c k e] by (simp add: sys_inv_def)
next
  case False
  have ok: "sys_good k c" using assms by (simp add: sys_inv_def)
  have st: "state_is (State (dl_status (cx_dl c))) c" by (simp add: state_is_def)
  have "terminal (sys_step c e) \<longrightarrow> at_rest (sys_step c e)"
  proof (cases e)
    case (SvRequest req)
    with False request_rest [OF ok] show ?thesis by (simp add: live_def)
  next
    case (SvSet key val)
    with False skeeps_snd [OF set_state st, of key val] show ?thesis by (simp add: terminal_def state_is_def)
  next
    case SvTask
    have "live (snd (run_download_task t (c\<lparr>cx_w := (cx_w c)\<lparr>w_queue := q\<rparr>\<rparr>)))" for t q
      using False by (intro skeeps_snd [OF live_task]) (simp add: live_def terminal_def)
    moreover have "live c' \<Longrightarrow> live (snd (fault c'))" for c'
      using live_keeps [OF ks_fault] by (simp add: skeeps_def)
    ultimately have "live (sys_step c e)"
      using SvTask False
      by (auto simp: run_task_step_def live_def split: option.splits sum.splits prod.splits) (metis snd_conv)+
    then show ?thesis by (simp add: live_def)
  next
    case (SvAgent a)
    with False agent_event_state [OF st, of a] show ?thesis
      by (simp add: agent_callback_step_def terminal_def state_is_def Let_def)
  qed (use False in \<open>simp_all add: terminal_def\<close>)
  with sys_step_ok [OF ok] show ?thesis by (simp add: sys_inv_def)
qed

text \<open>A download that has just been created, and whose environment is in order.\<close>

definition fresh_download :: "ctx \<Rightarrow> bool" where
  "fresh_download c \<longleftrightarrow> sys_good (dl_key (cx_dl c)) c \<and> State (dl_status (cx_dl c)) = DS_Created"

lemma fresh_inv: "fresh_download c \<Longrightarrow> sys_inv (dl_key (cx_dl c)) c"
  by (simp add: fresh_download_def sys_inv_def terminal_def)

lemma sample_ctx_fresh: "fresh_download sample_ctx"
  by (simp add: fresh_download_def sys_good_defs sample_ctx_def sample_download_def sample_world_def status_init_def
      curl_good_start) (simp add: curl_start_def)

interpretation download_system: inductive_machine sample_ctx sys_step "sys_inv 1"
proof
  show "sys_inv 1 sample_ctx" using fresh_inv [OF sample_ctx_fresh] by (simp add: sample_ctx_def sample_download_def)
qed (rule sys_step_inv)

lemma run_inv_of: "sys_inv k c \<Longrightarrow> sys_inv k (run_steps sys_step c es)"
  by (induction es arbitrary: c) (auto intro: sys_step_inv)

lemma rest_runs:
  assumes "at_rest c" "sys_inv k c" "terminal c"
  shows "at_rest (run_steps sys_step c es) \<and> State (dl_status (cx_dl (run_steps sys_step c es))) = State (dl_status (cx_dl c)) \<and>
    w_fs (cx_w (run_steps sys_step c es)) = w_fs (cx_w c) \<and>
    BytesTransferred (dl_status (cx_dl (run_steps sys_step c es))) = BytesTransferred (dl_status (cx_dl c))"
  using assms
proof (induction es arbitrary: c)
  case (Cons e es)
  have "sys_good k c" using Cons.prems by (simp add: sys_inv_def)
  note r = rest_run [OF Cons.prems(1) this Cons.prems(3), of e]
  have "terminal (sys_step c e)" using r Cons.prems(3) by (simp add: terminal_def)
  from Cons.IH [OF _ sys_step_inv [OF Cons.prems(2)] this] r show ?case by simp
qed simp


definition sample_life :: "sys_event list" where
  "sample_life = [SvRequest DS_Transferring, SvWorker, SvRequest DS_Aborted]"


end
