(* ===== verification/DownloadRuns.thy ===== *)
theory DownloadRuns
  imports DownloadRest
begin

text \<open>
  Runs of one download that end badly: a server that answers a range with the whole file, requests
  that overtake the tasks of received data, and a pause that does not last.
\<close>

section \<open>A range answered with the whole file\<close>

text \<open>
  A transfer of six bytes breaks off after three; the retry asks for the rest, and the server
  answers 200 with all six.
\<close>

definition broken_transfer :: "sys_event list" where
  "broken_transfer =
     [SvRequest DS_Transferring, SvWorker, SvAgent (AeHeader True ''Content-Length:6''), SvAgent (AeWrite (0, 200) ''abc''),
      SvTask, SvTask, SvAgent (AeComplete (0, 200) 28), SvTask, SvTime 2000000000, SvTask, SvWorker]"

definition full_reply :: "int \<Rightarrow> sys_event list" where
  "full_reply result =
     [SvAgent (AeHeader True ''Content-Length:6''), SvAgent (AeWrite (0, 200) ''abcdef''),
      SvAgent (AeComplete (0, 200) result), SvTask, SvTask, SvTask]"

definition seen :: "ctx \<Rightarrow> DownloadState \<times> u64 \<times> u64 \<times> string option \<times> bool" where
  "seen c = (State (dl_status (cx_dl c)), BytesTransferred (dl_status (cx_dl c)), BytesTotal (dl_status (cx_dl c)),
     fs_files (w_fs (cx_w c)) ''/f'', w_fault (cx_w c))"

text \<open>The bytes are appended to the part already there, and the download counts as transferred.\<close>

lemma full_reply_corrupts:
  "seen (run_steps sys_step sample_ctx (broken_transfer @ full_reply 0)) = (DS_Transferred, 9, 6, Some ''abcabcdef'', False)"
  by code_simp

text \<open>If that transfer breaks off too, the range of the next retry overflows and ends the process.\<close>

lemma full_reply_ends_process:
  "seen (run_steps sys_step sample_ctx (broken_transfer @ full_reply 28 @ [SvTime 4000000000, SvTask]))
   = (DS_Transferring, 9, 6, Some ''abcabcdef'', True)"
  by code_simp

section \<open>Requests ahead of tasks\<close>

text \<open>
  Requests go to the front of the queue: a pause and a resume that come before the task of the
  received data asks for the same bytes again.
\<close>

definition overtaking_run :: "sys_event list" where
  "overtaking_run =
     [SvRequest DS_Transferring, SvWorker, SvAgent (AeHeader True ''Content-Length:6''), SvAgent (AeWrite (0, 200) ''abc''),
      SvRequest DS_Paused, SvRequest DS_Transferring, SvWorker] @ full_reply 0 @ [SvTask, SvTask]"

lemma resume_overtakes_data:
  "seen (run_steps sys_step sample_ctx overtaking_run) = (DS_Transferred, 9, 6, Some ''abcabcdef'', False)"
  by code_simp

section \<open>A pause that does not last\<close>

text \<open>
  Without a network the failed request leaves the download paused by itself; a pause the client
  asks for then changes nothing, and it transfers again when the network is back.
\<close>

definition blocked_run :: "sys_event list" where
  "blocked_run =
     [SvNetwork (Some []), SvRequest DS_Transferring, SvWorker, SvAgent (AeComplete (0, 200) 28), SvTask,
      SvRequest DS_Paused, SvNetwork None, SvTime 30000000000, SvTask]"

lemma pause_while_blocked_is_lost:
  "State (dl_status (cx_dl (run_steps sys_step sample_ctx blocked_run))) = DS_Paused"
  "State (dl_status (cx_dl (run_steps sys_step sample_ctx (blocked_run @ [SvTask])))) = DS_Transferring"
  by code_simp+

section \<open>Failing system calls\<close>

definition faulty :: "sys_fault option list \<Rightarrow> ctx" where
  "faulty faults = sample_ctx\<lparr>cx_w := sample_world\<lparr>w_fs := (w_fs sample_world)\<lparr>fs_faults := faults\<rparr>\<rparr>\<rparr>"

text \<open>
  A write cut short pauses the download with the partial data in the file and not in the count;
  resuming appends the whole file to it.
\<close>

definition short_write_run :: "sys_event list" where
  "short_write_run =
     [SvRequest DS_Transferring, SvWorker, SvAgent (AeHeader True ''Content-Length:6''), SvAgent (AeWrite (0, 200) ''abcdef''),
      SvAgent (AeComplete (0, 200) 23), SvTask, SvTask, SvRequest DS_Transferring, SvWorker] @ full_reply 0"

lemma short_write_duplicates:
  "seen (run_steps sys_step (faulty [None, Some (SysShort 1)]) short_write_run) = (DS_Transferred, 6, 6, Some ''aabcdef'', False)"
  by code_simp

text \<open>An abort whose close fails leaves the file and the tasks of the download.\<close>

lemma abort_keeps_file:
  "let c = run_steps sys_step (faulty [None, Some (SysErr 5)]) [SvRequest DS_Transferring, SvWorker, SvRequest DS_Aborted]
   in State (dl_status (cx_dl c)) = DS_Aborted \<and> fs_files (w_fs (cx_w c)) ''/f'' = Some [] \<and> map tq_task (w_queue (cx_w c)) = [TkProgress 1]"
  by code_simp

end
