(* ===== verification/DownloadBytes.thy ===== *)
theory DownloadBytes
  imports DownloadRest
begin

text \<open>
  The bytes of a download: what its file holds, what its status counts and what is still waiting
  in the task queue, over every run from the moment the download is started.
\<close>

section \<open>Counting\<close>

fun task_bytes :: "task \<Rightarrow> u64" where
  "task_bytes (TkData _ n) = ucast n"
| "task_bytes _ = 0"

definition pending_bytes :: "(task, task_tag) task_queue \<Rightarrow> u64" where
  "pending_bytes q = (\<Sum>e\<leftarrow>q. task_bytes (tq_task e))"

lemma pending_simps [simp]: "pending_bytes [] = 0" "pending_bytes (e # q) = task_bytes (tq_task e) + pending_bytes q"
  by (simp_all add: pending_bytes_def)

lemma pending_emplace [simp]: "pending_bytes (tq_emplace e q) = task_bytes (tq_task e) + pending_bytes q"
  by (induction e q rule: tq_emplace.induct) simp_all

lemma pending_sched [simp]: "pending_bytes (sched now t d g q) = task_bytes t + pending_bytes q"
  by (simp add: sched_def tq_add_def Let_def)

lemma pending_immediate [simp]: "pending_bytes (sched_immediate now t g q) = task_bytes t + pending_bytes q"
  by (simp add: sched_immediate_def tq_add_front_def Let_def)

lemma pending_pop: "tq_pop now q = (Some (t, g), q') \<Longrightarrow> pending_bytes q = task_bytes t + pending_bytes q'"
  by (auto simp: tq_pop_def split: list.splits if_splits)

text \<open>
  The account of a download whose state is in \<open>S\<close> and whose file is at \<open>p\<close>: the descriptor, if one
  is open, is that of the file, and the length of the file is what is counted and what is waiting.
\<close>

definition bytes_ok :: "DownloadState set \<Rightarrow> string \<Rightarrow> ctx \<Rightarrow> bool" where
  "bytes_ok S p c \<longleftrightarrow> State (dl_status (cx_dl c)) \<in> S \<and> dl_destFilePath (cx_dl c) = p \<and>
     dl_fileStream (cx_dl c) \<in> {None, Some (c_str p)} \<and> fs_faults (w_fs (cx_w c)) = [] \<and>
     (\<exists>data. fs_files (w_fs (cx_w c)) (c_str p) = Some data \<and>
        of_nat (length data) = BytesTransferred (dl_status (cx_dl c)) + pending_bytes (w_queue (cx_w c)))"

named_theorems keeps_bytes "operations that keep the account of the bytes"

section \<open>Operations that neither store nor count\<close>

lemma kb_dmod [keeps_bytes]:
  assumes "\<And>d. State (dl_status (f d)) = State (dl_status d)" "\<And>d. dl_destFilePath (f d) = dl_destFilePath d"
    "\<And>d. dl_fileStream (f d) = dl_fileStream d" "\<And>d. BytesTransferred (dl_status (f d)) = BytesTransferred (dl_status d)"
  shows "skeeps (bytes_ok S p) (dmod f)"
  by (rule skeeps_dmod) (simp add: bytes_ok_def assms)

lemma kb_status:
  assumes "\<And>st. State (f st) \<in> S" "\<And>st. BytesTransferred (f st) = BytesTransferred st"
  shows "skeeps (bytes_ok S p) (status_mod f)"
  by (rule skeeps_status_mod) (simp add: bytes_ok_def assms)

lemma kb_wmod:
  assumes "\<And>w. w_fs (f w) = w_fs w" "\<And>w. pending_bytes (w_queue (f w)) = pending_bytes (w_queue w)"
  shows "skeeps (bytes_ok S p) (wmod f)"
  by (rule skeeps_wmod) (simp add: bytes_ok_def assms)

lemma kb_sched [keeps_bytes]: "task_bytes t = 0 \<Longrightarrow> skeeps (bytes_ok S p) (sched_task t n g)"
  unfolding sched_task_def by (rule kb_wmod) simp_all

lemma kb_fault [keeps_bytes]: "skeeps (bytes_ok S p) fault"
  unfolding fault_def by (rule kb_wmod) simp_all

lemma kb_close_agent [keeps_bytes]: "skeeps (bytes_ok S p) close_agent"
  using kb_fault by (auto simp: skeeps_def close_agent_def Let_def bytes_ok_def split: option.splits prod.splits)

lemma kb_agent_send [keeps_bytes]: "skeeps (bytes_ok S p) (agent_send u x r t)"
proof -
  have "skeeps (bytes_ok S p) (sthen fault (sret S_OK))" by (intro skeeps_intros keeps_bytes)
  then show ?thesis
    by (auto simp: skeeps_def agent_send_def Let_def bytes_ok_def split: option.splits prod.splits)
qed

lemma kb_wmod_config [keeps_bytes]: "skeeps (bytes_ok S p) (wmod (\<lambda>w. w\<lparr>w_config := cfg\<rparr>))"
  by (rule kb_wmod) simp_all

lemma kb_config [keeps_bytes]:
  "skeeps (bytes_ok S p) mcc_fallback_delay" "skeeps (bytes_ok S p) mcc_get_host" "skeeps (bytes_ok S p) refresh_proxies"
  "skeeps (bytes_ok S p) (set_fallback_due x)"
  unfolding mcc_fallback_delay_def mcc_get_host_def refresh_proxies_def set_fallback_due_def
  by (auto simp: case_prod_unfold Let_def intro!: skeeps_intros skeeps_with_w keeps_bytes split: option.splits)

lemma kb_stop_timer [keeps_bytes]: "skeeps (bytes_ok S p) stop_timer"
  unfolding stop_timer_def by (intro skeeps_with_w keeps_bytes) simp_all

lemma kb_close_file [keeps_bytes]: "skeeps (bytes_ok S p) close_file"
  by (auto simp: skeeps_def bytes_ok_def close_file_def with_dl_def sbind_run on_fs_def DOFile_Close_def dmod_def next_fault_def)

lemma assign_file_run:
  "fs_faults (w_fs (cx_w c)) = [] \<Longrightarrow> assign_file f c = (Inr (), c\<lparr>cx_dl := (cx_dl c)\<lparr>dl_fileStream := f\<rparr>\<rparr>)"
  by (auto simp: assign_file_def sthen_run scatch_run close_file_def with_dl_def sbind_run on_fs_def DOFile_Close_def
      dmod_def next_fault_def)

lemma kb_assign_file [keeps_bytes]: "f \<in> {None, Some (c_str p)} \<Longrightarrow> skeeps (bytes_ok S p) (assign_file f)"
  by (auto simp: skeeps_def bytes_ok_def assign_file_run)

lemma kb_next_proxy [keeps_bytes]: "skeeps (bytes_ok S p) next_proxy"
  unfolding next_proxy_def Let_def case_prod_unfold by (intro skeeps_with_dl skeeps_intros keeps_bytes) simp_all

lemma kb_update [keeps_bytes]: "skeeps (bytes_ok S p) (UpdateConnectionTypeAndGetUrl r)"
  unfolding UpdateConnectionTypeAndGetUrl_def
  by (auto simp: case_prod_unfold Let_def intro!: skeeps_with_dl skeeps_with_w skeeps_intros keeps_bytes split: if_splits)

lemma kb_progress [keeps_bytes]: "skeeps (bytes_ok S p) SchedProgressTracking"
  unfolding SchedProgressTracking_def by (intro skeeps_with_dl skeeps_with_w skeeps_if skeeps_sret keeps_bytes) simp

lemma kb_send [keeps_bytes]: "skeeps (bytes_ok S p) (SendHttpRequest r)"
  unfolding SendHttpRequest_def Let_def
  by (intro skeeps_with_dl skeeps_with_w skeeps_intros keeps_bytes skeeps_throw_if_failed) simp_all

lemma kb_pause [keeps_bytes]: "skeeps (bytes_ok S p) pause"
  unfolding pause_def by (intro skeeps_intros keeps_bytes) simp_all

lemma kb_destroy_agent [keeps_bytes]: "skeeps (bytes_ok S p) destroy_agent"
  unfolding destroy_agent_def by (intro skeeps_with_dl skeeps_intros keeps_bytes) simp_all

lemma kb_report [keeps_bytes]: "skeeps (bytes_ok S p) (report_host_error hr)"
  by (auto simp: skeeps_def report_host_error_def bytes_ok_def Let_def case_prod_unfold)

text \<open>Resuming opens the file that is there.\<close>

lemma kb_resume: "skeeps (bytes_ok S p) resume"
  unfolding skeeps_def
proof (intro allI impI)
  fix c assume b: "bytes_ok S p c"
  let ?d = "cx_dl c"
  let ?rest = "if BytesTotal (dl_status ?d) \<noteq> 0 \<and> BytesTransferred (dl_status ?d) = BytesTotal (dl_status ?d)
        then wmod (\<lambda>w. w\<lparr>w_queue := sched_immediate (w_now w) (TkTransferred (dl_key ?d)) (Some (TagDownload (dl_key ?d))) (w_queue w)\<rparr>)
        else sthen (if dl_fAllowMcc ?d then sbind mcc_get_host (\<lambda>h. dmod (\<lambda>d. d\<lparr>dl_mccHost := h\<rparr>)) else sret ()) (SendHttpRequest False)"
  have "skeeps (bytes_ok S p) (sthen (assign_file (Some (c_str p))) ?rest)"
    by (intro skeeps_intros keeps_bytes kb_wmod) simp_all
  moreover have "resume c = sthen (assign_file (Some (c_str p))) ?rest c"
    using b by (auto simp: resume_def with_dl_def sbind_run on_fs_def DOFile_Open_def next_fault_def bytes_ok_def)
  ultimately show "bytes_ok S p (snd (resume c))" using b by (simp add: skeeps_def)
qed

section \<open>Tasks\<close>

text \<open>The states of a download that has been started and has not ended.\<close>

definition started :: "DownloadState set" where
  "started = {DS_Transferring, DS_Transferred, DS_Paused}"

lemma started_status [keeps_bytes]:
  "skeeps (bytes_ok started p) (status_mod (st_Paused a b))" "skeeps (bytes_ok started p) (status_mod st_Transferred)"
  "skeeps (bytes_ok started p) (status_mod st_Transferring)"
  by (rule kb_status; simp add: status_defs started_def)+

lemma started_transient [keeps_bytes]:
  "skeeps (bytes_ok started p) (HandleTransientError hr)" "skeeps (bytes_ok started p) ResumeAfterTransientError"
  unfolding HandleTransientError_def ResumeAfterTransientError_def
  by (intro skeeps_with_dl skeeps_sthen skeeps_swhen keeps_bytes; simp)+

lemma started_failed: "skeeps (bytes_ok started p) (request_failed h1 h2 code hdrs)"
  unfolding request_failed_def Let_def
  by (intro skeeps_sthen skeeps_with_w skeeps_if skeeps_with_dl skeeps_swhen keeps_bytes) simp_all

lemma started_task:
  assumes "\<And>k n. t \<noteq> TkData k n"
  shows "skeeps (bytes_ok started p) (run_download_task t)"
proof -
  have "skeeps (bytes_ok started p) run_progress"
    unfolding run_progress_def Let_def case_prod_unfold by (intro skeeps_with_dl skeeps_intros keeps_bytes) simp_all
  moreover have "skeeps (bytes_ok started p) run_retry" unfolding run_retry_def by (intro skeeps_with_dl skeeps_intros keeps_bytes)
  moreover have "skeeps (bytes_ok started p) run_transient" unfolding run_transient_def by (intro skeeps_with_w skeeps_intros keeps_bytes)
  moreover have "skeeps (bytes_ok started p) run_complete" unfolding run_complete_def by (intro skeeps_intros keeps_bytes) simp_all
  moreover have "skeeps (bytes_ok started p) (run_headers u b h)" for u b h unfolding run_headers_def by (intro keeps_bytes) simp_all
  ultimately show ?thesis
    using started_failed started_status(2) skeeps_sret assms by (cases t) (simp_all, blast)
qed

lemma started_task_step:
  assumes "bytes_ok started p c"
  shows "bytes_ok started p (run_task_step c)"
proof (cases "tq_pop (w_now (cx_w c)) (w_queue (cx_w c))")
  case (Pair r q)
  show ?thesis
  proof (cases r)
    case None
    with Pair assms show ?thesis by (simp add: run_task_step_def)
  next
    case (Some tg)
    obtain t g where r: "r = Some (t, g)" using Some by (cases tg) simp
    let ?c = "c\<lparr>cx_w := (cx_w c)\<lparr>w_queue := q\<rparr>\<rparr>"
    have pend: "pending_bytes (w_queue (cx_w c)) = task_bytes t + pending_bytes q" using pending_pop Pair r by blast
    have run: "bytes_ok started p (snd (run_download_task t ?c))"
    proof (cases "\<exists>k n. t = TkData k n")
      case True
      then show ?thesis
        using assms pend by (auto simp: bytes_ok_def run_data_def status_mod_def dmod_def add_ac)
    next
      case False
      then have "task_bytes t = 0" by (cases t) auto
      then have "bytes_ok started p ?c" using assms pend by (simp add: bytes_ok_def)
      then show ?thesis using started_task [of t p] False by (simp add: skeeps_def)
    qed
    moreover have "bytes_ok started p c' \<Longrightarrow> bytes_ok started p (snd (fault c'))" for c'
      using kb_fault by (simp add: skeeps_def)
    ultimately show ?thesis
      using Pair r by (auto simp: run_task_step_def split: sum.splits prod.splits)
  qed
qed

section \<open>Callbacks of the transfer\<close>

text \<open>libcurl hands over far less than the 4 GiB a data task can count.\<close>

fun write_fits :: "sys_event \<Rightarrow> bool" where
  "write_fits (SvAgent (AeWrite _ b)) = (length b < 2 ^ 32)"
| "write_fits _ = True"

lemma data_bytes:
  assumes "bytes_ok S p c" "length b < 2 ^ 32"
  shows "bytes_ok S p (snd (Download_OnData b c))"
proof -
  have "ucast (of_nat (length b) :: u32) = (of_nat (length b) :: u64)"
    using assms(2) by (simp add: unsigned_of_nat take_bit_nat_eq_self)
  moreover obtain data where "fs_files (w_fs (cx_w c)) (c_str p) = Some data"
    "of_nat (length data) = BytesTransferred (dl_status (cx_dl c)) + pending_bytes (w_queue (cx_w c))"
    using assms(1) by (auto simp: bytes_ok_def)
  ultimately show ?thesis
    using assms(1)
    by (cases "dl_fileStream (cx_dl c)")
      (auto simp: Download_OnData_def catch_return_snd with_dl_def sthen_run on_fs_def DOFile_Append_def sbind_run next_fault_def
        throw_hr_def throw_hr_if_run sched_task_def wmod_def bytes_ok_def add_ac)
qed

lemma headers_bytes: "bytes_ok S p c \<Longrightarrow> bytes_ok S p (snd (Download_OnHeadersAvailable a c))"
  unfolding Download_OnHeadersAvailable_def catch_return_snd Let_def case_prod_unfold
  by (rule skeeps_snd [rotated]) (auto intro!: skeeps_intros skeeps_with_dl skeeps_with_w keeps_bytes)

lemma complete_bytes: "bytes_ok S p c \<Longrightarrow> bytes_ok S p (snd (Download_OnComplete a h1 h2 c))"
  unfolding Download_OnComplete_def Let_def snd_conv
  by (rule skeeps_snd [rotated]) (auto intro!: keeps_bytes)

lemma agent_bytes:
  assumes "bytes_ok S p c" "write_fits (SvAgent e)"
  shows "bytes_ok S p (snd (agent_step download_events (a, c) e))"
proof (cases e)
  case (AeWrite info b)
  obtain a1 c1 where t: "TrySetStatusCodeAndInvokeOnHeadersAvailable download_events info (a, c) = (a1, c1)" by (metis prod.exhaust)
  have "bytes_ok S p (snd (TrySetStatusCodeAndInvokeOnHeadersAvailable download_events info (a, c)))"
    by (rule TrySet_client) (auto simp: download_events_def headers_bytes assms(1))
  then have "bytes_ok S p c1" by (simp add: t)
  moreover have "ev_OnData download_events = Download_OnData" by (simp add: download_events_def)
  ultimately show ?thesis
    using data_bytes [of S p c1 b] assms(2) by (auto simp: AeWrite WriteCallback_def t Let_def case_prod_unfold)
next
  case (AeComplete info r)
  let ?ev = "download_events\<lparr>ev_OnData := \<lambda>d c. (S_OK, c)\<rparr>"
  have "bytes_ok S p (snd (agent_step ?ev (a, c) (AeComplete info r)))"
    by (rule agent_step_client) (auto simp: download_events_def headers_bytes complete_bytes assms(1))
  moreover have "agent_step ?ev (a, c) (AeComplete info r) = agent_step download_events (a, c) (AeComplete info r)"
  proof -
    have ts: "TrySetStatusCodeAndInvokeOnHeadersAvailable ?ev = TrySetStatusCodeAndInvokeOnHeadersAvailable download_events"
      by (intro ext) (auto simp: TrySetStatusCodeAndInvokeOnHeadersAvailable_def Let_def split: prod.splits)
    have oc: "ev_OnComplete ?ev = ev_OnComplete download_events" by simp
    show ?thesis unfolding agent_step.simps CompleteCallback_def ts oc ..
  qed
  ultimately show ?thesis by (simp add: AeComplete)
qed (use assms(1) in simp)

lemma callback_bytes:
  assumes "bytes_ok S p c" "write_fits (SvAgent e)"
  shows "bytes_ok S p (agent_callback_step e c)"
proof -
  have "bytes_ok S p (download_agent_event e c)"
  proof (cases "dl_httpAgent (cx_dl c)")
    case (Some a)
    obtain a' c' where r: "agent_step download_events (a, c) e = (a', c')" by fastforce
    then have "bytes_ok S p c'" using agent_bytes [OF assms, of a] by simp
    with Some r show ?thesis by (simp add: download_agent_event_def bytes_ok_def)
  qed (use assms in \<open>simp add: download_agent_event_def\<close>)
  with assms(1) show ?thesis by (simp add: agent_callback_step_def Let_def bytes_ok_def)
qed

section \<open>Requests\<close>

lemma change_bytes:
  assumes "bytes_ok started p c" "sys_good k c"
  shows "bytes_ok started p (snd (PerformStateChange req c)) \<or> terminal (snd (PerformStateChange req c))"
proof -
  let ?s = "State (dl_status (cx_dl c))"
  have ends: "terminal (snd (sthen abort (status_mod st_Aborted) c))" "terminal (snd (sthen finalize (status_mod st_Finalized) c))"
    using abort_total [of c] finalize_rest(2) [OF assms(2)]
    by (cases "abort c"; cases "finalize c"; simp add: sthen_run status_mod_def dmod_def terminal_def status_defs)+
  have "skeeps (bytes_ok started p) (sthen pause (status_mod (st_Paused a b)))"
    "skeeps (bytes_ok started p) (sthen resume (status_mod st_Transferring))" for a b
    by (intro skeeps_sthen keeps_bytes kb_resume)+
  then have keeps: "bytes_ok started p (snd (sthen pause (status_mod (st_Paused a b)) c))"
    "bytes_ok started p (snd (sthen resume (status_mod st_Transferring) c))" for a b
    using assms(1) by (simp_all add: skeeps_def)
  have "?s \<in> started" using assms(1) by (simp add: bytes_ok_def)
  then show ?thesis
    using ends keeps assms(1)
    by (cases ?s; cases req) (simp_all add: PerformStateChange_def with_dl_def started_def throw_hr_def)
qed

lemma set_bytes:
  assumes "bytes_ok started p c"
  shows "bytes_ok started p (snd (SetProperty key val c))"
proof (cases "key = DP_LocalPath")
  case True
  then show ?thesis
    using assms by (auto simp: SetProperty_def with_dl_def with_w_def sthen_run throw_hr_if_run bytes_ok_def started_def)
next
  case False
  then have "skeeps (bytes_ok started p) (SetProperty key val)"
    unfolding SetProperty_def
    by (cases key) (auto simp: throw_hr_def intro!: skeeps_with_dl skeeps_with_w skeeps_intros keeps_bytes skeeps_throw_hr_if)
  then show ?thesis using assms by (simp add: skeeps_def)
qed

lemma sys_step_bytes:
  assumes "sys_inv k c" "bytes_ok started p c \<or> terminal c" "write_fits e"
  shows "bytes_ok started p (sys_step c e) \<or> terminal (sys_step c e)"
proof (cases "terminal c")
  case True
  with assms(1) have "at_rest c" "sys_good k c" by (simp_all add: sys_inv_def)
  from rest_run [OF this True, of e] True show ?thesis by (simp add: terminal_def)
next
  case False
  then have b: "bytes_ok started p c" using assms(2) by simp
  have g: "sys_good k c" using assms(1) by (simp add: sys_inv_def)
  show ?thesis
  proof (cases e)
    case (SvRequest req)
    with change_bytes [OF b g, of req] b show ?thesis by simp
  next
    case (SvAgent a)
    with callback_bytes [OF b, of a] assms(3) show ?thesis by simp
  next
    case (SvSet key val)
    with set_bytes [OF b] show ?thesis by simp
  next
    case SvTask
    with started_task_step [OF b] show ?thesis by simp
  qed (use b in \<open>simp_all add: bytes_ok_def\<close>)
qed

lemma run_bytes:
  "sys_inv k c \<Longrightarrow> bytes_ok started p c \<or> terminal c \<Longrightarrow> list_all write_fits es \<Longrightarrow>
   bytes_ok started p (run_steps sys_step c es) \<or> terminal (run_steps sys_step c es)"
proof (induction es arbitrary: c)
  case (Cons e es)
  then show ?case using sys_step_bytes [of k c p e] sys_step_inv [of k c e] by simp
qed simp

text \<open>Starting creates an empty file.\<close>

lemma start_bytes:
  assumes "fresh_download c0" "w_queue (cx_w c0) = []" "BytesTransferred (dl_status (cx_dl c0)) = 0" "Start c0 = (Inr (), c1)"
  shows "bytes_ok started (dl_destFilePath (cx_dl c0)) c1"
proof -
  let ?p = "dl_destFilePath (cx_dl c0)"
  have ok: "fs_faults (w_fs (cx_w c0)) = []" "State (dl_status (cx_dl c0)) = DS_Created"
    using assms(1) by (simp_all add: fresh_download_def sys_good_defs)
  obtain c2 where 2: "start c0 = (Inr (), c2)" "c1 = snd (status_mod st_Transferring c2)"
    using assms(4) ok(2)
    by (auto simp: Start_def PerformStateChange_def with_dl_def sthen_run split: prod.splits sum.splits)
  let ?c = "c0\<lparr>cx_w := (cx_w c0)\<lparr>w_fs := (w_fs (cx_w c0))\<lparr>fs_files := (fs_files (w_fs (cx_w c0)))(c_str ?p \<mapsto> [])\<rparr>\<rparr>,
      cx_dl := (cx_dl c0)\<lparr>dl_fileStream := Some (c_str ?p)\<rparr>\<rparr>"
  let ?rest = "sthen (dmod (\<lambda>d. d\<lparr>dl_fDestFileCreated := True\<rparr>)) (sthen destroy_agent
    (sthen (dmod (\<lambda>d. d\<lparr>dl_httpAgent := Some agent_new\<rparr>)) (sthen refresh_proxies
    (sbind mcc_fallback_delay (\<lambda>delay. sthen (set_fallback_due delay)
    (sbind mcc_get_host (\<lambda>h. sthen (dmod (\<lambda>d. d\<lparr>dl_mccHost := h\<rparr>)) (SendHttpRequest False))))))))"
  have "start c0 = ?rest ?c"
    using 2(1) ok
    by (auto simp: start_def with_dl_def sthen_run [of "throw_hr_if _ _"] sthen_run [of "assign_file _"] sbind_run [of "on_fs _"]
        on_fs_def DOFile_Create_def sbind_run [of next_fault] next_fault_def throw_hr_if_run throw_hr_def assign_file_run split: if_splits)
  then have "?rest ?c = (Inr (), c2)" using 2(1) by simp
  moreover have "skeeps (bytes_ok {DS_Created} ?p) ?rest" by (intro skeeps_intros keeps_bytes) simp_all
  moreover have "bytes_ok {DS_Created} ?p ?c" using assms(2,3) ok by (simp add: bytes_ok_def)
  ultimately have "bytes_ok {DS_Created} ?p c2"
    using skeepsD [of "bytes_ok {DS_Created} ?p" ?rest ?c "Inr ()" c2] by simp
  then show ?thesis by (simp add: 2(2) bytes_ok_def started_def status_mod_def dmod_def status_defs)
qed



end
