(* ===== verification/Manager.thy ===== *)
theory Manager
  imports DownloadSystem
begin

text \<open>
  client-lite/src/download/download_manager.cpp: the table of downloads behind the REST interface.
  Requests come from the one thread that runs the I/O service and block until the task thread has
  run them. The invariant is that every queued task belongs to a download that exists.
\<close>

section \<open>State\<close>

text \<open>The table, the flag that admits new downloads, and what the downloads share.\<close>

record manager =
  mg_downloads :: "(string \<times> download) list"
  mg_fRunning :: bool
  mg_world :: world

definition mg_new :: "world \<Rightarrow> manager" where
  "mg_new w = \<lparr>mg_downloads = [], mg_fRunning = True, mg_world = w\<rparr>"

definition GetDownload :: "string \<Rightarrow> (manager, download) sm" where
  "GetDownload downloadId m =
     (case map_of (mg_downloads m) downloadId of
        None \<Rightarrow> throw_hr E_NOT_SET m
      | Some d \<Rightarrow> (Inr d, m))"

text \<open>A download is shared, not copied: what an operation does to it is seen in the table.\<close>

definition mg_store :: "string \<Rightarrow> ctx \<Rightarrow> manager \<Rightarrow> manager" where
  "mg_store downloadId c m =
     m\<lparr>mg_downloads := map (\<lambda>(i, d). (i, if i = downloadId then cx_dl c else d)) (mg_downloads m), mg_world := cx_w c\<rparr>"

definition on_download :: "string \<Rightarrow> download \<Rightarrow> (ctx, 'a) sm \<Rightarrow> (manager, 'a) sm" where
  "on_download downloadId d f m =
     (let (r, c) = f \<lparr>cx_dl = d, cx_w = mg_world m\<rparr> in (r, mg_store downloadId c m))"

text \<open>Erasing drops the last reference, which destroys the download.\<close>

definition mg_erase :: "string \<Rightarrow> (manager, unit) sm" where
  "mg_erase downloadId m =
     (case map_of (mg_downloads m) downloadId of
        None \<Rightarrow> (Inr (), m)
      | Some d \<Rightarrow>
          (Inr (), m\<lparr>mg_downloads := filter (\<lambda>(i, _). i \<noteq> downloadId) (mg_downloads m),
                   mg_world := cx_w (snd (download_destroy \<lparr>cx_dl = d, cx_w = mg_world m\<rparr>))\<rparr>))"

section \<open>Requests\<close>

text \<open>The id and the address of a new download are chosen by the environment.\<close>

definition CreateDownload :: "guid \<Rightarrow> nat \<Rightarrow> string \<Rightarrow> string \<Rightarrow> (manager, string) sm" where
  "CreateDownload newId key url destFilePath m =
     (sbind (sres (download_new (ae_junk (w_agent_env (mg_world m))) key newId url destFilePath)) (\<lambda>d.
      let downloadId = GetProperty DP_Id d
      in sthen (throw_hr_if DO_E_NO_SERVICE (\<not> mg_fRunning m))
        (sthen (smod (\<lambda>m. if downloadId \<in> fst ` set (mg_downloads m) then m
                           else m\<lparr>mg_downloads := (downloadId, d) # mg_downloads m\<rparr>))
          (sret downloadId)))) m"

definition StartDownload :: "string \<Rightarrow> (manager, unit) sm" where
  "StartDownload downloadId = sbind (GetDownload downloadId) (\<lambda>d. on_download downloadId d (sched_block False Start))"

definition PauseDownload :: "string \<Rightarrow> (manager, unit) sm" where
  "PauseDownload downloadId = sbind (GetDownload downloadId) (\<lambda>d. on_download downloadId d (sched_block False Pause))"

definition FinalizeDownload :: "string \<Rightarrow> (manager, unit) sm" where
  "FinalizeDownload downloadId =
     sthen (sbind (GetDownload downloadId) (\<lambda>d. on_download downloadId d (sched_block False Finalize))) (mg_erase downloadId)"

definition AbortDownload :: "string \<Rightarrow> (manager, unit) sm" where
  "AbortDownload downloadId =
     sthen (sbind (GetDownload downloadId) (\<lambda>d. on_download downloadId d (sched_block False Abort))) (mg_erase downloadId)"

definition SetDownloadProperty :: "string \<Rightarrow> DownloadProperty \<Rightarrow> string \<Rightarrow> (manager, unit) sm" where
  "SetDownloadProperty downloadId key value =
     sbind (GetDownload downloadId) (\<lambda>d. on_download downloadId d (sched_block False (SetProperty key value)))"

definition GetDownloadProperty :: "string \<Rightarrow> DownloadProperty \<Rightarrow> (manager, string) sm" where
  "GetDownloadProperty downloadId key = sbind (GetDownload downloadId) (\<lambda>d. sret (GetProperty key d))"

section \<open>Tasks\<close>

text \<open>
  A task runs on the download whose address it captured. If there is none any more it is a use
  after free; an exception that leaves a task ends the process.
\<close>

definition mg_fault :: "manager \<Rightarrow> manager" where
  "mg_fault m = m\<lparr>mg_world := (mg_world m)\<lparr>w_fault := True\<rparr>\<rparr>"

definition refresh_admin_configs :: "manager \<Rightarrow> manager" where
  "refresh_admin_configs m =
     (let w = mg_world m
      in m\<lparr>mg_world := w\<lparr>w_config := RefreshAdminConfigs ((w_config_env w)\<lparr>ce_now := w_now w\<rparr>) (w_config w)\<rparr>\<rparr>)"

definition mg_run_task :: "task \<Rightarrow> manager \<Rightarrow> manager" where
  "mg_run_task t m =
     (case task_key t of
        None \<Rightarrow> refresh_admin_configs m
      | Some k \<Rightarrow>
          (case find (\<lambda>(_, d). dl_key d = k) (mg_downloads m) of
             None \<Rightarrow> mg_fault m
           | Some (i, d) \<Rightarrow>
               (case on_download i d (run_download_task t) m of
                  (Inr _, m') \<Rightarrow> m'
                | (Inl _, m') \<Rightarrow> mg_fault m')))"

definition mg_poll :: "manager \<Rightarrow> manager" where
  "mg_poll m =
     (case tq_pop (w_now (mg_world m)) (w_queue (mg_world m)) of
        (None, _) \<Rightarrow> m
      | (Some (t, _), q) \<Rightarrow> mg_run_task t (m\<lparr>mg_world := (mg_world m)\<lparr>w_queue := q\<rparr>\<rparr>))"

text \<open>
  The status is read by a task at the end of the queue: the tasks due by then run first. What they
  schedule goes behind it.
\<close>

definition due_tasks :: "manager \<Rightarrow> nat" where
  "due_tasks m = length (takeWhile (\<lambda>e. tq_time e \<le> w_now (mg_world m)) (w_queue (mg_world m)))"

definition GetDownloadStatus :: "string \<Rightarrow> (manager, download_status) sm" where
  "GetDownloadStatus downloadId =
     sthen (GetDownload downloadId)
    (sthen (smod (\<lambda>m. (mg_poll ^^ due_tasks m) m))
    (sbind (GetDownload downloadId) (\<lambda>d. sret (GetStatus d))))"

definition IsIdle :: "manager \<Rightarrow> bool \<times> manager" where
  "IsIdle m = (let m' = m\<lparr>mg_fRunning := mg_downloads m \<noteq> []\<rparr> in (\<not> mg_fRunning m', m'))"

definition mg_RefreshAdminConfigs :: "manager \<Rightarrow> manager" where
  "mg_RefreshAdminConfigs m =
     (let w = mg_world m
      in m\<lparr>mg_world := w\<lparr>w_queue := sched_immediate (w_now w) TkRefreshConfigs (Some TagManager) (w_queue w)\<rparr>\<rparr>)"

section \<open>Steps\<close>

text \<open>Callbacks come for active transfers only, and a new address is not in use.\<close>

datatype mg_event =
    MgCreate guid nat string string
  | MgStart string
  | MgPause string
  | MgFinalize string
  | MgAbort string
  | MgSet string DownloadProperty string
  | MgGet string DownloadProperty
  | MgGetStatus string
  | MgIsIdle
  | MgRefresh
  | MgTask
  | MgTime int
  | MgNetwork "iface list option"
  | MgAgent string agent_event
  | MgWorker

definition mg_callback :: "string \<Rightarrow> agent_event \<Rightarrow> manager \<Rightarrow> manager" where
  "mg_callback i e m =
     (case map_of (mg_downloads m) i of
        None \<Rightarrow> m
      | Some d \<Rightarrow> mg_store i (agent_callback_step e \<lparr>cx_dl = d, cx_w = mg_world m\<rparr>) m)"

fun mg_step :: "manager \<Rightarrow> mg_event \<Rightarrow> manager" where
  "mg_step m (MgCreate newId key url path) =
     (if key \<in> dl_key ` snd ` set (mg_downloads m) then m else snd (CreateDownload newId key url path m))"
| "mg_step m (MgStart i) = snd (StartDownload i m)"
| "mg_step m (MgPause i) = snd (PauseDownload i m)"
| "mg_step m (MgFinalize i) = snd (FinalizeDownload i m)"
| "mg_step m (MgAbort i) = snd (AbortDownload i m)"
| "mg_step m (MgSet i key val) = snd (SetDownloadProperty i key val m)"
| "mg_step m (MgGet i key) = snd (GetDownloadProperty i key m)"
| "mg_step m (MgGetStatus i) = snd (GetDownloadStatus i m)"
| "mg_step m MgIsIdle = snd (IsIdle m)"
| "mg_step m MgRefresh = mg_RefreshAdminConfigs m"
| "mg_step m MgTask = mg_poll m"
| "mg_step m (MgTime n) = m\<lparr>mg_world := (mg_world m)\<lparr>w_now := w_now (mg_world m) + max 0 n\<rparr>\<rparr>"
| "mg_step m (MgNetwork ifs) = m\<lparr>mg_world := (mg_world m)\<lparr>w_ifaces := ifs\<rparr>\<rparr>"
| "mg_step m (MgAgent i e) = mg_callback i e m"
| "mg_step m MgWorker = m\<lparr>mg_world := (mg_world m)\<lparr>w_curl := snd (do_work_top (w_curl (mg_world m)))\<rparr>\<rparr>"

end
