(* ===== verification/ManagerProps.thy ===== *)
theory ManagerProps
  imports Manager
begin

text \<open>
  Properties of the table of downloads: no task outlives its download, requests touch one
  download only, and an idle manager stays empty.
\<close>

section \<open>Tasks belong to downloads that exist\<close>

definition live_task :: "nat set \<Rightarrow> task \<Rightarrow> task_tag option \<Rightarrow> bool" where
  "live_task K t g \<longleftrightarrow> (case task_key t of None \<Rightarrow> g = Some TagManager | Some k \<Rightarrow> k \<in> K \<and> own_tag k g)"

interpretation mgr: task_owner "live_task (insert k K)" False k for k K
  by unfold_locales (simp add: live_task_def)

definition mg_keys :: "manager \<Rightarrow> nat set" where
  "mg_keys m = dl_key ` snd ` set (mg_downloads m)"

definition world_ok :: "nat set \<Rightarrow> world \<Rightarrow> bool" where
  "world_ok K w \<longleftrightarrow> (\<forall>e \<in> set (w_queue w). live_task K (tq_task e) (tq_tag e)) \<and> curl_good (w_curl w) \<and> cr_keepRunning (w_curl w)"

definition mg_ok :: "manager \<Rightarrow> bool" where
  "mg_ok m \<longleftrightarrow> distinct (map fst (mg_downloads m)) \<and> distinct (map (\<lambda>(_, d). dl_key d) (mg_downloads m)) \<and>
     world_ok (mg_keys m) (mg_world m)"

lemma sys_ok_world: "sys_ok (live_task K) False k c \<longleftrightarrow> dl_key (cx_dl c) = k \<and> world_ok K (cx_w c)"
  by (auto simp: sys_ok_def world_ok_def)

lemma store_keys:
  assumes "(i, d) \<in> set (mg_downloads m)" "distinct (map fst (mg_downloads m))" "dl_key (cx_dl c) = dl_key d"
  shows "map (\<lambda>(_, d). dl_key d) (mg_downloads (mg_store i c m)) = map (\<lambda>(_, d). dl_key d) (mg_downloads m)"
    and "map fst (mg_downloads (mg_store i c m)) = map fst (mg_downloads m)"
    and "mg_keys (mg_store i c m) = mg_keys m"
proof -
  have e: "(i, x) \<in> set (mg_downloads m) \<Longrightarrow> x = d" for x
    using assms(1,2) by (metis map_of_is_SomeI option.inject)
  show k: "map (\<lambda>(_, d). dl_key d) (mg_downloads (mg_store i c m)) = map (\<lambda>(_, d). dl_key d) (mg_downloads m)"
    using assms(3) e by (auto simp: mg_store_def)
  show "map fst (mg_downloads (mg_store i c m)) = map fst (mg_downloads m)"
    by (auto simp: mg_store_def)
  have "mg_keys x = set (map (\<lambda>(_, d). dl_key d) (mg_downloads x))" for x by (force simp: mg_keys_def)
  with k show "mg_keys (mg_store i c m) = mg_keys m" by presburger
qed

lemma store_ok:
  assumes "mg_ok m" "(i, d) \<in> set (mg_downloads m)" "sys_ok (live_task (mg_keys m)) False (dl_key d) c"
  shows "mg_ok (mg_store i c m)" "mg_keys (mg_store i c m) = mg_keys m"
  using assms store_keys [OF assms(2), of c] by (auto simp: mg_ok_def sys_ok_world) (simp add: mg_store_def)

lemma key_in: "(i, d) \<in> set (mg_downloads m) \<Longrightarrow> insert (dl_key d) (mg_keys m) = mg_keys m"
  by (force simp: mg_keys_def)

lemma ctx_ok: "mg_ok m \<Longrightarrow> sys_ok (live_task (mg_keys m)) False (dl_key d) \<lparr>cx_dl = d, cx_w = mg_world m\<rparr>"
  by (simp add: mg_ok_def sys_ok_world)

lemma on_download_ok:
  assumes "mg_ok m" "(i, d) \<in> set (mg_downloads m)" "skeeps (sys_ok (live_task (mg_keys m)) False (dl_key d)) f"
  shows "mg_ok (snd (on_download i d f m))"
  using store_ok(1) [OF assms(1,2)] ctx_ok [OF assms(1), of d] assms(3)
  by (simp add: on_download_def skeeps_def split: prod.splits) (metis snd_conv)

lemma request_keeps:
  assumes "mg_ok m" "skeeps (sys_ok (live_task (insert (dl_key d) (mg_keys m))) False (dl_key d)) f"
    "map_of (mg_downloads m) i = Some d"
  shows "mg_ok (snd (on_download i d (sched_block False f) m))"
  by (rule on_download_ok [OF assms(1) map_of_SomeD [OF assms(3)]])
     (use assms(2) key_in [OF map_of_SomeD [OF assms(3)]] skeeps_sched_block in simp)

lemma find_in: "find P xs = Some x \<Longrightarrow> x \<in> set xs \<and> P x"
  by (auto simp: find_Some_iff)

lemma fault_ok: "mg_ok m \<Longrightarrow> mg_ok (mg_fault m)"
  by (simp add: mg_ok_def mg_fault_def mg_keys_def world_ok_def)

lemma task_ok:
  assumes "mg_ok m"
  shows "mg_ok (mg_run_task t m)"
proof (cases "task_key t")
  case None
  with assms show ?thesis by (simp add: mg_run_task_def refresh_admin_configs_def mg_ok_def mg_keys_def world_ok_def Let_def)
next
  case (Some k)
  show ?thesis
  proof (cases "find (\<lambda>(_, d). dl_key d = k) (mg_downloads m)")
    case None
    with Some fault_ok [OF assms] show ?thesis by (simp add: mg_run_task_def)
  next
    case (Some p)
    obtain i d where p: "p = (i, d)" by (cases p)
    have i: "(i, d) \<in> set (mg_downloads m)" using find_in [OF Some] p by simp
    have "mg_ok (snd (on_download i d (run_download_task t) m))"
      by (rule on_download_ok [OF assms i]) (use mgr.ok_task [of "dl_key d" "mg_keys m" t] key_in [OF i] in simp)
    with \<open>task_key t = Some k\<close> Some p fault_ok show ?thesis
      by (auto simp: mg_run_task_def split: prod.splits sum.splits)
  qed
qed

lemma poll_ok:
  assumes "mg_ok m"
  shows "mg_ok (mg_poll m)"
proof (cases "w_queue (mg_world m)")
  case (Cons e es)
  have "mg_ok (m\<lparr>mg_world := (mg_world m)\<lparr>w_queue := es\<rparr>\<rparr>)"
    using assms Cons by (simp add: mg_ok_def mg_keys_def world_ok_def)
  with Cons assms task_ok show ?thesis by (simp add: mg_poll_def tq_pop_def)
qed (use assms in \<open>simp add: mg_poll_def tq_pop_def\<close>)

lemma polls_ok: "mg_ok m \<Longrightarrow> mg_ok ((mg_poll ^^ n) m)"
  by (induction n) (simp_all add: poll_ok)

lemma close_agent_queue: "skeeps (\<lambda>c. w_queue (cx_w c) = q) close_agent"
  by (auto simp: skeeps_def close_agent_def fault_def wmod_def Let_def split: option.splits prod.splits)

lemma destroy_queue: "w_queue (cx_w (snd (download_destroy c))) =
   filter (\<lambda>e. \<not> own_tag (dl_key (cx_dl c)) (tq_tag e)) (w_queue (cx_w c))"
proof -
  have d: "skeeps (\<lambda>c. w_queue (cx_w c) = q) destroy_agent" for q
    unfolding destroy_agent_def by (intro frame_intros close_agent_queue) simp_all
  obtain c1 where c1: "CancelTasks c = (Inr (), c1)" "w_queue (cx_w c1) =
      filter (\<lambda>e. \<not> own_tag (dl_key (cx_dl c)) (tq_tag e)) (w_queue (cx_w c))"
    by (simp add: CancelTasks_def with_dl_def wmod_def unschedule_def tq_remove_def own_tag_def conj_commute)
  with d show ?thesis by (simp add: download_destroy_def sthen_run skeeps_def)
qed

lemma erase_ok:
  assumes "mg_ok m"
  shows "mg_ok (snd (mg_erase i m))"
proof (cases "map_of (mg_downloads m) i")
  case (Some d)
  note i = map_of_SomeD [OF Some]
  let ?c = "\<lparr>cx_dl = d, cx_w = mg_world m\<rparr>"
  let ?w = "cx_w (snd (download_destroy ?c))"
  have w: "world_ok (mg_keys m) ?w"
    using mgr.ok_destroy [of "dl_key d" "mg_keys m"] ctx_ok [OF assms, of d] key_in [OF i]
    by (simp add: skeeps_def sys_ok_world)
  have keys: "mg_keys (m\<lparr>mg_downloads := filter (\<lambda>(j, _). j \<noteq> i) (mg_downloads m)\<rparr>) \<supseteq> mg_keys m - {dl_key d}"
  proof
    fix x assume "x \<in> mg_keys m - {dl_key d}"
    then obtain j e where e: "(j, e) \<in> set (mg_downloads m)" "dl_key e = x" "x \<noteq> dl_key d" by (auto simp: mg_keys_def)
    moreover have "j \<noteq> i"
      using e i assms eq_key_imp_eq_value [of "mg_downloads m" j e d] by (auto simp: mg_ok_def)
    ultimately have "(j, e) \<in> set (filter (\<lambda>(j, _). j \<noteq> i) (mg_downloads m))" by simp
    with e show "x \<in> mg_keys (m\<lparr>mg_downloads := filter (\<lambda>(j, _). j \<noteq> i) (mg_downloads m)\<rparr>)"
      unfolding mg_keys_def by (metis image_eqI manager.select_convs(1) manager.surjective manager.update_convs(1) snd_conv)
  qed
  have "live_task (mg_keys m - {dl_key d}) (tq_task e) (tq_tag e)" if "e \<in> set (w_queue ?w)" for e
    using that w by (auto simp: world_ok_def destroy_queue live_task_def split: option.splits)
  then have "live_task (mg_keys (m\<lparr>mg_downloads := filter (\<lambda>(j, _). j \<noteq> i) (mg_downloads m)\<rparr>)) (tq_task e) (tq_tag e)"
    if "e \<in> set (w_queue ?w)" for e
    using that keys by (force simp: live_task_def split: option.splits)
  with w have "world_ok (mg_keys (m\<lparr>mg_downloads := filter (\<lambda>(j, _). j \<noteq> i) (mg_downloads m)\<rparr>)) ?w"
    by (simp add: world_ok_def)
  moreover have "distinct (map fst (filter (\<lambda>(j, _). j \<noteq> i) (mg_downloads m)))"
    "distinct (map (\<lambda>(_, d). dl_key d) (filter (\<lambda>(j, _). j \<noteq> i) (mg_downloads m)))"
    using assms by (auto simp: mg_ok_def intro: distinct_map_filter)
  moreover have "mg_keys (m\<lparr>mg_downloads := xs, mg_world := w\<rparr>) = mg_keys (m\<lparr>mg_downloads := xs\<rparr>)" for xs w
    by (simp add: mg_keys_def)
  ultimately show ?thesis
    by (simp add: mg_erase_def Some mg_ok_def)
qed (use assms in \<open>simp add: mg_erase_def\<close>)

lemma get_run:
  "GetDownload i m = (case map_of (mg_downloads m) i of None \<Rightarrow> (Inl (hr_exn E_NOT_SET), m) | Some d \<Rightarrow> (Inr d, m))"
  by (simp add: GetDownload_def throw_hr_def split: option.splits)

lemma request_ok:
  assumes "mg_ok m" "\<And>d :: download. skeeps (sys_ok (live_task (insert (dl_key d) (mg_keys m))) False (dl_key d)) f"
  shows "mg_ok (snd (sbind (GetDownload i) (\<lambda>d. on_download i d (sched_block False f)) m))"
  using request_keeps [OF assms(1) assms(2)] assms(1) by (simp add: sbind_run get_run split: option.splits)

lemma erasing_ok: "mg_ok (snd (m s)) \<Longrightarrow> mg_ok (snd (sthen m (mg_erase i) s))"
  by (auto simp: sthen_run split: prod.splits sum.splits) (metis erase_ok snd_conv)

lemma create_ok:
  assumes "mg_ok m" "key \<notin> mg_keys m"
  shows "mg_ok (snd (CreateDownload newId key url path m))"
proof (cases "download_new (ae_junk (w_agent_env (mg_world m))) key newId url path")
  case (Inr d)
  have k: "dl_key d = key" using Inr by (auto simp: download_new_def rbind_def split: if_splits sum.splits)
  have "world_ok (mg_keys m) w \<Longrightarrow> world_ok (mg_keys (m\<lparr>mg_downloads := (i, d) # mg_downloads m\<rparr>)) w" for i w
    by (force simp: world_ok_def mg_keys_def live_task_def split: option.splits)
  with assms k Inr show ?thesis
    by (auto simp: CreateDownload_def sbind_run sthen_run throw_hr_if_run Let_def mg_ok_def)
       (force simp: mg_keys_def)+
qed (use assms in \<open>simp add: CreateDownload_def sbind_run\<close>)

lemma callback_ok:
  assumes "mg_ok m"
  shows "mg_ok (mg_callback i e m)"
proof (cases "map_of (mg_downloads m) i")
  case (Some d)
  note i = map_of_SomeD [OF Some]
  let ?c = "\<lparr>cx_dl = d, cx_w = mg_world m\<rparr>"
  have c: "sys_ok (live_task (mg_keys m)) False (dl_key d) ?c" using ctx_ok [OF assms] .
  have "sys_ok (live_task (mg_keys m)) False (dl_key d) (download_agent_event e ?c)"
    using mgr.agent_event_ok [of "dl_key d" "mg_keys m" ?c e] c key_in [OF i] by simp
  with c have "sys_ok (live_task (mg_keys m)) False (dl_key d) (agent_callback_step e ?c)"
    by (auto simp: agent_callback_step_def Let_def sys_ok_def active_remove_good active_remove_keeps)
  from store_ok(1) [OF assms i this] Some show ?thesis by (simp add: mg_callback_def)
qed (use assms in \<open>simp add: mg_callback_def\<close>)

lemma mg_step_ok:
  assumes "mg_ok m"
  shows "mg_ok (mg_step m e)"
proof (cases e)
  case (MgCreate newId key url path)
  with assms create_ok [of m key newId url path] show ?thesis by (simp add: mg_keys_def)
next
  case (MgGetStatus i)
  have "mg_ok (snd (GetDownloadStatus i m))"
    using assms polls_ok [OF assms, of "due_tasks m"]
    by (auto simp: GetDownloadStatus_def sthen_run sbind_run get_run split: option.splits)
  with MgGetStatus show ?thesis by simp
next
  case MgRefresh
  with assms show ?thesis
    by (auto simp: mg_RefreshAdminConfigs_def mg_ok_def world_ok_def mg_keys_def sched_immediate_def live_task_def Let_def
        dest!: tq_add_front_set)
next
  case MgWorker
  with assms show ?thesis by (simp add: mg_ok_def world_ok_def mg_keys_def do_work_top_good do_work_top_running)
next
  case (MgSet i key val)
  with request_ok [OF assms mgr.ok_set] show ?thesis by (simp add: SetDownloadProperty_def)
next
  case (MgFinalize i)
  have "mg_ok (snd (FinalizeDownload i m))"
    unfolding FinalizeDownload_def Finalize_def by (rule erasing_ok, rule request_ok [OF assms mgr.ok_change])
  with MgFinalize show ?thesis by simp
next
  case (MgAbort i)
  have "mg_ok (snd (AbortDownload i m))"
    unfolding AbortDownload_def Abort_def by (rule erasing_ok, rule request_ok [OF assms mgr.ok_change])
  with MgAbort show ?thesis by simp
next
  case (MgStart i)
  with request_ok [OF assms mgr.ok_change] show ?thesis by (simp add: StartDownload_def Start_def)
next
  case (MgPause i)
  with request_ok [OF assms mgr.ok_change] show ?thesis by (simp add: PauseDownload_def Pause_def)
next
  case (MgGet i key)
  with assms show ?thesis by (simp add: GetDownloadProperty_def sbind_run get_run split: option.splits)
next
  case (MgAgent i a)
  with callback_ok [OF assms] show ?thesis by simp
next
  case MgTask
  with poll_ok [OF assms] show ?thesis by simp
qed (use assms in \<open>simp_all add: mg_ok_def world_ok_def mg_keys_def IsIdle_def Let_def\<close>)

text \<open>The world a manager starts in.\<close>

definition world_ready :: "world \<Rightarrow> bool" where
  "world_ready w \<longleftrightarrow> w_queue w = [] \<and> w_curl w = curl_start"

lemma mg_new_ok: "world_ready w \<Longrightarrow> mg_ok (mg_new w)"
  by (simp add: world_ready_def mg_ok_def mg_new_def world_ok_def curl_good_start) (simp add: curl_start_def)

lemma sample_world_ready: "world_ready sample_world"
  by (simp add: world_ready_def sample_world_def)

interpretation manager_machine: inductive_machine "mg_new sample_world" mg_step mg_ok
  by unfold_locales (simp_all add: mg_new_ok sample_world_ready mg_step_ok)

lemma mg_run_ok: "mg_ok m \<Longrightarrow> mg_ok (run_steps mg_step m es)"
  by (rule manager_machine.run_inv_from)

text \<open>
  C2. In every run of the manager each queued task is the manager's own or carries the address
  of a download that is still in the table, under that download's tag: no task runs on a
  destroyed download.
\<close>

theorem queued_tasks_have_download:
  assumes "world_ready w" "e \<in> set (w_queue (mg_world (run_steps mg_step (mg_new w) es)))"
  shows "case task_key (tq_task e) of
      None \<Rightarrow> tq_tag e = Some TagManager
    | Some k \<Rightarrow> (\<exists>(i, d) \<in> set (mg_downloads (run_steps mg_step (mg_new w) es)). dl_key d = k) \<and> own_tag k (tq_tag e)"
proof -
  have "mg_ok (run_steps mg_step (mg_new w) es)" using mg_run_ok [OF mg_new_ok [OF assms(1)]] .
  then show ?thesis using assms(2) by (force simp: mg_ok_def world_ok_def live_task_def mg_keys_def split: option.splits)
qed

definition small_guid :: guid where
  "small_guid = \<lparr>Data1 = 1, Data2 = 2, Data3 = 3, Data4 = [0, 1, 2, 3, 4, 5, 6, 7]\<rparr>"

definition small_id :: string where
  "small_id = ''00000001-0002-0003-0001-020304050607''"

lemma small_id_text: "GuidToString small_guid = small_id"
  by code_simp

definition sample_requests :: "mg_event list" where
  "sample_requests = [MgCreate small_guid 1 ''http://a/b'' ''/f'', MgStart small_id, MgRefresh]"

theorem queued_tasks_have_download_witness:
  "let m = run_steps mg_step (mg_new sample_world) sample_requests
   in map tq_task (w_queue (mg_world m)) = [TkRefreshConfigs, TkProgress 1] \<and>
      (\<exists>(i, d) \<in> set (mg_downloads m). dl_key d = 1) \<and> own_tag 1 (tq_tag (w_queue (mg_world m) ! 1))"
proof -
  let ?m = "run_steps mg_step (mg_new sample_world) sample_requests"
  have 1: "map tq_task (w_queue (mg_world ?m)) = [TkRefreshConfigs, TkProgress 1]" by code_simp
  then have 2: "length (w_queue (mg_world ?m)) = 2" by (metis length_map length_Cons list.size(3) numeral_2_eq_2)
  then have "w_queue (mg_world ?m) ! 1 \<in> set (w_queue (mg_world ?m))" by simp
  note q = queued_tasks_have_download [OF sample_world_ready this]
  have "tq_task (w_queue (mg_world ?m) ! 1) = TkProgress 1"
    using 1 2 nth_map [of 1 "w_queue (mg_world ?m)" tq_task] by simp
  with q 1 show ?thesis by (simp add: Let_def)
qed

section \<open>Requests\<close>

text \<open>The download a request names; reading the status runs the tasks of others as well.\<close>

fun names :: "mg_event \<Rightarrow> string option" where
  "names (MgStart i) = Some i"
| "names (MgPause i) = Some i"
| "names (MgFinalize i) = Some i"
| "names (MgAbort i) = Some i"
| "names (MgSet i _ _) = Some i"
| "names (MgGet i _) = Some i"
| "names (MgAgent i _) = Some i"
| "names _ = None"

lemma store_other: "j \<noteq> i \<Longrightarrow> map_of (mg_downloads (mg_store i c m)) j = map_of (mg_downloads m) j"
proof -
  assume "j \<noteq> i"
  then have "map_of (map (\<lambda>(a, d). (a, if a = i then x else d)) xs) j = map_of xs j" for x and xs :: "(string \<times> download) list"
    by (induction xs) auto
  then show ?thesis by (simp add: mg_store_def)
qed

lemma filter_other: "map_of (filter (\<lambda>(a, _). a \<noteq> i) xs) j = (if j = i then None else map_of xs j)"
  by (induction xs) auto

lemma on_download_other: "j \<noteq> i \<Longrightarrow> map_of (mg_downloads (snd (on_download i d f m))) j = map_of (mg_downloads m) j"
  by (simp add: on_download_def store_other case_prod_unfold Let_def)

lemma erase_run: "map_of (mg_downloads (snd (mg_erase i m))) j = (if j = i then None else map_of (mg_downloads m) j)"
  by (auto simp: mg_erase_def filter_other split: option.splits)

lemma erasing_other:
  assumes "j \<noteq> i"
  shows "map_of (mg_downloads (snd (sthen (sbind (GetDownload i) (\<lambda>d. on_download i d f)) (mg_erase i) m))) j = map_of (mg_downloads m) j"
proof (cases "sbind (GetDownload i) (\<lambda>d. on_download i d f) m")
  case (Pair r m')
  then have "map_of (mg_downloads m') j = map_of (mg_downloads m) j"
    using on_download_other [OF assms, of _ f m] by (auto simp: sbind_run get_run split: option.splits) (metis snd_conv)
  with Pair assms show ?thesis by (cases r) (simp_all add: sthen_run erase_run)
qed



lemma stored: "map_of (mg_downloads m) i = Some d \<Longrightarrow> map_of (mg_downloads (mg_store i c m)) i = Some (cx_dl c)"
proof -
  have "map_of xs i = Some d \<Longrightarrow> map_of (map (\<lambda>(a, d). (a, if a = i then x else d)) xs) i = Some x" for x and xs :: "(string \<times> download) list"
    by (induction xs) auto
  then show "map_of (mg_downloads m) i = Some d \<Longrightarrow> ?thesis" by (simp add: mg_store_def)
qed

lemma erased_tasks:
  assumes "map_of (mg_downloads m) i = Some d"
  shows "\<forall>e \<in> set (w_queue (mg_world (snd (mg_erase i m)))). \<not> own_tag (dl_key d) (tq_tag e)"
  using assms by (simp add: mg_erase_def destroy_queue)

text \<open>
  C14. In every run, a finalize or an abort takes the download out of the table and its tasks out
  of the queue exactly when it succeeds; after that every request for its id fails with
  \<open>E_NOT_SET\<close> and changes nothing.
\<close>

theorem finished_download_is_forgotten:
  assumes "world_ready w" "m = run_steps mg_step (mg_new w) es" "map_of (mg_downloads m) i = Some d"
    "req = DS_Finalized \<or> req = DS_Aborted"
  shows "let (r, m') = (if req = DS_Finalized then FinalizeDownload i m else AbortDownload i m)
    in case r of
        Inl _ \<Rightarrow> map_of (mg_downloads m') i \<noteq> None
      | Inr _ \<Rightarrow> (\<forall>e \<in> set (w_queue (mg_world m')). \<not> own_tag (dl_key d) (tq_tag e)) \<and>
          (\<forall>next \<in> {StartDownload i, PauseDownload i, FinalizeDownload i, AbortDownload i, SetDownloadProperty i key val}.
             next m' = (Inl (hr_exn E_NOT_SET), m'))"
proof -
  let ?c = "\<lparr>cx_dl = d, cx_w = mg_world m\<rparr>" and ?f = "PerformStateChange req"
  let ?op = "if req = DS_Finalized then FinalizeDownload i m else AbortDownload i m"
  obtain r c where fc: "sched_block False ?f ?c = (r, c)" by fastforce
  have op: "?op = sthen (sbind (GetDownload i) (\<lambda>d. on_download i d (sched_block False ?f))) (mg_erase i) m"
    using assms(4) by (auto simp: FinalizeDownload_def AbortDownload_def Finalize_def Abort_def)
  have run: "?op = (case r of Inl e \<Rightarrow> (Inl e, mg_store i c m) | Inr _ \<Rightarrow> mg_erase i (mg_store i c m))"
    unfolding op by (simp add: sthen_run sbind_run get_run assms(3) on_download_def fc split: sum.splits)
  have ok: "mg_ok m" unfolding assms(2) by (rule mg_run_ok [OF mg_new_ok [OF assms(1)]])
  have "skeeps (sys_ok (live_task (mg_keys m)) False (dl_key d)) ?f"
    using mgr.ok_change [of "dl_key d" "mg_keys m" req] key_in [OF map_of_SomeD [OF assms(3)]] by simp
  from skeepsD [OF skeeps_sched_block [OF this] ctx_ok [OF ok] fc]
  have "sys_ok (live_task (mg_keys m)) False (dl_key d) c" .
  then have key: "dl_key (cx_dl c) = dl_key d" by (simp add: sys_ok_def)
  show ?thesis
  proof (cases r)
    case (Inl e)
    with run stored [OF assms(3), of c] show ?thesis by simp
  next
    case (Inr u)
    obtain m' where m': "mg_erase i (mg_store i c m) = (Inr (), m')"
      using stored [OF assms(3), of c] by (simp add: mg_erase_def)
    have "map_of (mg_downloads m') i = None" using erase_run [of i "mg_store i c m" i] m' by simp
    moreover have "\<forall>e \<in> set (w_queue (mg_world m')). \<not> own_tag (dl_key d) (tq_tag e)"
      using erased_tasks [OF stored [OF assms(3), of c]] m' key by simp
    ultimately show ?thesis
      using run Inr m' by (simp add: StartDownload_def PauseDownload_def FinalizeDownload_def AbortDownload_def
          SetDownloadProperty_def sthen_run sbind_run get_run)
  qed
qed

theorem finished_download_is_forgotten_witness:
  "let m = run_steps mg_step (mg_new sample_world) (take 1 sample_requests)
   in fst (StartDownload small_id (snd (AbortDownload small_id m))) = Inl (hr_exn E_NOT_SET)"
proof -
  define m where "m = run_steps mg_step (mg_new sample_world) (take 1 sample_requests)"
  have 1: "map fst (mg_downloads m) = [small_id] \<and> fst (AbortDownload small_id m) = Inr ()" unfolding m_def by code_simp
  then have "small_id \<in> set (map fst (mg_downloads m))" by (metis list.set_intros(1))
  then obtain d where d: "map_of (mg_downloads m) small_id = Some d"
    by (metis list.set_map map_of_eq_None_iff not_None_eq)
  obtain m' where ab: "AbortDownload small_id m = (Inr (), m')" using 1 by (metis prod.collapse)
  from finished_download_is_forgotten [OF sample_world_ready m_def d, of DS_Aborted] ab
  have "StartDownload small_id m' = (Inl (hr_exn E_NOT_SET), m')" by simp
  then show ?thesis unfolding m_def [symmetric] Let_def ab by simp
qed

section \<open>Shutdown\<close>

definition closed :: "manager \<Rightarrow> bool" where
  "closed m \<longleftrightarrow> mg_downloads m = [] \<and> \<not> mg_fRunning m"

lemma poll_closed: "closed m \<Longrightarrow> closed (mg_poll m)"
  by (auto simp: closed_def mg_poll_def mg_run_task_def refresh_admin_configs_def mg_fault_def Let_def split: option.splits prod.splits)

lemma closed_step:
  assumes "closed m"
  shows "closed (mg_step m e)"
proof -
  have "closed ((mg_poll ^^ n) m)" for n using assms by (induction n) (simp_all add: poll_closed)
  then show ?thesis
    using assms
    by (cases e) (auto simp: closed_def CreateDownload_def StartDownload_def PauseDownload_def FinalizeDownload_def
      AbortDownload_def SetDownloadProperty_def GetDownloadProperty_def GetDownloadStatus_def IsIdle_def mg_RefreshAdminConfigs_def
      mg_callback_def sbind_run sthen_run get_run throw_hr_if_run Let_def poll_closed [unfolded closed_def]
      split: option.splits sum.splits)
qed

text \<open>
  C25. Once the manager has said it is idle it stays empty: whatever is requested afterwards, no
  download is created, and a request to create one with an accepted URL fails with
  \<open>DO_E_NO_SERVICE\<close>.
\<close>

theorem idle_manager_stays_empty:
  assumes "IsIdle m = (True, m')"
  shows "mg_downloads (run_steps mg_step m' es) = [] \<and>
    (\<forall>d. download_new (ae_junk (w_agent_env (mg_world (run_steps mg_step m' es)))) key newId url path = Inr d \<longrightarrow>
       fst (CreateDownload newId key url path (run_steps mg_step m' es)) = Inl (hr_exn DO_E_NO_SERVICE))"
proof -
  have "closed m'" using assms by (auto simp: IsIdle_def closed_def Let_def)
  then have "closed (run_steps mg_step m' es)" by (induction es arbitrary: m') (simp_all add: closed_step)
  then show ?thesis by (simp add: closed_def CreateDownload_def sbind_run sthen_run throw_hr_if_run Let_def)
qed

theorem idle_manager_stays_empty_witness:
  "fst (CreateDownload sample_guid 1 ''http://a/b'' ''/f'' (snd (IsIdle (mg_new sample_world)))) = Inl (hr_exn DO_E_NO_SERVICE)"
proof -
  have i: "IsIdle (mg_new sample_world) = (True, snd (IsIdle (mg_new sample_world)))" by (simp add: IsIdle_def mg_new_def Let_def)
  have "ae_junk (w_agent_env (mg_world (snd (IsIdle (mg_new sample_world))))) = 0"
    by (simp add: IsIdle_def mg_new_def sample_world_def sample_env_def Let_def)
  with idle_manager_stays_empty [OF i, of "[]"] sample_download_new show ?thesis by simp
qed

end
