(* ===== verification/RestApi.thy ===== *)
theory RestApi
  imports HttpParser Manager
begin

text \<open>
  client-lite/src/ipc: the REST interface of the agent. The parameters and methods a request
  names (rest_api_params, rest_api_parser), what each request does to the manager
  (rest_api_request), and the controller that answers it (rest_http_controller). The property
  tree of a response is the list of the values put into it; the JSON writer of Boost is a
  parameter.
\<close>

section \<open>Parameters\<close>

datatype RestApiParameters = RP_Id | RP_Uri | RP_DownloadFilePath | RP_NoProgressTimeoutSeconds | RP_PropertyKey

datatype RestApiParamTypes = RPT_UInt | RPT_String

record rest_param =
  paramId :: RestApiParameters
  stringId :: string
  downloadPropertyId :: DownloadProperty
  paramType :: RestApiParamTypes

definition IsUnknownDownloadPropertyId :: "rest_param \<Rightarrow> bool" where
  "IsUnknownDownloadPropertyId p \<longleftrightarrow> downloadPropertyId p = DP_Invalid"

definition knownParams :: "rest_param list" where
  "knownParams =
     [\<lparr>paramId = RP_Id, stringId = ''Id'', downloadPropertyId = DP_Id, paramType = RPT_String\<rparr>,
      \<lparr>paramId = RP_Uri, stringId = ''Uri'', downloadPropertyId = DP_Uri, paramType = RPT_String\<rparr>,
      \<lparr>paramId = RP_DownloadFilePath, stringId = ''DownloadFilePath'', downloadPropertyId = DP_LocalPath, paramType = RPT_String\<rparr>,
      \<lparr>paramId = RP_NoProgressTimeoutSeconds, stringId = ''NoProgressTimeoutSeconds'',
        downloadPropertyId = DP_NoProgressTimeoutSeconds, paramType = RPT_UInt\<rparr>,
      \<lparr>paramId = RP_PropertyKey, stringId = ''PropertyKey'', downloadPropertyId = DP_Invalid, paramType = RPT_String\<rparr>]"

text \<open>The value of the enumerator, which indexes the table.\<close>

fun param_index :: "RestApiParameters \<Rightarrow> nat" where
  "param_index RP_Id = 0"
| "param_index RP_Uri = 1"
| "param_index RP_DownloadFilePath = 2"
| "param_index RP_NoProgressTimeoutSeconds = 3"
| "param_index RP_PropertyKey = 4"

definition Lookup :: "RestApiParameters \<Rightarrow> rest_param" where
  "Lookup p = knownParams ! param_index p"

definition Lookup_string :: "string \<Rightarrow> rest_param option" where
  "Lookup_string s = find (\<lambda>p. StringCompareCaseInsensitive (stringId p) s = 0) knownParams"

definition ParamToString :: "RestApiParameters \<Rightarrow> string" where
  "ParamToString p = stringId (Lookup p)"

section \<open>Methods\<close>

datatype RestApiMethods =
    RM_Create | RM_Enumerate | RM_Start | RM_Pause | RM_Finalize | RM_Abort | RM_GetStatus | RM_GetProperty | RM_SetProperty

definition supportedAPIs :: "(string \<times> RestApiMethods \<times> string) list" where
  "supportedAPIs =
     [(''create'', RM_Create, ''POST''), (''enumerate'', RM_Enumerate, ''GET''), (''start'', RM_Start, ''POST''),
      (''pause'', RM_Pause, ''POST''), (''finalize'', RM_Finalize, ''POST''), (''abort'', RM_Abort, ''POST''),
      (''getstatus'', RM_GetStatus, ''GET''), (''getproperty'', RM_GetProperty, ''GET''),
      (''setproperty'', RM_SetProperty, ''POST'')]"

definition Method :: "http_packet \<Rightarrow> RestApiMethods res" where
  "Method request =
     rbind (decode (m_path (m_components (pk_url request)))) (\<lambda>path.
       case split_path path of
         [p0, p1] \<Rightarrow>
           (if StringCompareCaseInsensitive p0 ''download'' = 0
            then (case omap_get case_insensitive_str_less p1 supportedAPIs of
                    Some (m, verb) \<Rightarrow> (if pk_method request = verb then Inr m else Inl (hr_exn E_UNSUPPORTED))
                  | None \<Rightarrow> Inl (hr_exn E_UNSUPPORTED))
            else Inl (hr_exn E_UNSUPPORTED))
       | _ \<Rightarrow> Inl (hr_exn E_UNSUPPORTED))"

section \<open>The query\<close>

text \<open>A map keyed by pointers into the table of parameters, which compare as indices do.\<close>

type_synonym query_data = "(RestApiParameters \<times> string) list"

definition param_less :: "RestApiParameters \<Rightarrow> RestApiParameters \<Rightarrow> bool" where
  "param_less p q \<longleftrightarrow> param_index p < param_index q"

fun parse_query_items :: "(string \<times> string) list \<Rightarrow> query_data \<Rightarrow> query_data res" where
  "parse_query_items [] m = Inr m"
| "parse_query_items ((k, v) # items) m =
     (case Lookup_string k of
        None \<Rightarrow> Inl (hr_exn E_INVALIDARG)
      | Some p \<Rightarrow> rbind (decode v) (\<lambda>d. parse_query_items items (omap_put param_less (paramId p) d m)))"

definition QueryParams :: "http_packet \<Rightarrow> query_data res" where
  "QueryParams request = parse_query_items (split_query (m_query (m_components (pk_url request)))) []"

definition QueryStringParam :: "http_packet \<Rightarrow> RestApiParameters \<Rightarrow> string option res" where
  "QueryStringParam request p = rbind (QueryParams request) (\<lambda>q. Inr (omap_get param_less p q))"

definition GetStringParam :: "http_packet \<Rightarrow> RestApiParameters \<Rightarrow> string res" where
  "GetStringParam request p =
     rbind (QueryStringParam request p) (\<lambda>v. Inr (case v of Some s \<Rightarrow> s | None \<Rightarrow> []))"

definition GetUri :: "http_packet \<Rightarrow> string res" where "GetUri request = GetStringParam request RP_Uri"
definition GetDownloadFilePath :: "http_packet \<Rightarrow> string res" where
  "GetDownloadFilePath request = GetStringParam request RP_DownloadFilePath"
definition GetDownloadId :: "http_packet \<Rightarrow> string res" where "GetDownloadId request = GetStringParam request RP_Id"

section \<open>Requests\<close>

fun DownloadStateToString :: "DownloadState \<Rightarrow> string" where
  "DownloadStateToString DS_Created = ''Created''"
| "DownloadStateToString DS_Transferring = ''Transferring''"
| "DownloadStateToString DS_Transferred = ''Transferred''"
| "DownloadStateToString DS_Finalized = ''Finalized''"
| "DownloadStateToString DS_Aborted = ''Aborted''"
| "DownloadStateToString DS_Paused = ''Paused''"

type_synonym response_body = "(string \<times> string) list"

text \<open>A request yields the values it put and its HRESULT; \<open>newId\<close> and \<open>key\<close> are for a new download.\<close>

type_synonym rest_result = "(manager, hresult \<times> response_body) sm"

definition process_create :: "guid \<Rightarrow> nat \<Rightarrow> http_packet \<Rightarrow> rest_result" where
  "process_create newId key request =
     sbind (sres (GetUri request)) (\<lambda>uri.
     sbind (sres (GetDownloadFilePath request)) (\<lambda>filePath.
     sbind (CreateDownload newId key uri filePath) (\<lambda>downloadId.
     sret (S_OK, [(ParamToString RP_Id, downloadId)]))))"

definition process_enumerate :: "http_packet \<Rightarrow> rest_result" where
  "process_enumerate request =
     sthen (sres (GetDownloadFilePath request)) (sthen (sres (GetUri request)) (sret (E_NOTIMPL, [])))"

definition process_state_change :: "http_packet \<Rightarrow> rest_result" where
  "process_state_change request =
     sbind (sres (GetDownloadId request)) (\<lambda>downloadId.
     sbind (sres (Method request)) (\<lambda>method.
       case method of
         RM_Start \<Rightarrow> sthen (StartDownload downloadId) (sret (S_OK, []))
       | RM_Pause \<Rightarrow> sthen (PauseDownload downloadId) (sret (S_OK, []))
       | RM_Finalize \<Rightarrow> sthen (FinalizeDownload downloadId) (sret (S_OK, []))
       | RM_Abort \<Rightarrow> sthen (AbortDownload downloadId) (sret (S_OK, []))
       | _ \<Rightarrow> sret (E_NOTIMPL, [])))"

definition status_body :: "download_status \<Rightarrow> response_body" where
  "status_body st =
     [(''Status'', DownloadStateToString (State st)),
      (''BytesTotal'', show_nat (unat (BytesTotal st))),
      (''BytesTransferred'', show_nat (unat (BytesTransferred st))),
      (''ErrorCode'', show_int (sint (Error st))),
      (''ExtendedErrorCode'', show_int (sint (ExtendedError st)))]"

definition process_get_status :: "http_packet \<Rightarrow> rest_result" where
  "process_get_status request =
     sbind (sres (GetDownloadId request)) (\<lambda>downloadId.
     sbind (GetDownloadStatus downloadId) (\<lambda>status. sret (S_OK, status_body status)))"

definition process_get_property :: "http_packet \<Rightarrow> rest_result" where
  "process_get_property request =
     sbind (sres (QueryStringParam request RP_PropertyKey)) (\<lambda>propKey.
       case propKey of
         None \<Rightarrow> sret (E_INVALIDARG, [])
       | Some key \<Rightarrow>
           if key = [] then sret (E_INVALIDARG, [])
           else (case Lookup_string key of
                   None \<Rightarrow> sret (DO_E_UNKNOWN_PROPERTY_ID, [])
                 | Some p \<Rightarrow>
                     if IsUnknownDownloadPropertyId p then sret (DO_E_UNKNOWN_PROPERTY_ID, [])
                     else sbind (sres (GetDownloadId request)) (\<lambda>downloadId.
                          sbind (GetDownloadProperty downloadId (downloadPropertyId p)) (\<lambda>val. sret (S_OK, [(key, val)])))))"

fun properties_to_set :: "query_data \<Rightarrow> (DownloadProperty \<times> string) list option" where
  "properties_to_set [] = Some []"
| "properties_to_set ((p, v) # items) =
     (if IsUnknownDownloadPropertyId (Lookup p) then None
      else map_option (\<lambda>ps. (downloadPropertyId (Lookup p), v) # ps) (properties_to_set items))"

fun set_properties :: "string \<Rightarrow> (DownloadProperty \<times> string) list \<Rightarrow> (manager, unit) sm" where
  "set_properties downloadId [] = sret ()"
| "set_properties downloadId ((key, val) # ps) = sthen (SetDownloadProperty downloadId key val) (set_properties downloadId ps)"

definition process_set_property :: "http_packet \<Rightarrow> rest_result" where
  "process_set_property request =
     sbind (sres (GetDownloadId request)) (\<lambda>downloadId.
     sbind (sres (QueryParams request)) (\<lambda>query.
       case properties_to_set query of
         None \<Rightarrow> sret (DO_E_UNKNOWN_PROPERTY_ID, [])
       | Some ps \<Rightarrow> sthen (set_properties downloadId ps) (sret (S_OK, []))))"

definition ParseAndProcess :: "guid \<Rightarrow> nat \<Rightarrow> RestApiMethods \<Rightarrow> http_packet \<Rightarrow> rest_result" where
  "ParseAndProcess newId key method request =
     (case method of
        RM_Create \<Rightarrow> process_create newId key request
      | RM_Enumerate \<Rightarrow> process_enumerate request
      | RM_GetStatus \<Rightarrow> process_get_status request
      | RM_GetProperty \<Rightarrow> process_get_property request
      | RM_SetProperty \<Rightarrow> process_set_property request
      | _ \<Rightarrow> process_state_change request)"

text \<open>\<open>Process\<close> turns an exception into its HRESULT.\<close>

definition Process :: "guid \<Rightarrow> nat \<Rightarrow> RestApiMethods \<Rightarrow> http_packet \<Rightarrow> manager \<Rightarrow> (hresult \<times> response_body) \<times> manager" where
  "Process newId key method request m =
     (case ParseAndProcess newId key method request m of
        (Inl e, m') \<Rightarrow> ((caught e, []), m')
      | (Inr r, m') \<Rightarrow> (r, m'))"

section \<open>The controller\<close>

definition http_BadRequest :: u32 where "http_BadRequest = 400"
definition http_NotFound :: u32 where "http_NotFound = 404"
definition http_InternalError :: u32 where "http_InternalError = 500"
definition http_ServiceUnavailable :: u32 where "http_ServiceUnavailable = 503"
definition http_OK :: u32 where "http_OK = 200"

lemmas http_status_defs = http_BadRequest_def http_NotFound_def http_InternalError_def
  http_ServiceUnavailable_def http_OK_def

definition HttpStatusFromHRESULT :: "hresult \<Rightarrow> u32" where
  "HttpStatusFromHRESULT hr =
     (if hr = S_OK \<or> hr = S_FALSE then http_OK
      else if hr = E_NOT_SET then http_NotFound
      else if hr = E_OUTOFMEMORY then http_ServiceUnavailable
      else if hr = HRESULT_FROM_WIN32 ERROR_UNHANDLED_EXCEPTION then http_InternalError
      else http_BadRequest)"

definition failure_body :: "hresult \<Rightarrow> string" where
  "failure_body hr = ''{ '' @ [CHR 0x22] @ ''ErrorCode'' @ [CHR 0x22] @ '': '' @ show_int (sint hr) @ '' }''"

definition mg_validate_remote :: "manager \<Rightarrow> bool \<times> manager" where
  "mg_validate_remote m =
     (let w = mg_world m;
          (v, cfg) = RestControllerValidateRemoteAddr ((w_config_env w)\<lparr>ce_now := w_now w\<rparr>) (w_config w)
      in (v, m\<lparr>mg_world := w\<lparr>w_config := cfg\<rparr>\<rparr>))"

definition handle_request ::
  "bool \<Rightarrow> guid \<Rightarrow> nat \<Rightarrow> http_packet \<Rightarrow> manager \<Rightarrow> (hresult \<times> response_body) \<times> manager" where
  "handle_request is_loopback newId key packet m =
     (let (validate, m1) = mg_validate_remote m
      in if validate \<and> \<not> is_loopback then ((E_INVALIDARG, []), m1)
         else (case Method packet of
                 Inl e \<Rightarrow> ((caught e, []), m1)
               | Inr method \<Rightarrow> Process newId key method packet m1))"

text \<open>What a request is answered: the status code and the body of the reply.\<close>

definition HttpListenerCallback ::
  "(response_body \<Rightarrow> string) \<Rightarrow> bool \<Rightarrow> guid \<Rightarrow> nat \<Rightarrow> http_packet \<Rightarrow> manager \<Rightarrow> (u32 \<times> string) \<times> manager" where
  "HttpListenerCallback write_json is_loopback newId key packet m =
     (let ((hr, body), m') = handle_request is_loopback newId key packet m
      in (if SUCCEEDED hr then (http_OK, write_json body) else (HttpStatusFromHRESULT hr, failure_body hr), m'))"

end
