(* ===== verification/Listener.thy ===== *)
theory Listener
  imports RestApi
begin

text \<open>
  client-lite/src/ipc: the listener of the REST interface. The search for a free port
  (rest_http_listener), the connection that reads requests and writes replies
  (rest_http_listener_conn), and the file that advertises the port (rest_port_advertiser).
  The version macros of common/lib-doversion are parameters.
\<close>

section \<open>The port\<close>

text \<open>What binding to a port and listening there gives.\<close>

datatype bind_outcome = BindOk | BindErr "32 word"

definition EADDRINUSE :: "32 word" where "EADDRINUSE = 98"
definition restPortFirst :: "16 word" where "restPortFirst = 50000"
definition restPortLimit :: "16 word" where "restPortLimit = 60999"

function listen_from :: "(16 word \<Rightarrow> bind_outcome) \<Rightarrow> 16 word \<Rightarrow> (16 word) res" where
  "listen_from bind_to restPort =
     (case bind_to restPort of
        BindOk \<Rightarrow> Inr restPort
      | BindErr code \<Rightarrow>
          if code \<noteq> EADDRINUSE \<or> restPort = restPortLimit then Inl (BoostSystemError code)
          else listen_from bind_to (restPort + 1))"
  by pat_completeness auto
termination
proof (relation "measure (\<lambda>(b, p). unat (restPortLimit - p))")
  fix p :: "16 word" and code
  assume "\<not> (code \<noteq> EADDRINUSE \<or> p = restPortLimit)"
  then have "restPortLimit - p \<noteq> 0" by auto
  then have "unat (restPortLimit - p - 1) < unat (restPortLimit - p)"
    by (metis measure_unat)
  then show "((bind_to, p + 1), bind_to, p) \<in> measure (\<lambda>(b, p). unat (restPortLimit - p))" for bind_to :: "16 word \<Rightarrow> bind_outcome"
    by (simp add: diff_diff_eq)
qed simp

declare listen_from.simps [simp del]

definition listener_Start :: "(16 word \<Rightarrow> bind_outcome) \<Rightarrow> (16 word) res" where
  "listener_Start bind_to = listen_from bind_to restPortFirst"

section \<open>Replies\<close>

definition HttpStatusToString :: "u32 \<Rightarrow> string" where
  "HttpStatusToString statusCode =
     (if statusCode = http_OK then ''OK''
      else if statusCode = http_BadRequest then ''BadRequest''
      else if statusCode = http_NotFound then ''NotFound''
      else if statusCode = http_InternalError then ''InternalError''
      else if statusCode = http_ServiceUnavailable then ''ServiceUnavailable''
      else ''StatusDescription'')"

definition Reply :: "string \<Rightarrow> u32 \<Rightarrow> string \<Rightarrow> string" where
  "Reply version statusCode body =
     ''HTTP/1.1 '' @ show_nat (unat statusCode) @ '' '' @ HttpStatusToString statusCode @ crlf @
     (if body \<noteq> [] then ''Content-Length: '' @ show_nat (length body) @ crlf else []) @
     ''Server: Delivery-Optimization-Agent/'' @ version @ crlf @
     crlf @
     (if body \<noteq> [] then body else [])"

section \<open>A connection\<close>

datatype conn_read = ReadError | ReadBytes string

text \<open>What the connection does: it writes a reply, posts a request to the controller, reads on.\<close>

datatype conn_action = CaReply u32 | CaPost http_packet | CaReceive

definition conn_OnData :: "int \<Rightarrow> conn_read \<Rightarrow> http_parser \<Rightarrow> http_parser \<times> conn_action list" where
  "conn_OnData junk r p =
     (case r of
        ReadError \<Rightarrow> (p, [])
      | ReadBytes d \<Rightarrow>
          if d = [] then (p, [])
          else (case OnData junk d p of
                  (Inl _, p') \<Rightarrow> (p', [CaReply http_BadRequest])
                | (Inr _, p') \<Rightarrow>
                    if hp_done p' then (hp_reset p', [CaPost (hp_packet p'), CaReceive]) else (p', [CaReceive])))"

text \<open>A connection reads again only when it asked to.\<close>

fun conn_run :: "int \<Rightarrow> conn_read list \<Rightarrow> http_parser \<Rightarrow> conn_action list" where
  "conn_run junk [] p = []"
| "conn_run junk (r # rs) p =
     (let (p', as) = conn_OnData junk r p in as @ (if CaReceive \<in> set as then conn_run junk rs p' else []))"

section \<open>The advertised port\<close>

text \<open>A directory, in the order its iteration gives.\<close>

record dir_entry =
  de_name :: string
  de_time :: int
  de_data :: string

definition restPortFileNamePrefix :: string where "restPortFileNamePrefix = ''restport''"

definition DeleteOlderPortFiles :: "(string \<Rightarrow> bool) \<Rightarrow> dir_entry list \<Rightarrow> dir_entry list" where
  "DeleteOlderPortFiles removable dir = filter (\<lambda>e. \<not> (has_substring restPortFileNamePrefix (de_name e) \<and> removable (de_name e))) dir"

definition port_file_name :: "nat \<Rightarrow> string" where
  "port_file_name pid = restPortFileNamePrefix @ ''.'' @ show_nat pid"

definition put_file :: "dir_entry \<Rightarrow> dir_entry list \<Rightarrow> dir_entry list" where
  "put_file e dir = filter (\<lambda>x. de_name x \<noteq> de_name e) dir @ [e]"

text \<open>\<open>opened\<close> is whether \<open>open\<close> succeeds, \<open>written\<close> how many bytes \<open>write\<close> takes.\<close>

definition RestPortAdvertiser ::
  "(string \<Rightarrow> bool) \<Rightarrow> bool \<Rightarrow> nat \<Rightarrow> int \<Rightarrow> nat \<Rightarrow> 16 word \<Rightarrow> dir_entry list \<Rightarrow> unit res \<times> dir_entry list" where
  "RestPortAdvertiser removable opened written now pid port dir =
     (let dir1 = DeleteOlderPortFiles removable dir;
          writeStr = show_nat (unat port) @ [LF]
      in if \<not> opened then (Inl (hr_exn E_FAIL), dir1)
         else (if written < length writeStr then Inl (hr_exn E_FAIL) else Inr (),
               put_file \<lparr>de_name = port_file_name pid, de_time = now, de_data = take written writeStr\<rparr> dir1))"

section \<open>Versions\<close>

record version_macros =
  g_appBuilder :: string
  g_appName :: string
  g_appVersion :: string
  g_appBuildTime :: string
  g_gitHeadRev :: string
  g_gitHeadName :: string

definition SimpleVersion :: "version_macros \<Rightarrow> string" where
  "SimpleVersion v = g_appVersion v"

definition ComponentVersion :: "version_macros \<Rightarrow> bool \<Rightarrow> string" where
  "ComponentVersion v fIncludeExtras =
     (if g_appBuilder v \<noteq> [] then g_appBuilder v @ '';'' else []) @
     g_appName v @ ''/v'' @ g_appVersion v @
     (if g_appBuildTime v \<noteq> [] then ''+'' @ g_appBuildTime v else []) @
     (if g_gitHeadRev v \<noteq> [] then (if g_appBuildTime v \<noteq> [] then ''.'' else ''+'') @ g_gitHeadRev v else []) @
     (if fIncludeExtras \<and> g_gitHeadName v \<noteq> [] then '' ('' @ g_gitHeadName v @ '')'' else [])"

text \<open>The text printed, if any, for the arguments of the program.\<close>

definition OutputVersionIfNeeded :: "version_macros \<Rightarrow> string list \<Rightarrow> string option" where
  "OutputVersionIfNeeded v argv =
     (case argv of
        [_, opt] \<Rightarrow>
          (let fVersionEx = (opt = ''--version-extra'')
           in if fVersionEx \<or> opt = ''--version'' \<or> opt = ''-v''
              then Some (ComponentVersion v fVersionEx @ [LF]) else None)
      | _ \<Rightarrow> None)"

end
