(* ===== verification/ListenerProps.thy ===== *)
theory ListenerProps
  imports Listener ManagerProps
begin

text \<open>
  Properties of the REST interface of the agent: the port it listens on, the reading of requests,
  the codes of its replies, who may ask, and what setting properties comes to.
\<close>

section \<open>The port\<close>

definition taken :: "(16 word \<Rightarrow> bind_outcome) \<Rightarrow> 16 word \<Rightarrow> nat \<Rightarrow> bool" where
  "taken bind_to p k \<longleftrightarrow> (\<forall>j < k. bind_to (p + of_nat j) = BindErr EADDRINUSE)"

lemma taken_Suc: "taken bind_to p (Suc k) \<longleftrightarrow> bind_to p = BindErr EADDRINUSE \<and> taken bind_to (p + 1) k"
  by (auto simp: taken_def less_Suc_eq_0_disj add.assoc)

lemma port_step:
  assumes "unat (restPortLimit - p) = Suc n"
  shows "unat (restPortLimit - (p + 1)) = n" "p \<noteq> restPortLimit"
proof -
  have "restPortLimit - p \<noteq> 0" using assms by auto
  then have "unat (restPortLimit - p - 1) = n" using assms by (simp add: unat_minus_one)
  then show "unat (restPortLimit - (p + 1)) = n" by (simp add: diff_diff_eq)
  show "p \<noteq> restPortLimit" using assms by auto
qed

lemma listen_from_result:
  assumes "unat (restPortLimit - p) = n"
  shows "\<exists>k \<le> n. taken bind_to p k \<and>
    (case bind_to (p + of_nat k) of
       BindOk \<Rightarrow> listen_from bind_to p = Inr (p + of_nat k)
     | BindErr code \<Rightarrow> listen_from bind_to p = Inl (BoostSystemError code) \<and> (code = EADDRINUSE \<longrightarrow> k = n))"
  using assms
proof (induction n arbitrary: p)
  case 0
  then have "p = restPortLimit" by (simp add: unat_eq_0)
  then show ?case by (subst listen_from.simps, subst listen_from.simps) (simp add: taken_def split: bind_outcome.splits)
next
  case (Suc n)
  show ?case
  proof (cases "bind_to p = BindErr EADDRINUSE")
    case False
    then show ?thesis
      by (intro exI [of _ 0], subst listen_from.simps, subst listen_from.simps) (auto simp: taken_def split: bind_outcome.splits)
  next
    case True
    then have eq: "listen_from bind_to p = listen_from bind_to (p + 1)"
      using port_step(2) [OF Suc.prems] by (subst listen_from.simps) simp
    from Suc.IH [OF port_step(1) [OF Suc.prems]] obtain k where "k \<le> n" "taken bind_to (p + 1) k"
      "case bind_to (p + 1 + of_nat k) of
         BindOk \<Rightarrow> listen_from bind_to (p + 1) = Inr (p + 1 + of_nat k)
       | BindErr code \<Rightarrow> listen_from bind_to (p + 1) = Inl (BoostSystemError code) \<and> (code = EADDRINUSE \<longrightarrow> k = n)" by blast
    then show ?thesis unfolding eq
      by (intro exI [of _ "Suc k"]) (simp add: taken_Suc True add.assoc split: bind_outcome.splits)
  qed
qed

text \<open>
  C27. The search for a port ends: the listener takes the first of the 11000 ports from 50000 to
  60999 that is free, and fails only at a port with another error or when all of them are in use.
\<close>

theorem listener_takes_first_free_port:
  "\<exists>k < 11000. (\<forall>j < k. bind_to (50000 + of_nat j) = BindErr EADDRINUSE) \<and>
    (case bind_to (50000 + of_nat k) of
       BindOk \<Rightarrow> listener_Start bind_to = Inr (50000 + of_nat k)
     | BindErr code \<Rightarrow> listener_Start bind_to = Inl (BoostSystemError code) \<and> (code = EADDRINUSE \<longrightarrow> k = 10999))"
proof -
  have "unat (restPortLimit - restPortFirst) = 10999" by (simp add: restPortLimit_def restPortFirst_def)
  from listen_from_result [OF this, of bind_to] obtain k where "k \<le> 10999" "taken bind_to restPortFirst k"
    "case bind_to (restPortFirst + of_nat k) of
       BindOk \<Rightarrow> listen_from bind_to restPortFirst = Inr (restPortFirst + of_nat k)
     | BindErr code \<Rightarrow> listen_from bind_to restPortFirst = Inl (BoostSystemError code) \<and> (code = EADDRINUSE \<longrightarrow> k = 10999)" by blast
  then show ?thesis
    unfolding listener_Start_def taken_def
    by (intro exI [of _ k]) (simp add: restPortFirst_def split: bind_outcome.splits)
qed

theorem listener_takes_first_free_port_witness:
  "listener_Start (\<lambda>p. if p = 50000 then BindErr EADDRINUSE else BindOk) = Inr 50001"
proof -
  define f where "f = (\<lambda>p :: 16 word. if p = 50000 then BindErr EADDRINUSE else BindOk)"
  obtain k where k: "\<forall>j < k. f (50000 + of_nat j) = BindErr EADDRINUSE"
    "case f (50000 + of_nat k) of
       BindOk \<Rightarrow> listener_Start f = Inr (50000 + of_nat k)
     | BindErr code \<Rightarrow> listener_Start f = Inl (BoostSystemError code) \<and> (code = EADDRINUSE \<longrightarrow> k = 10999)"
    using listener_takes_first_free_port [of f] by blast
  have "\<not> 1 < k"
  proof
    assume "1 < k"
    from k(1) [rule_format, OF this] show False by (simp add: f_def)
  qed
  moreover have "k \<noteq> 0"
  proof
    assume "k = 0"
    with k(2) show False by (simp add: f_def)
  qed
  ultimately have "k = 1" by linarith
  from k(2) [unfolded this] have "listener_Start f = Inr 50001" by (simp add: f_def)
  then show ?thesis by (simp only: f_def)
qed

section \<open>Reading requests\<close>

lemma OnData_after_Complete:
  assumes "hp_state p = Complete" "hp_ok p" "OnData junk b p = (Inr (), q)" "b \<noteq> []"
  shows "hp_from q \<noteq> length (hp_buf q)"
proof -
  have "q = p\<lparr>hp_buf := hp_buf p @ b\<rparr>"
    using assms(1,3) parse_loop_Complete [of "p\<lparr>hp_buf := hp_buf p @ b\<rparr>" junk] by (auto simp: OnData_def split: if_splits)
  with assms show ?thesis by (cases b) (auto simp: hp_ok_def)
qed

lemma conn_run_message:
  assumes "cs \<noteq> []" "hp_ok p" "\<forall>c \<in> set cs. c \<noteq> []" "OnData junk (concat cs) p = (Inr (), q)" "hp_state q = Complete"
    "hp_from q = length (hp_buf q)"
  shows "conn_run junk (map ReadBytes cs) p = replicate (length cs - 1) CaReceive @ [CaPost (hp_packet q), CaReceive]"
  using assms
proof (induction cs arbitrary: p rule: list_nonempty_induct)
  case (single c)
  then show ?case by (simp add: conn_OnData_def hp_done_def)
next
  case (cons c cs)
  then have ne: "concat cs \<noteq> []" by (cases cs) auto
  obtain p' where p': "OnData junk c p = (Inr (), p')" "hp_ok p'" "OnData junk (concat cs) p' = (Inr (), q)"
    using OnData_append [of p junk c "concat cs" q] cons.prems ne by auto
  have "hp_state p' \<noteq> Complete" using OnData_after_Complete [OF _ p'(2,3) ne] cons.prems(5) by blast
  with cons p' show ?case by (cases cs) (simp_all add: conn_OnData_def hp_done_def)
qed

text \<open>
  However a well-formed request of at most 2048 bytes arrives in pieces, the connection reads
  on until the last piece, posts the request it describes exactly once, and is ready for the next.
\<close>

theorem connection_posts_request:
  assumes "CR \<notin> set line" "first_line_packet junk line = Some pk1"
    and "\<forall>f \<in> set fs. CR \<notin> set f \<and> f \<noteq> []" "fields_effect fs pk1 = Some pk2"
    and "unat (pk_contentLength pk2) = length body"
    and "length (message_text line fs body) \<le> hp_capacity"
    and "concat chunks = message_text line fs body" "\<forall>c \<in> set chunks. c \<noteq> []"
  shows "conn_run junk (map ReadBytes chunks) hp_init =
    replicate (length chunks - 1) CaReceive @ [CaPost (pk2\<lparr>pk_body := body\<rparr>), CaReceive]"
proof -
  have "chunks \<noteq> []" using assms(7) by (auto simp: message_text_def crlf_def)
  moreover have "OnData junk (concat chunks) hp_init = (Inr (), parsed (message_text line fs body) pk2 body)"
    unfolding assms(7) using OnData_message [OF assms(1-6)] .
  ultimately show ?thesis
    using conn_run_message [of chunks hp_init junk] assms(8) by (simp add: parsed_def hp_ok_def hp_init_def)
qed

definition sample_request_line :: string where "sample_request_line = ''GET /download/getstatus HTTP/1.1''"

definition sample_request_packet :: http_packet where
  "sample_request_packet = packet_init\<lparr>pk_method := ''GET'',
     pk_url := \<lparr>m_uri = ''/download/getstatus'', m_components = uri_components_init\<lparr>m_path := ''/download/getstatus'', m_port := 0\<rparr>\<rparr>\<rparr>"

lemma sample_request_first_line: "first_line_packet 0 sample_request_line = Some sample_request_packet"
  by code_simp

theorem connection_posts_request_witness:
  "conn_run 0 (map ReadBytes [sample_request_line @ [CR], [LF, CR, LF]]) hp_init
   = [CaReceive, CaPost sample_request_packet, CaReceive]"
proof -
  have "CR \<notin> set sample_request_line" by (simp add: CR_def sample_request_line_def)
  moreover have "length (message_text sample_request_line [] []) \<le> hp_capacity"
    by (simp add: message_text_def fields_text_def crlf_def hp_capacity_def sample_request_line_def)
  moreover have "concat [sample_request_line @ [CR], [LF, CR, LF]] = message_text sample_request_line [] []"
    by (simp add: message_text_def fields_text_def crlf_def)
  ultimately show ?thesis
    using connection_posts_request [OF _ sample_request_first_line, of "[]" sample_request_packet "[]" "[sample_request_line @ [CR], [LF, CR, LF]]"]
    by (simp add: sample_request_packet_def packet_init_def)
qed

text \<open>Requests sent without waiting for the reply are lost: the parser is reset with them in its buffer.\<close>

lemma pipelined_request_is_lost:
  "conn_run 0 [ReadBytes (message_text sample_request_line [] [] @ message_text sample_request_line [] [])] hp_init
   = [CaPost sample_request_packet, CaReceive]"
  by code_simp

section \<open>Replies\<close>

lemma HttpStatusToString_chars: "HttpStatusToString c \<noteq> [] \<and> list_all (\<lambda>x. isalnum x \<or> x = CHR '' '') (HttpStatusToString c) \<and> CR \<notin> set (HttpStatusToString c)"
proof -
  have "list_all (\<lambda>s. s \<noteq> [] \<and> list_all (\<lambda>x. isalnum x \<or> x = CHR '' '') s \<and> CR \<notin> set s)
    [''OK'', ''BadRequest'', ''NotFound'', ''InternalError'', ''ServiceUnavailable'', ''StatusDescription'']" by code_simp
  then show ?thesis by (simp add: HttpStatusToString_def)
qed

lemma isdigit_facts: "isdigit c \<Longrightarrow> c \<noteq> CHR '' '' \<and> c \<noteq> CR \<and> c \<noteq> LF \<and> c \<noteq> NUL \<and> c \<noteq> CHR '':''"
  by (auto simp: isdigit_def ord_def CR_def LF_def NUL_def)

lemma digits_no: "\<not> isdigit x \<Longrightarrow> x \<notin> set (show_nat n)"
  using show_nat_digits [of n] by blast

lemma status_line_packet:
  assumes "n < 2 ^ 32"
  shows "first_line_packet junk (''HTTP/1.1 '' @ show_nat n @ '' '' @ HttpStatusToString c) = Some (packet_init\<lparr>pk_statusCode := of_nat n\<rparr>)"
    and "CR \<notin> set (''HTTP/1.1 '' @ show_nat n @ '' '' @ HttpStatusToString c)"
proof -
  let ?l = "''HTTP/1.1 '' @ show_nat n @ '' '' @ HttpStatusToString c"
  note ph = HttpStatusToString_chars [of c]
  have nul: "NUL \<notin> set (HttpStatusToString c)"
    using ph by (auto simp: list_all_iff ctype_defs ord_def NUL_def)
  have "CHR '' '' \<notin> set (show_nat n)" "NUL \<notin> set (show_nat n)" "CR \<notin> set (show_nat n)"
    using digits_no isdigit_facts by blast+
  note d = this
  show "CR \<notin> set ?l" using d ph by (simp add: CR_def)
  have "c_str ?l = ?l" using d nul by (intro c_str_id) (simp add: NUL_def)
  moreover have "split_blank ?l = Some (''HTTP/1.1'', show_nat n @ '' '' @ HttpStatusToString c)"
  proof -
    have "find_char (CHR '' '') (''HTTP/1.1'' @ CHR '' '' # x) = Some (length ''HTTP/1.1'')" for x
      by (rule find_char_split) simp
    then show ?thesis by (simp add: split_blank_def)
  qed
  moreover have "split_blank (show_nat n @ '' '' @ HttpStatusToString c) = Some (show_nat n, HttpStatusToString c)"
    using find_char_split [OF d(1), of "HttpStatusToString c"] by (simp add: split_blank_def)
  moreover have "rx_plus rx_version_char ''HTTP/1.1''" by code_simp
  moreover have "rx_plus isdigit (show_nat n)" using show_nat_digits [of n] by (simp add: rx_plus_def list_all_iff)
  moreover have "rx_plus (\<lambda>c. isalnum c \<or> c = CHR '' '') (HttpStatusToString c)" using ph by (simp add: rx_plus_def)
  ultimately have "rxStatusLine (c_str ?l) = Some (show_nat n)" by (simp add: rxStatusLine_def)
  moreover have "ucast (strtoul_digits (show_nat n)) = (of_nat n :: u32)"
    using assms by (simp add: strtoul_digits_def unsigned_of_nat take_bit_nat_eq_self)
  ultimately show "first_line_packet junk ?l = Some (packet_init\<lparr>pk_statusCode := of_nat n\<rparr>)"
    by (simp add: first_line_packet_def)
qed

lemma rx_last_number_none: "CHR '':'' \<notin> set s \<Longrightarrow> rx_last_number s = None"
  by (induction s) auto

lemma rx_last_number_prefix: "rx_last_number s = Some d \<Longrightarrow> rx_last_number (p @ s) = Some d"
  by (induction p) auto

lemma content_length_field:
  assumes "n < 2 ^ 64"
  shows "field_effect (''Content-Length: '' @ show_nat n) pk = Some (pk\<lparr>pk_contentLength := of_nat n\<rparr>)"
proof -
  let ?f = "''Content-Length: '' @ show_nat n"
  have d: "CHR '':'' \<notin> set (show_nat n)" "NUL \<notin> set (show_nat n)" "CR \<notin> set (show_nat n)" "LF \<notin> set (show_nat n)"
    using digits_no isdigit_facts by blast+
  have tw: "takeWhile isdigit (show_nat n) = show_nat n" using show_nat_digits by (rule takeWhile_all)
  have "\<not> isdigit (CHR '' '')" by code_simp
  moreover have "dropWhile (\<lambda>c. c = CHR '' '') (show_nat n) = show_nat n"
    using show_nat_digits [of n] isdigit_facts by (cases "show_nat n") auto
  ultimately have "rx_last_number ('': '' @ show_nat n) = Some (show_nat n)"
    using rx_last_number_none [OF d(1)] by (simp add: Let_def tw)
  then have "rx_last_number (''Content-Length'' @ '': '' @ show_nat n) = Some (show_nat n)" by (rule rx_last_number_prefix)
  then have r: "rx_last_number ?f = Some (show_nat n)" by (simp add: append_assoc [symmetric] del: append_assoc)
  have "c_str ?f = ?f" using d by (intro c_str_id) (simp add: NUL_def)
  moreover have "CR \<notin> set ?f" "LF \<notin> set ?f" using d by (simp_all add: CR_def LF_def)
  ultimately have "rxContentLength (c_str ?f) = Some (show_nat n)" using r by (simp add: rxContentLength_def)
  moreover have "has_substring ''Content-Length'' ?f" by simp
  moreover have "strtoul_digits (show_nat n) = of_nat n" using assms by (simp add: strtoul_digits_def min_absorb1)
  ultimately show ?thesis by (simp add: field_effect_def)
qed

definition plain_version :: "string \<Rightarrow> bool" where
  "plain_version v \<longleftrightarrow> CR \<notin> set v \<and> \<not> has_substring ''Content-Length'' (''Server: Delivery-Optimization-Agent/'' @ v)"

definition reply_fields :: "string \<Rightarrow> string \<Rightarrow> string list" where
  "reply_fields version body =
     (if body \<noteq> [] then [''Content-Length: '' @ show_nat (length body)] else []) @ [''Server: Delivery-Optimization-Agent/'' @ version]"

lemma Reply_message:
  "Reply version code body = message_text (''HTTP/1.1 '' @ show_nat (unat code) @ '' '' @ HttpStatusToString code)
     (reply_fields version body) body"
  by (simp add: Reply_def message_text_def reply_fields_def fields_text_def)

lemma reply_parsed:
  assumes "plain_version version" "length (Reply version code body) \<le> hp_capacity"
  shows "OnData junk (Reply version code body) hp_init =
    (Inr (), parsed (Reply version code body) (packet_init\<lparr>pk_statusCode := code, pk_contentLength := of_nat (length body)\<rparr>) body)"
proof -
  have len: "length body \<le> 2048"
    using assms(2) by (simp add: Reply_message message_text_def hp_capacity_def)
  have "unat code < 2 ^ 32" using unsigned_less [of code, where ?'a = nat] by simp
  note line = status_line_packet(1) [OF this, of junk code] status_line_packet(2) [OF this, of code]
  have cr: "CR \<notin> set (show_nat n)" for n using digits_no isdigit_facts by blast
  have cond: "\<forall>f \<in> set (reply_fields version body). CR \<notin> set f \<and> f \<noteq> []"
    using assms(1) cr by (auto simp: reply_fields_def plain_version_def CR_def)
  have srv: "field_effect (''Server: Delivery-Optimization-Agent/'' @ version) pk = Some pk" for pk
    using assms(1) by (simp add: field_effect_def plain_version_def)
  have "fields_effect (reply_fields version body) (packet_init\<lparr>pk_statusCode := code\<rparr>)
      = Some (packet_init\<lparr>pk_statusCode := code, pk_contentLength := of_nat (length body)\<rparr>)"
    using len content_length_field [of "length body"] srv by (simp add: reply_fields_def packet_init_def)
  moreover have "unat (of_nat (length body) :: u64) = length body"
    using len by (simp add: unat_of_nat take_bit_nat_eq_self)
  ultimately show "OnData junk (Reply version code body) hp_init =
    (Inr (), parsed (Reply version code body) (packet_init\<lparr>pk_statusCode := code, pk_contentLength := of_nat (length body)\<rparr>) body)"
    using OnData_message [OF line(2,1) cond, of "packet_init\<lparr>pk_statusCode := code, pk_contentLength := of_nat (length body)\<rparr>" body] assms(2)
    by (simp add: Reply_message packet_init_def)
qed

section \<open>Who may ask\<close>

text \<open>
  C26. Unless the configuration turns the check off, a request from an address that is not a
  loopback address is answered 400 with \<open>E_INVALIDARG\<close>, whatever it asks for; no download, queued
  task, transfer or file is touched.
\<close>

theorem remote_requests_refused:
  assumes "fst (mg_validate_remote m)"
  shows "fst (HttpListenerCallback write_json False newId key packet m) = (http_BadRequest, failure_body E_INVALIDARG) \<and>
    (let m' = snd (HttpListenerCallback write_json False newId key packet m)
     in mg_downloads m' = mg_downloads m \<and> mg_fRunning m' = mg_fRunning m \<and>
        w_queue (mg_world m') = w_queue (mg_world m) \<and> w_curl (mg_world m') = w_curl (mg_world m) \<and>
        w_fs (mg_world m') = w_fs (mg_world m))"
proof -
  have "E_INVALIDARG \<noteq> S_OK" "E_INVALIDARG \<noteq> S_FALSE" "E_INVALIDARG \<noteq> E_NOT_SET" "E_INVALIDARG \<noteq> E_OUTOFMEMORY"
    "E_INVALIDARG \<noteq> HRESULT_FROM_WIN32 ERROR_UNHANDLED_EXCEPTION" "\<not> SUCCEEDED E_INVALIDARG"
    by (simp_all add: hr_defs hr_unhandled SUCCEEDED_def)
  with assms show ?thesis
    by (cases "mg_validate_remote m")
      (auto simp: HttpListenerCallback_def handle_request_def HttpStatusFromHRESULT_def mg_validate_remote_def Let_def
        split: prod.splits)
qed

theorem remote_requests_refused_witness:
  "fst (HttpListenerCallback (\<lambda>_. []) False sample_guid 1 sample_request_packet (mg_new sample_world)) = (http_BadRequest, failure_body E_INVALIDARG)"
proof -
  have "fst (mg_validate_remote (mg_new sample_world))" by code_simp
  from remote_requests_refused [OF this] show ?thesis by blast
qed

section \<open>Setting properties\<close>

text \<open>The parsed query is ordered by parameter, so the id can only come first.\<close>

fun id_first :: "query_data \<Rightarrow> bool" where
  "id_first [] = True"
| "id_first ((p, v) # m) = (RP_Id \<notin> fst ` set m)"

lemma param_less_Id: "\<not> param_less p RP_Id"
  by (simp add: param_less_def)

lemma put_id_first: "id_first m \<Longrightarrow> id_first (omap_put param_less p v m)"
proof (cases m)
  case (Cons x m')
  obtain k' v' where x: "x = (k', v')" by (cases x)
  assume i: "id_first m"
  have "p \<noteq> RP_Id \<Longrightarrow> RP_Id \<notin> fst ` set (omap_put param_less p v m')"
    using omap_put_fst [of param_less p v m'] i by (auto simp: Cons x)
  with i param_less_Id [of k'] param_less_Id [of p] show ?thesis by (auto simp: Cons x)
qed simp

lemma parse_id_first: "parse_query_items items m = Inr q \<Longrightarrow> id_first m \<Longrightarrow> id_first q"
  by (induction items m rule: parse_query_items.induct) (auto simp: rbind_Inr_iff put_id_first split: option.splits)

lemma get_Id: "id_first q \<Longrightarrow> omap_get param_less RP_Id q = (case q of (RP_Id, v) # _ \<Rightarrow> Some v | _ \<Rightarrow> None)"
proof -
  have n: "RP_Id \<notin> fst ` set m \<Longrightarrow> omap_get param_less RP_Id m = None" for m :: query_data
  proof (induction m)
    case (Cons x m)
    then show ?case by (cases x; cases "fst x") (auto simp: param_less_def)
  qed simp
  assume "id_first q"
  then show ?thesis
  proof (cases q)
    case (Cons x m)
    then show ?thesis using n [of m] \<open>id_first q\<close> by (cases x; cases "fst x") (auto simp: param_less_def)
  qed simp
qed

lemma set_id_fails: "SetDownloadProperty i DP_Id v m = (Inl (hr_exn (LogFailure (if map_of (mg_downloads m) i = None then E_NOT_SET else DO_E_READ_ONLY_PROPERTY))),
   case map_of (mg_downloads m) i of None \<Rightarrow> m | Some d \<Rightarrow> mg_store i \<lparr>cx_dl = d, cx_w = mg_world m\<rparr> m)"
proof (cases "map_of (mg_downloads m) i")
  case None
  then show ?thesis by (simp add: SetDownloadProperty_def sbind_run get_run)
next
  case (Some d)
  let ?c = "\<lparr>cx_dl = d, cx_w = mg_world m\<rparr>"
  have "SetProperty DP_Id v ?c = (Inl (hr_exn DO_E_READ_ONLY_PROPERTY), ?c)"
    by (simp add: SetProperty_def with_dl_def with_w_def throw_hr_def)
  from sched_block_error [of "SetProperty DP_Id v", OF this]
  show ?thesis by (simp add: SetDownloadProperty_def sbind_run get_run Some on_download_def)
qed

lemma set_unknown_fails: "map_of (mg_downloads m) i = None \<Longrightarrow> SetDownloadProperty i key v m = (Inl (hr_exn E_NOT_SET), m)"
  by (simp add: SetDownloadProperty_def sbind_run get_run)

lemma store_same:
  assumes "map_of (mg_downloads m) i = Some d"
  shows "map_of (mg_downloads (mg_store i \<lparr>cx_dl = d, cx_w = w\<rparr> m)) = map_of (mg_downloads m)"
proof
  fix j
  show "map_of (mg_downloads (mg_store i \<lparr>cx_dl = d, cx_w = w\<rparr> m)) j = map_of (mg_downloads m) j"
    using assms stored [OF assms, of "\<lparr>cx_dl = d, cx_w = w\<rparr>"] store_other [of j i] by (cases "j = i") auto
qed

text \<open>
  C38. The REST method that sets properties sets none: it takes the id of the download for a
  property to set as well, and sets it first, which is refused. It succeeds only for a query
  without any parameter.
\<close>

theorem setproperty_sets_nothing:
  assumes "map_of (mg_downloads m) [] = None"
  shows "map_of (mg_downloads (snd (Process newId key RM_SetProperty packet m))) = map_of (mg_downloads m) \<and>
    (SUCCEEDED (fst (fst (Process newId key RM_SetProperty packet m))) \<longrightarrow> QueryParams packet = Inr [])"
proof (cases "QueryParams packet")
  case (Inl e)
  then show ?thesis
    by (simp add: Process_def ParseAndProcess_def process_set_property_def GetDownloadId_def GetStringParam_def QueryStringParam_def
        sbind_run FAILED_iff_not_SUCCEEDED [symmetric] FAILED_caught [unfolded FAILED_iff_not_SUCCEEDED])
next
  case (Inr q)
  have i: "id_first q" using Inr parse_id_first [of _ "[]" q] by (simp add: QueryParams_def)
  let ?id = "case omap_get param_less RP_Id q of Some s \<Rightarrow> s | None \<Rightarrow> []"
  have id: "GetDownloadId packet = Inr ?id"
    by (simp add: GetDownloadId_def GetStringParam_def QueryStringParam_def Inr)
  have run: "Process newId key RM_SetProperty packet m = (case properties_to_set q of
       None \<Rightarrow> ((DO_E_UNKNOWN_PROPERTY_ID, []), m)
     | Some ps \<Rightarrow> (case set_properties ?id ps m of (Inl e, m') \<Rightarrow> ((caught e, []), m') | (Inr _, m') \<Rightarrow> ((S_OK, []), m')))"
    by (simp add: Process_def ParseAndProcess_def process_set_property_def id Inr sbind_run sthen_run
        split: option.splits prod.splits sum.splits)
  have f: "\<not> SUCCEEDED DO_E_UNKNOWN_PROPERTY_ID" "\<not> SUCCEEDED (caught e)" for e
    using hr_failed FAILED_caught unfolding FAILED_iff_not_SUCCEEDED by blast+
  show ?thesis
  proof (cases q)
    case Nil
    with run Inr show ?thesis by simp
  next
    case (Cons x q')
    obtain p v where x: "x = (p, v)" by (cases x)
    show ?thesis
    proof (cases "properties_to_set q")
      case None
      with run f show ?thesis by simp
    next
      case (Some ps)
      then obtain ps' where ps: "ps = (downloadPropertyId (Lookup p), v) # ps'"
        by (auto simp: Cons x split: if_splits)
      have "\<exists>e m'. set_properties ?id ps m = (Inl e, m') \<and> map_of (mg_downloads m') = map_of (mg_downloads m)"
      proof (cases "p = RP_Id")
        case True
        then have "?id = v" using i get_Id [OF i] by (simp add: Cons x)
        then show ?thesis
          using True store_same [of m v] by (auto simp: ps Lookup_def knownParams_def sthen_run set_id_fails split: option.splits)
      next
        case False
        then have "?id = []" using get_Id [OF i] by (cases p) (simp_all add: Cons x)
        then show ?thesis using assms by (simp add: ps sthen_run set_unknown_fails)
      qed
      with run f Some show ?thesis by auto
    qed
  qed
qed

definition set_timeout_packet :: http_packet where
  "set_timeout_packet = packet_init\<lparr>pk_method := ''POST'', pk_url := \<lparr>m_uri = [], m_components =
     uri_components_init\<lparr>m_path := ''/download/setproperty'', m_query := ''Id=x&NoProgressTimeoutSeconds=60''\<rparr>\<rparr>\<rparr>"

theorem setproperty_sets_nothing_witness:
  "map_of (mg_downloads (snd (Process sample_guid 1 RM_SetProperty set_timeout_packet ((mg_new sample_world)\<lparr>mg_downloads := [(''x'', sample_download)]\<rparr>)))) ''x''
   = Some sample_download"
  using setproperty_sets_nothing [of "(mg_new sample_world)\<lparr>mg_downloads := [(''x'', sample_download)]\<rparr>"] by simp

end
