(* ===== verification/Sdk.thy ===== *)
theory Sdk
  imports Listener
begin

text \<open>
  sdk-cpp: the client library. Its error codes and status, the discovery of the agent's port, the
  HTTP client and its messages (src/internal/rest/util), the downloads over REST
  (src/internal/rest/download_impl.cpp) and the public class (src/do_download.cpp). Sockets, clocks
  and the file system answer with values of the environment; the JSON reader of Boost and its
  conversions are parameters.
\<close>

section \<open>Errors\<close>

text \<open>An error code is a value and its category; it is an error when the value is not zero.\<close>

datatype error_code = EcDo hresult | EcGeneric nat

definition DO_OK :: error_code where "DO_OK = EcDo 0"

fun ec_set :: "error_code \<Rightarrow> bool" where
  "ec_set (EcDo v) = (v \<noteq> 0)"
| "ec_set (EcGeneric n) = (n \<noteq> 0)"

fun ec_is :: "hresult \<Rightarrow> error_code \<Rightarrow> bool" where
  "ec_is hr (EcDo v) = (v = hr)"
| "ec_is hr (EcGeneric n) = (int n = sint hr)"

definition errc_not_impl :: error_code where "errc_not_impl = EcDo 0x80004001"
definition errc_unexpected :: error_code where "errc_unexpected = EcDo 0x8000FFFF"
definition errc_invalid_arg :: error_code where "errc_invalid_arg = EcDo 0x80070057"
definition errc_no_service :: error_code where "errc_no_service = EcDo 0x80D01001"
definition errc_unknown_property_id :: error_code where "errc_unknown_property_id = EcDo 0x80D02011"
definition std_operation_canceled :: error_code where "std_operation_canceled = EcGeneric 125"
definition std_timed_out :: error_code where "std_timed_out = EcGeneric 110"

lemmas errc_defs = errc_not_impl_def errc_unexpected_def errc_invalid_arg_def errc_no_service_def
  errc_unknown_property_id_def std_operation_canceled_def std_timed_out_def DO_OK_def

text \<open>
  The exception of the library carries an error code; any other exception is not caught by the
  \<open>noexcept\<close> functions and terminates the process. \<open>None\<close> is a call that still waits for bytes.
\<close>

datatype sdk_exn = SxDo error_code | SxOther

type_synonym 'a sdk = "(sdk_exn + 'a) option"

datatype 'a call = Returned 'a | Terminated | Blocked

section \<open>Status\<close>

datatype download_state = St_created | St_transferring | St_transferred | St_finalized | St_aborted | St_paused

record sdk_status =
  ss_bytesTotal :: u64
  ss_bytesTransferred :: u64
  ss_errorCode :: hresult
  ss_extendedErrorCode :: hresult
  ss_state :: download_state

definition sdk_status_init :: sdk_status where
  "sdk_status_init = \<lparr>ss_bytesTotal = 0, ss_bytesTransferred = 0, ss_errorCode = 0, ss_extendedErrorCode = 0, ss_state = St_created\<rparr>"

definition is_error :: "sdk_status \<Rightarrow> bool" where "is_error s \<longleftrightarrow> ss_errorCode s \<noteq> 0"

definition is_transient_error :: "sdk_status \<Rightarrow> bool" where
  "is_transient_error s \<longleftrightarrow> ss_state s = St_paused \<and> ss_errorCode s = 0 \<and> ss_extendedErrorCode s \<noteq> 0"

definition is_complete_status :: "sdk_status \<Rightarrow> bool" where "is_complete_status s \<longleftrightarrow> ss_state s = St_transferred"

definition status_error_code :: "sdk_status \<Rightarrow> error_code" where "status_error_code s = EcDo (ss_errorCode s)"

definition status_extended_error_code :: "sdk_status \<Rightarrow> error_code" where
  "status_extended_error_code s = EcDo (ss_extendedErrorCode s)"

section \<open>Finding the port\<close>

definition getline :: "string \<Rightarrow> string" where "getline s = takeWhile (\<lambda>c. c \<noteq> LF) s"

text \<open>The most recent port file; \<open>time_min\<close> is the smallest file time.\<close>

fun most_recent :: "dir_entry list \<Rightarrow> int \<times> dir_entry option \<Rightarrow> int \<times> dir_entry option" where
  "most_recent [] acc = acc"
| "most_recent (e # es) (t, f) =
     (if has_substring ''restport'' (de_name e) \<and> de_time e > t then most_recent es (de_time e, Some e) else most_recent es (t, f))"

definition DiscoverDOPort :: "int \<Rightarrow> dir_entry list option \<Rightarrow> string" where
  "DiscoverDOPort time_min runtimeDirectory =
     (case runtimeDirectory of
        None \<Rightarrow> []
      | Some dir \<Rightarrow> (case snd (most_recent dir (time_min, None)) of None \<Rightarrow> [] | Some e \<Rightarrow> getline (de_data e)))"

definition g_maxNumPortFileReadAttempts :: nat where "g_maxNumPortFileReadAttempts = 3"

text \<open>\<open>polls\<close> are the directories seen by the attempts, four for each of the three rounds.\<close>

fun GetDOPort_loop :: "nat \<Rightarrow> int \<Rightarrow> dir_entry list option list \<Rightarrow> string sdk" where
  "GetDOPort_loop 0 time_min polls = Some (Inl (SxDo errc_no_service))"
| "GetDOPort_loop (Suc n) time_min [] = None"
| "GetDOPort_loop (Suc n) time_min (d # ds) =
     (let port = DiscoverDOPort time_min d in if port \<noteq> [] then Some (Inr port) else GetDOPort_loop n time_min ds)"

definition GetDOPort :: "int \<Rightarrow> dir_entry list option list \<Rightarrow> string sdk" where
  "GetDOPort time_min polls = GetDOPort_loop (g_maxNumPortFileReadAttempts * 4) time_min polls"

text \<open>\<open>std::strtoul\<close>: no digits give 0, a value past the largest gives the largest.\<close>

definition strtoul :: "string \<Rightarrow> u64" where
  "strtoul s = (case stoul s of Inr v \<Rightarrow> v | Inl e \<Rightarrow> if e = StdExn ''out_of_range'' then - 1 else 0)"

text \<open>Connecting to the port found; \<open>connects\<close> is whether the port accepts.\<close>

definition InitializeDOConnection :: "int \<Rightarrow> dir_entry list option list \<Rightarrow> (u64 \<Rightarrow> bool) \<Rightarrow> u64 sdk" where
  "InitializeDOConnection time_min polls connects =
     (case GetDOPort time_min polls of
        None \<Rightarrow> None
      | Some (Inl e) \<Rightarrow> Some (Inl e)
      | Some (Inr port) \<Rightarrow>
          (let p = strtoul port
           in if 65535 < p then Some (Inl SxOther)
              else if connects p then Some (Inr p) else Some (Inl (SxDo errc_no_service))))"

section \<open>Messages\<close>

datatype http_method = GET | POST

definition request_text :: "http_method \<Rightarrow> string \<Rightarrow> string" where
  "request_text method url =
     (if method = GET then ''GET'' else ''POST'') @ '' '' @ c_str url @ '' '' @ ''HTTP/1.1'' @ crlf @
     ''Host: 127.0.0.1'' @ crlf @ ''User-Agent: DO-SDK-CPP'' @ crlf @ crlf"

text \<open>What reading from the socket gives: an error of the system or bytes.\<close>

datatype io_read = IoError hresult | IoData string

fun Deserialize :: "int \<Rightarrow> io_read list \<Rightarrow> http_parser \<Rightarrow> ((hresult + exn) + http_parser) option" where
  "Deserialize junk [] p = None"
| "Deserialize junk (IoError code # rs) p = Some (Inl (Inl code))"
| "Deserialize junk (IoData d # rs) p =
     (case OnData junk d p of
        (Inl e, _) \<Rightarrow> Some (Inl (Inr e))
      | (Inr _, p') \<Rightarrow> if hp_done p' then Some (Inr p') else Deserialize junk rs p')"

text \<open>Boost's property tree: the reader of a JSON text and the conversions of values.\<close>

record json_lib =
  jl_read :: "string \<Rightarrow> response_body option"
  jl_int32 :: "string \<Rightarrow> hresult option"
  jl_uint64 :: "string \<Rightarrow> u64 option"

definition ExtractJsonBody :: "json_lib \<Rightarrow> http_parser \<Rightarrow> response_body" where
  "ExtractJsonBody lib p =
     (if pk_body (hp_packet p) = [] then []
      else case jl_read lib (pk_body (hp_packet p)) of Some t \<Rightarrow> t | None \<Rightarrow> [])"

section \<open>The HTTP client\<close>

text \<open>One exchange: whether writing the request fails, and what the reads give.\<close>

record io_attempt =
  at_write :: "hresult option"
  at_reads :: "io_read list"

definition GetResponse :: "json_lib \<Rightarrow> int \<Rightarrow> io_attempt \<Rightarrow> ((hresult + exn) + u32 \<times> response_body) option" where
  "GetResponse lib junk a =
     (case at_write a of
        Some code \<Rightarrow> Some (Inl (Inl code))
      | None \<Rightarrow>
          (case Deserialize junk (at_reads a) hp_init of
             None \<Rightarrow> None
           | Some (Inl e) \<Rightarrow> Some (Inl e)
           | Some (Inr p) \<Rightarrow> Some (Inr (pk_statusCode (hp_packet p), ExtractJsonBody lib p))))"

definition check_response :: "json_lib \<Rightarrow> u32 \<times> response_body \<Rightarrow> response_body sdk" where
  "check_response lib r =
     (let (responseStatusCode, responseBodyJson) = r
      in if responseStatusCode \<noteq> 200
         then Some (Inl (SxDo (EcDo (case Option.bind (map_of responseBodyJson ''ErrorCode'') (jl_int32 lib) of
                Some v \<Rightarrow> v | None \<Rightarrow> - 1))))
         else Some (Inr responseBodyJson))"

text \<open>
  The environment of one request: the first connection when the process has none yet, how the peer
  answers the text sent, the new connection, and how the peer answers the second time.
\<close>

record call_env =
  ce_instance :: "(dir_entry list option list \<times> (u64 \<Rightarrow> bool)) option"
  ce_first :: "string \<Rightarrow> io_attempt"
  ce_polls :: "dir_entry list option list"
  ce_connects :: "u64 \<Rightarrow> bool"
  ce_second :: "string \<Rightarrow> io_attempt"

definition SendRequest_once :: "json_lib \<Rightarrow> int \<Rightarrow> io_attempt \<Rightarrow> (hresult \<Rightarrow> response_body sdk) \<Rightarrow> response_body sdk" where
  "SendRequest_once lib junk a on_system_error =
     (case GetResponse lib junk a of
        None \<Rightarrow> None
      | Some (Inl (Inl code)) \<Rightarrow> on_system_error code
      | Some (Inl (Inr _)) \<Rightarrow> Some (Inl SxOther)
      | Some (Inr r) \<Rightarrow> check_response lib r)"

text \<open>The client is made, and connected, by the first request of the process.\<close>

definition GetInstance :: "int \<Rightarrow> call_env \<Rightarrow> u64 sdk" where
  "GetInstance time_min env =
     (case ce_instance env of None \<Rightarrow> Some (Inr 0) | Some (polls, connects) \<Rightarrow> InitializeDOConnection time_min polls connects)"

definition sdk_bind :: "'a sdk \<Rightarrow> ('a \<Rightarrow> 'b sdk) \<Rightarrow> 'b sdk" where
  "sdk_bind m f = (case m of None \<Rightarrow> None | Some (Inl e) \<Rightarrow> Some (Inl e) | Some (Inr x) \<Rightarrow> f x)"

definition sdk_SendRequest :: "json_lib \<Rightarrow> int \<Rightarrow> int \<Rightarrow> call_env \<Rightarrow> http_method \<Rightarrow> string \<Rightarrow> response_body sdk" where
  "sdk_SendRequest lib junk time_min env method url =
     SendRequest_once lib junk (ce_first env (request_text method url)) (\<lambda>_.
       sdk_bind (InitializeDOConnection time_min (ce_polls env) (ce_connects env)) (\<lambda>_.
         SendRequest_once lib junk (ce_second env (request_text method url)) (\<lambda>code. Some (Inl (SxDo (EcDo code))))))"

definition sdk_request :: "json_lib \<Rightarrow> int \<Rightarrow> int \<Rightarrow> call_env \<Rightarrow> http_method \<Rightarrow> string \<Rightarrow> response_body sdk" where
  "sdk_request lib junk time_min env method url =
     sdk_bind (GetInstance time_min env) (\<lambda>_. sdk_SendRequest lib junk time_min env method url)"

section \<open>Downloads over REST\<close>

text \<open>The URLs of the requests.\<close>

definition sdk_builder :: "int \<Rightarrow> string \<Rightarrow> uri_components res" where
  "sdk_builder junk op =
     rbind (uri_of_string junk ''download'') (\<lambda>u. Inr (append_path op False (m_components u)))"

definition create_url :: "int \<Rightarrow> string \<Rightarrow> string \<Rightarrow> string res" where
  "create_url junk uri downloadFilePath =
     rbind (sdk_builder junk ''create'') (\<lambda>b.
       let b1 = append_query_param ''Uri'' uri True b;
           b2 = (if downloadFilePath \<noteq> [] then append_query_param ''DownloadFilePath'' downloadFilePath True b1 else b1)
       in builder_to_string b2)"

definition operation_url :: "int \<Rightarrow> string \<Rightarrow> string \<Rightarrow> string res" where
  "operation_url junk type downloadId =
     rbind (sdk_builder junk type) (\<lambda>b. builder_to_string (append_query_param ''Id'' downloadId True b))"

definition g_maxNumRetryAttempts :: nat where "g_maxNumRetryAttempts = 3"

text \<open>Creating: only \<open>no_service\<close> is tried again. The reply must name the new id.\<close>

fun Init_loop :: "nat \<Rightarrow> (call_env \<Rightarrow> response_body sdk) \<Rightarrow> call_env list \<Rightarrow> (error_code \<times> string) call" where
  "Init_loop 0 send envs = Returned (errc_no_service, [])"
| "Init_loop (Suc n) send [] = Blocked"
| "Init_loop (Suc n) send (env # envs) =
     (case send env of
        None \<Rightarrow> Blocked
      | Some (Inr tree) \<Rightarrow> (case map_of tree ''Id'' of Some i \<Rightarrow> Returned (DO_OK, i) | None \<Rightarrow> Terminated)
      | Some (Inl (SxDo ec)) \<Rightarrow> if \<not> ec_is 0x80D01001 ec then Returned (ec, []) else Init_loop n send envs
      | Some (Inl SxOther) \<Rightarrow> Terminated)"

text \<open>An exception of the URL builder is not the library's own.\<close>

definition CDownloadImpl_Init :: "json_lib \<Rightarrow> int \<Rightarrow> int \<Rightarrow> string \<Rightarrow> string \<Rightarrow> call_env list \<Rightarrow> (error_code \<times> string) call" where
  "CDownloadImpl_Init lib junk time_min uri downloadFilePath envs =
     (case create_url junk uri downloadFilePath of
        Inl _ \<Rightarrow> Terminated
      | Inr url \<Rightarrow> Init_loop g_maxNumRetryAttempts (\<lambda>env. sdk_request lib junk time_min env POST url) envs)"

definition DownloadOperationCall :: "json_lib \<Rightarrow> int \<Rightarrow> int \<Rightarrow> string \<Rightarrow> call_env \<Rightarrow> string \<Rightarrow> error_code call" where
  "DownloadOperationCall lib junk time_min downloadId env type =
     (case operation_url junk type downloadId of
        Inl _ \<Rightarrow> Terminated
      | Inr url \<Rightarrow>
          (case sdk_request lib junk time_min env POST url of
             None \<Rightarrow> Blocked
           | Some (Inr _) \<Rightarrow> Returned DO_OK
           | Some (Inl (SxDo ec)) \<Rightarrow> Returned ec
           | Some (Inl SxOther) \<Rightarrow> Terminated))"

definition sdk_Start :: "json_lib \<Rightarrow> int \<Rightarrow> int \<Rightarrow> string \<Rightarrow> call_env \<Rightarrow> error_code call" where
  "sdk_Start lib junk time_min downloadId env = DownloadOperationCall lib junk time_min downloadId env ''start''"
definition sdk_Pause :: "json_lib \<Rightarrow> int \<Rightarrow> int \<Rightarrow> string \<Rightarrow> call_env \<Rightarrow> error_code call" where
  "sdk_Pause lib junk time_min downloadId env = DownloadOperationCall lib junk time_min downloadId env ''pause''"
definition sdk_Resume :: "json_lib \<Rightarrow> int \<Rightarrow> int \<Rightarrow> string \<Rightarrow> call_env \<Rightarrow> error_code call" where
  "sdk_Resume lib junk time_min downloadId env = DownloadOperationCall lib junk time_min downloadId env ''start''"
definition sdk_Finalize :: "json_lib \<Rightarrow> int \<Rightarrow> int \<Rightarrow> string \<Rightarrow> call_env \<Rightarrow> error_code call" where
  "sdk_Finalize lib junk time_min downloadId env = DownloadOperationCall lib junk time_min downloadId env ''finalize''"
definition sdk_Abort :: "json_lib \<Rightarrow> int \<Rightarrow> int \<Rightarrow> string \<Rightarrow> call_env \<Rightarrow> error_code call" where
  "sdk_Abort lib junk time_min downloadId env = DownloadOperationCall lib junk time_min downloadId env ''abort''"

text \<open>
  Properties and their values, callbacks, ranges, certificates and enumeration are not implemented
  over REST: the operation is the name of the unsupported member function.
\<close>

datatype unsupported = UnGetProperty | UnSetProperty | UnSetStatusCallback | UnSetStreamCallback | UnSetRanges
  | UnSetClientCert | UnEnumDownloads | UnInitValue | UnAsValue

definition not_implemented :: "unsupported \<Rightarrow> error_code" where
  "not_implemented f = errc_not_impl"

definition stateMap :: "(string \<times> download_state) list" where
  "stateMap = [(''Created'', St_created), (''Transferring'', St_transferring), (''Transferred'', St_transferred),
     (''Finalized'', St_finalized), (''Aborted'', St_aborted), (''Paused'', St_paused)]"

text \<open>A value that is missing or does not convert throws an exception of Boost.\<close>

definition tree_get :: "response_body \<Rightarrow> string \<Rightarrow> (string \<Rightarrow> 'a option) \<Rightarrow> 'a sdk" where
  "tree_get t key conv = Some (case Option.bind (map_of t key) conv of Some v \<Rightarrow> Inr v | None \<Rightarrow> Inl SxOther)"

definition read_status :: "json_lib \<Rightarrow> response_body \<Rightarrow> sdk_status sdk" where
  "read_status lib t =
     sdk_bind (tree_get t ''BytesTotal'' (jl_uint64 lib)) (\<lambda>bytesTotal.
     sdk_bind (tree_get t ''BytesTransferred'' (jl_uint64 lib)) (\<lambda>bytesTransferred.
     sdk_bind (tree_get t ''ErrorCode'' (jl_int32 lib)) (\<lambda>errorCode.
     sdk_bind (tree_get t ''ExtendedErrorCode'' (jl_int32 lib)) (\<lambda>extendedErrorCode.
     sdk_bind (tree_get t ''Status'' Some) (\<lambda>status.
       case map_of stateMap status of
         None \<Rightarrow> Some (Inl (SxDo errc_unexpected))
       | Some s \<Rightarrow> Some (Inr \<lparr>ss_bytesTotal = bytesTotal, ss_bytesTransferred = bytesTransferred, ss_errorCode = errorCode,
           ss_extendedErrorCode = extendedErrorCode, ss_state = s\<rparr>))))))"

definition sdk_GetStatus :: "json_lib \<Rightarrow> int \<Rightarrow> int \<Rightarrow> string \<Rightarrow> call_env \<Rightarrow> (error_code \<times> sdk_status option) call" where
  "sdk_GetStatus lib junk time_min downloadId env =
     (case operation_url junk ''getstatus'' downloadId of
        Inl _ \<Rightarrow> Terminated
      | Inr url \<Rightarrow>
          (case sdk_bind (sdk_request lib junk time_min env GET url) (read_status lib) of
             None \<Rightarrow> Blocked
           | Some (Inr s) \<Rightarrow> Returned (DO_OK, Some s)
           | Some (Inl (SxDo ec)) \<Rightarrow> Returned (ec, None)
           | Some (Inl SxOther) \<Rightarrow> Terminated))"

section \<open>The public class\<close>

definition set_ranges :: "bool \<Rightarrow> nat \<Rightarrow> error_code" where
  "set_ranges ranges_null n = (if ranges_null \<or> n = 0 then errc_invalid_arg else not_implemented UnSetRanges)"

definition set_client_cert :: "bool \<Rightarrow> nat \<Rightarrow> error_code" where
  "set_client_cert data_null size_bytes = (if data_null \<or> size_bytes = 0 then errc_invalid_arg else not_implemented UnSetClientCert)"

datatype download_property =
    Pr_id | Pr_uri | Pr_catalog_id | Pr_caller_name | Pr_download_file_path | Pr_http_custom_headers
  | Pr_cost_policy | Pr_security_flags | Pr_callback_freq_percent | Pr_callback_freq_seconds
  | Pr_no_progress_timeout_seconds | Pr_use_foreground_priority | Pr_blocking_mode | Pr_network_token
  | Pr_correlation_vector | Pr_decryption_info | Pr_integrity_check_info | Pr_integrity_check_mandatory
  | Pr_total_size_bytes | Pr_disallow_on_cellular | Pr_http_custom_auth_headers
  | Pr_allow_http_to_https_redirect | Pr_non_volatile

definition TryOverrideDownlevelOsSetPropertyError :: "download_property \<Rightarrow> error_code \<Rightarrow> error_code" where
  "TryOverrideDownlevelOsSetPropertyError prop ec =
     (if ec_is 0x80D02011 ec \<and> (prop = Pr_correlation_vector \<or> prop = Pr_integrity_check_info) then DO_OK else ec)"

definition sdk_set_property :: "download_property \<Rightarrow> error_code" where
  "sdk_set_property prop = TryOverrideDownlevelOsSetPropertyError prop (not_implemented UnSetProperty)"

text \<open>The value made, or the error that leaves the caller's value as it was.\<close>

definition property_value_make :: "error_code \<Rightarrow> 'v \<Rightarrow> 'v \<Rightarrow> error_code \<times> 'v" where
  "property_value_make initialised temp out = (if ec_set initialised then (initialised, out) else (DO_OK, temp))"

text \<open>The downloads found replace those of the caller, whose list is cleared first.\<close>

definition get_downloads :: "error_code \<times> 'd list \<Rightarrow> error_code \<times> 'd list" where
  "get_downloads enumerated = (if ec_set (fst enumerated) then (fst enumerated, []) else (DO_OK, snd enumerated))"

definition download_make :: "(error_code \<times> string) call \<Rightarrow> (error_code \<times> string option) call" where
  "download_make made =
     (case made of
        Returned (ec, i) \<Rightarrow> Returned (if ec_set ec then (ec, None) else (DO_OK, Some i))
      | Terminated \<Rightarrow> Terminated
      | Blocked \<Rightarrow> Blocked)"

text \<open>
  Waiting for completion. One turn of the loop: whether cancellation was seen, what the status
  call gave after the sleep, and the clock read after it, in milliseconds.
\<close>

record poll_env =
  pe_cancelled :: bool
  pe_status :: "error_code \<times> sdk_status"
  pe_now :: int

definition still_active :: "sdk_status \<Rightarrow> bool" where
  "still_active s \<longleftrightarrow> ss_state s = St_created \<or> ss_state s = St_transferring \<or> is_transient_error s"

definition next_poll_time :: "int \<Rightarrow> int" where
  "next_poll_time pollTime = (if pollTime < 5000 then pollTime + 500 else pollTime)"

fun wait_loop :: "int \<Rightarrow> sdk_status \<Rightarrow> bool \<Rightarrow> poll_env list \<Rightarrow> (error_code + sdk_status \<times> bool) option" where
  "wait_loop endTime status timedOut [] = None"
| "wait_loop endTime status timedOut (p # ps) =
     (if pe_cancelled p then Some (Inr (status, timedOut))
      else let (ec, status') = pe_status p;
               timedOut' = (endTime \<le> pe_now p)
           in if ec_set ec then Some (Inl ec)
              else if still_active status' \<and> \<not> timedOut' then wait_loop endTime status' timedOut' ps
              else Some (Inr (status', timedOut')))"

record wait_env =
  we_start :: error_code
  we_status :: "error_code \<times> sdk_status"
  we_polls :: "poll_env list"
  we_finalize :: error_code
  we_abort :: error_code
  we_cancelled :: bool

definition start_and_wait_until_completion :: "int \<Rightarrow> wait_env \<Rightarrow> error_code option" where
  "start_and_wait_until_completion endTime env =
     (if ec_set (we_start env) then Some (we_start env)
      else if ec_set (fst (we_status env)) then Some (fst (we_status env))
      else (case wait_loop endTime (snd (we_status env)) False (we_polls env) of
              None \<Rightarrow> None
            | Some (Inl ec) \<Rightarrow> Some ec
            | Some (Inr (status, timedOut)) \<Rightarrow>
                if ss_state status = St_transferred
                then Some (if ec_set (we_finalize env) then we_finalize env else DO_OK)
                else if ec_set (we_abort env) then Some (we_abort env)
                else if we_cancelled env then Some std_operation_canceled
                else if timedOut then Some std_timed_out
                else if ss_state status = St_paused \<and> \<not> is_transient_error status then Some (status_error_code status)
                else Some DO_OK))"

text \<open>The clock moves on by at least the time slept before each status call.\<close>

fun clock_ok :: "int \<Rightarrow> int \<Rightarrow> poll_env list \<Rightarrow> bool" where
  "clock_ok now pollTime [] = True"
| "clock_ok now pollTime (p # ps) = (now + pollTime \<le> pe_now p \<and> clock_ok (pe_now p) (next_poll_time pollTime) ps)"

definition download_url_to_path :: "int \<Rightarrow> error_code \<Rightarrow> wait_env \<Rightarrow> error_code option" where
  "download_url_to_path endTime made env =
     (if ec_set made then Some made else start_and_wait_until_completion endTime env)"

end
