(* ===== verification/SdkRequests.thy ===== *)
theory SdkRequests
  imports Sdk ListenerProps
begin

text \<open>
  The requests of the client library and the agent that reads them: the URLs that are built, the
  text that is written, and the method and parameters the agent finds in it.
\<close>

section \<open>The URLs of the requests\<close>

definition rel_components :: "string \<Rightarrow> string \<Rightarrow> uri_components" where
  "rel_components op q = \<lparr>m_scheme = [], m_host = [], m_user_info = [], m_path = ''download/'' @ op, m_query = q,
     m_fragment = [], m_port = 0\<rparr>"

definition rel_url :: "string \<Rightarrow> string \<Rightarrow> string" where
  "rel_url op q = ''download/'' @ op @ (if q = [] then [] else CHR ''?'' # q)"

lemma isalpha_path: "isalpha c \<Longrightarrow> is_path_character c"
  by (simp add: is_path_character_def is_unreserved_def isalnum_def)

lemma download_path: "list_all is_path_character ''download/''"
  by code_simp

lemma parse_rel_url:
  assumes "list_all isalpha op" "list_all is_query_character q"
  shows "parse_from junk (rel_url op q) = Some \<lparr>po_scheme = None, po_uinfo = None, po_host = None, po_port = 0,
    po_path = Some (''download/'' @ op), po_query = (if q = [] then None else Some q), po_fragment = None\<rparr>"
proof -
  let ?p = "''download/'' @ op"
  have p: "list_all is_path_character ?p"
    unfolding list_all_append using assms(1) isalpha_path download_path by (auto simp: list_all_iff)
  have "\<forall>c \<in> set ?p. c \<noteq> CHR ''?'' \<and> c \<noteq> CHR ''#''"
    using p not_class(10,11) by (auto simp: list_all_iff)
  then have tp: "takeWhile (\<lambda>c. c \<noteq> CHR ''?'' \<and> c \<noteq> CHR ''#'') (?p @ t) = ?p" if "t = [] \<or> hd t = CHR ''?''" for t
    using that by (cases t) (auto simp: takeWhile_append_stop takeWhile_all)
  have "\<forall>c \<in> set q. c \<noteq> CHR ''#''" using assms(2) not_class(13) by (auto simp: list_all_iff)
  then have tq: "takeWhile (\<lambda>c. c \<noteq> CHR ''#'') q = q" by (rule takeWhile_all)
  have nul: "c_str (rel_url op q) = rel_url op q"
    using list_all_no [OF p not_class(12)] list_all_no [OF assms(2) not_class(14)]
    by (intro c_str_id) (auto simp: rel_url_def NUL_def)
  have sc: "parse_scheme (rel_url op q) = Some (None, rel_url op q)"
    by (simp add: parse_scheme_def is_relative_reference_def rel_url_def)
  have au: "parse_authority junk (rel_url op q) = Some (None, None, 0, rel_url op q)"
    by (simp add: parse_authority_def rel_url_def)
  have "rel_url op q = ?p @ (if q = [] then [] else CHR ''?'' # q)" by (simp add: rel_url_def)
  moreover have "is_path_character (CHR ''d'')" by code_simp
  ultimately have pa: "parse_path (rel_url op q) = Some (Some ?p, if q = [] then [] else CHR ''?'' # q)"
    using p tp [of "if q = [] then [] else CHR ''?'' # q"] by (auto simp: parse_path_def Let_def)
  have qu: "parse_query (if q = [] then [] else CHR ''?'' # q) = Some (if q = [] then None else Some q, [])"
    using assms(2) by (simp add: parse_query_def tq)
  have fr: "parse_fragment [] = Some None" by (simp add: parse_fragment_def)
  show ?thesis by (simp only: parse_from_def nul sc au pa qu fr Option.bind.simps prod.case)
qed

lemma rel_components_join: "uri_join (rel_components op q) = (rel_url op q, rel_components op q)"
  by (simp add: uri_join_def join_canon_def join_print_def rel_components_def rel_url_def inplace_tolower_def Let_def)

lemma rel_url_read:
  assumes "list_all isalpha op" "list_all is_query_character q"
  shows "uri_of_string junk (rel_url op q) = Inr \<lparr>m_uri = rel_url op q, m_components = rel_components op q\<rparr>"
proof -
  let ?po = "\<lparr>po_scheme = None, po_uinfo = None, po_host = None, po_port = 0,
    po_path = Some (''download/'' @ op), po_query = (if q = [] then None else Some q), po_fragment = None\<rparr>"
  have "write_to ?po uri_components_init = rel_components op q"
    by (simp add: write_to_def uri_components_init_def or_empty_def inplace_tolower_def rel_components_def)
  then show ?thesis using rel_components_join [of op q] by (simp add: uri_of_string_def parse_rel_url [OF assms])
qed

lemma rel_url_print:
  assumes "list_all isalpha op" "list_all is_query_character q"
  shows "builder_to_string (rel_components op q) = Inr (rel_url op q)"
  using rel_components_join [of op q]
  by (simp add: builder_to_string_def to_uri_def uri_of_components_def validate_def parse_rel_url [OF assms])

lemma sdk_builder_rel:
  assumes "list_all isalpha op" "op \<noteq> []"
  shows "sdk_builder junk op = Inr (rel_components op [])"
proof -
  have "parse_from junk ''download'' = Some \<lparr>po_scheme = None, po_uinfo = None, po_host = None, po_port = 0,
    po_path = Some ''download'', po_query = None, po_fragment = None\<rparr>"
  proof -
    have "list_all is_path_character ''download''" "is_path_character (CHR ''d'')" by code_simp+
    then show ?thesis
      by (simp add: parse_from_def parse_scheme_def is_relative_reference_def parse_authority_def parse_path_def
          parse_query_def parse_fragment_def c_str_def NUL_def)
  qed
  then have "uri_of_string junk ''download'' = Inr \<lparr>m_uri = ''download'', m_components = (rel_components op [])\<lparr>m_path := ''download''\<rparr>\<rparr>"
    by (simp add: uri_of_string_def write_to_def uri_components_init_def or_empty_def inplace_tolower_def uri_join_def
        join_canon_def join_print_def rel_components_def Let_def)
  moreover have "hd op \<noteq> CHR ''/''" "op \<noteq> ''/''"
    using assms by (cases op; auto simp: isalpha_def ctype_defs ord_def)+
  ultimately show ?thesis
    using assms(2) by (simp add: sdk_builder_def append_path_def rel_components_def)
qed

lemma append_pairs_components:
  assumes "m_query c = []"
  shows "append_pairs kvs c = c\<lparr>m_query := query_text kvs\<rparr>"
proof -
  have "\<exists>q. append_pairs kvs c = c\<lparr>m_query := q\<rparr>" for c
  proof (induction kvs arbitrary: c)
    case Nil
    have "append_pairs [] c = c\<lparr>m_query := m_query c\<rparr>" by (simp add: append_pairs_def)
    then show ?case ..
  next
    case (Cons kv kvs)
    obtain k v where kv: "kv = (k, v)" by (cases kv)
    have "append_pairs (kv # kvs) c = append_pairs kvs (append_query_param k v True c)"
      by (simp add: append_pairs_def kv)
    moreover obtain q where "append_query_param k v True c = c\<lparr>m_query := q\<rparr>"
      by (auto simp: append_query_param_def append_query_encode_impl_def append_query_def Let_def)
    moreover obtain q' where "append_pairs kvs (c\<lparr>m_query := q\<rparr>) = c\<lparr>m_query := q, m_query := q'\<rparr>"
      using Cons.IH by blast
    ultimately show ?case by auto
  qed
  then obtain q where "append_pairs kvs c = c\<lparr>m_query := q\<rparr>" by blast
  with append_pairs_text [OF assms, of kvs] show ?thesis by simp
qed

lemma query_text_chars: "list_all is_query_character (query_text kvs)"
proof (induction kvs rule: query_text.induct)
  case (2 kv)
  have "is_query_character (CHR ''='')" by code_simp
  then show ?case using encode_query_impl_legal by (auto simp: query_pair_def list_all_iff)
next
  case (3 kv kv' kvs)
  have "is_query_character (CHR ''='')" "is_query_character (CHR ''&'')" by code_simp+
  then show ?case using 3 encode_query_impl_legal by (auto simp: query_pair_def list_all_iff)
qed simp

lemma pairs_url:
  assumes "list_all isalpha op" "op \<noteq> []"
  shows "rbind (sdk_builder junk op) (\<lambda>b. builder_to_string (append_pairs kvs b)) = Inr (rel_url op (query_text kvs))"
proof -
  have "append_pairs kvs (rel_components op []) = rel_components op (query_text kvs)"
    by (subst append_pairs_components) (simp_all add: rel_components_def)
  then show ?thesis using sdk_builder_rel [OF assms] rel_url_print [OF assms(1) query_text_chars] by simp
qed

definition create_pairs :: "string \<Rightarrow> string \<Rightarrow> (string \<times> string) list" where
  "create_pairs uri path = (''Uri'', uri) # (if path \<noteq> [] then [(''DownloadFilePath'', path)] else [])"

lemma create_url_text: "create_url junk uri path = Inr (rel_url ''create'' (query_text (create_pairs uri path)))"
proof -
  have "list_all isalpha ''create''" by code_simp
  from pairs_url [OF this, of junk "create_pairs uri path"] show ?thesis
    by (simp add: create_url_def create_pairs_def append_pairs_def Let_def split: if_splits)
qed

lemma operation_url_text:
  assumes "list_all isalpha op" "op \<noteq> []"
  shows "operation_url junk op i = Inr (rel_url op (query_text [(''Id'', i)]))"
  using pairs_url [OF assms, of junk "[(''Id'', i)]"] by (simp add: operation_url_def append_pairs_def)

section \<open>The agent reads the requests\<close>

definition sdk_fields :: "string list" where "sdk_fields = [''Host: 127.0.0.1'', ''User-Agent: DO-SDK-CPP'']"

definition verb_text :: "http_method \<Rightarrow> string" where "verb_text v = (if v = GET then ''GET'' else ''POST'')"

lemma query_char_url: "is_query_character c \<Longrightarrow> c \<noteq> CHR '';'' \<Longrightarrow> rx_url_char c"
  by (auto simp: is_query_character_def is_path_character_def is_unreserved_def is_sub_delim_def rx_url_char_def)

lemma query_text_url: "list_all rx_url_char (query_text kvs)"
proof (induction kvs rule: query_text.induct)
  case (2 kv)
  have "rx_url_char (CHR ''='')" by code_simp
  then show ?case using encode_query_impl_legal query_char_url by (auto simp: query_pair_def list_all_iff)
next
  case (3 kv kv' kvs)
  have "rx_url_char (CHR ''='')" "rx_url_char (CHR ''&'')" by code_simp+
  then show ?case using 3 encode_query_impl_legal query_char_url by (auto simp: query_pair_def list_all_iff)
qed simp

lemma rel_url_chars:
  assumes "list_all isalpha op"
  shows "list_all rx_url_char (rel_url op (query_text kvs))"
proof -
  have "list_all rx_url_char ''download/''" "rx_url_char (CHR ''?'')" by code_simp+
  then show ?thesis unfolding rel_url_def list_all_append
    using assms query_text_url [of kvs] by (auto simp: list_all_iff rx_url_char_def isalnum_def)
qed

lemma url_char_plain: "rx_url_char c \<Longrightarrow> c \<noteq> CHR '' '' \<and> c \<noteq> CR \<and> c \<noteq> NUL"
  by (auto simp: rx_url_char_def CR_def NUL_def ctype_defs ord_def)

definition sdk_packet :: "http_method \<Rightarrow> string \<Rightarrow> (string \<times> string) list \<Rightarrow> http_packet" where
  "sdk_packet v op kvs = packet_init\<lparr>pk_method := verb_text v,
     pk_url := \<lparr>m_uri = rel_url op (query_text kvs), m_components = rel_components op (query_text kvs)\<rparr>\<rparr>"

lemma verb_text_chars:
  "CHR '' '' \<notin> set (verb_text v)" "CR \<notin> set (verb_text v)" "NUL \<notin> set (verb_text v)"
  "rx_plus isalpha (verb_text v)" "\<not> rx_plus rx_version_char (verb_text v)"
proof -
  have "list_all (\<lambda>s. CHR '' '' \<notin> set s \<and> CR \<notin> set s \<and> NUL \<notin> set s \<and> rx_plus isalpha s \<and> \<not> rx_plus rx_version_char s)
    [''GET'', ''POST'']" by code_simp
  then show "CHR '' '' \<notin> set (verb_text v)" "CR \<notin> set (verb_text v)" "NUL \<notin> set (verb_text v)"
    "rx_plus isalpha (verb_text v)" "\<not> rx_plus rx_version_char (verb_text v)"
    by (simp_all add: verb_text_def)
qed

lemma sdk_request_read:
  fixes kvs :: "(string \<times> string) list"
  defines "url \<equiv> \<lambda>op. rel_url op (query_text kvs)"
  assumes op: "list_all isalpha op"
  shows "request_text v (url op) = message_text (verb_text v @ '' '' @ url op @ '' HTTP/1.1'') sdk_fields []"
    and "first_line_packet junk (verb_text v @ '' '' @ url op @ '' HTTP/1.1'') = Some (sdk_packet v op kvs)"
    and "CR \<notin> set (verb_text v @ '' '' @ url op @ '' HTTP/1.1'')"
proof -
  let ?u = "url op" and ?l = "verb_text v @ '' '' @ url op @ '' HTTP/1.1''"
  have all: "list_all rx_url_char ?u" unfolding url_def using op by (rule rel_url_chars)
  then have ch: "CHR '' '' \<notin> set ?u" "CR \<notin> set ?u" "NUL \<notin> set ?u"
    using url_char_plain by (auto simp: list_all_iff)
  note vt = verb_text_chars [of v]
  show "CR \<notin> set ?l" using ch vt by (simp add: CR_def)
  have "c_str ?u = ?u" using ch by (intro c_str_id)
  then show "request_text v ?u = message_text ?l sdk_fields []"
    by (simp add: request_text_def message_text_def sdk_fields_def fields_text_def verb_text_def)
  have "c_str ?l = ?l" using ch vt by (intro c_str_id) (simp add: NUL_def)
  moreover have "split_blank ?l = Some (verb_text v, ?u @ '' HTTP/1.1'')"
    using find_char_split [OF vt(1), of "?u @ '' HTTP/1.1''"] by (simp add: split_blank_def)
  moreover have "split_blank (?u @ '' HTTP/1.1'') = Some (?u, ''HTTP/1.1'')"
    using find_char_split [OF ch(1), of "''HTTP/1.1''"] by (simp add: split_blank_def)
  moreover have "rx_plus rx_url_char ?u" using all by (simp add: rx_plus_def url_def rel_url_def)
  moreover have "rx_plus rx_version_char ''HTTP/1.1''" by code_simp
  ultimately have "rxStatusLine (c_str ?l) = None" "rxRequestLine (c_str ?l) = Some (verb_text v, ?u)"
    using vt(4,5) by (auto simp only: rxStatusLine_def rxRequestLine_def Option.bind.simps prod.case if_True if_False simp_thms
        split: Option.bind_splits)
  then show "first_line_packet junk ?l = Some (sdk_packet v op kvs)"
    using rel_url_read [OF op query_text_chars, of junk kvs] by (simp add: first_line_packet_def sdk_packet_def url_def)
qed

lemma sdk_fields_effect: "fields_effect sdk_fields pk = Some pk"
  by (simp add: sdk_fields_def field_effect_def)

lemma sdk_request_posts:
  assumes op: "list_all isalpha op" and chs: "concat chunks = request_text v (rel_url op (query_text kvs))"
    and len: "length (request_text v (rel_url op (query_text kvs))) \<le> hp_capacity" and ne: "\<forall>c \<in> set chunks. c \<noteq> []"
  shows "conn_run junk (map ReadBytes chunks) hp_init = replicate (length chunks - 1) CaReceive @ [CaPost (sdk_packet v op kvs), CaReceive]"
proof -
  let ?q = "parsed (request_text v (rel_url op (query_text kvs))) (sdk_packet v op kvs) []"
  have f: "\<forall>f \<in> set sdk_fields. CR \<notin> set f \<and> f \<noteq> []" by (simp add: sdk_fields_def CR_def)
  have b: "(sdk_packet v op kvs)\<lparr>pk_body := []\<rparr> = sdk_packet v op kvs" "unat (pk_contentLength (sdk_packet v op kvs)) = length ([] :: string)"
    by (simp_all add: sdk_packet_def packet_init_def)
  have "OnData junk (concat chunks) hp_init = (Inr (), ?q)"
    using OnData_message [OF sdk_request_read(3,2) [OF op] f sdk_fields_effect b(2)] len
    unfolding chs sdk_request_read(1) [OF op] by simp
  moreover have "chunks \<noteq> []" using chs by (auto simp: request_text_def)
  ultimately show ?thesis
    using conn_run_message [of chunks hp_init junk ?q] ne b by (simp add: parsed_def hp_ok_def hp_init_def)
qed

lemma decode_plain: "list_all (\<lambda>c. c \<noteq> CHR ''%'' \<and> ord c \<le> 127) s \<Longrightarrow> decode_template s = Inr s"
  by (induction s) auto

definition sdk_operations :: "(string \<times> http_method \<times> RestApiMethods) list" where
  "sdk_operations = [(''start'', POST, RM_Start), (''pause'', POST, RM_Pause), (''finalize'', POST, RM_Finalize),
     (''abort'', POST, RM_Abort), (''getstatus'', GET, RM_GetStatus)]"

lemma sdk_packet_method:
  assumes "(op, v, m) \<in> set ((''create'', POST, RM_Create) # sdk_operations)"
  shows "list_all isalpha op" "op \<noteq> []" "Method (sdk_packet v op kvs) = Inr m"
proof -
  let ?pk = "\<lambda>v op. packet_init\<lparr>pk_method := verb_text v, pk_url := \<lparr>m_uri = [], m_components = rel_components op []\<rparr>\<rparr>"
  have "list_all (\<lambda>(op, v, m). list_all isalpha op \<and> op \<noteq> [] \<and> Method (?pk v op) = Inr m)
    ((''create'', POST, RM_Create) # sdk_operations)" by code_simp
  then have *: "\<forall>(op, v, m) \<in> set ((''create'', POST, RM_Create) # sdk_operations).
      list_all isalpha op \<and> op \<noteq> [] \<and> Method (?pk v op) = Inr m"
    by (simp only: list_all_iff)
  then show "list_all isalpha op" "op \<noteq> []" using assms by blast+
  have "pk_method (sdk_packet v op kvs) = pk_method (?pk v op)"
    "m_path (m_components (pk_url (sdk_packet v op kvs))) = m_path (m_components (pk_url (?pk v op)))"
    by (simp_all add: sdk_packet_def rel_components_def)
  then have "Method (sdk_packet v op kvs) = Method (?pk v op)" by (simp only: Method_def)
  with * assms show "Method (sdk_packet v op kvs) = Inr m" by auto
qed

lemma encode_keys: "encode_query_impl ''Uri'' = ''Uri''" "encode_query_impl ''DownloadFilePath'' = ''DownloadFilePath''"
  "encode_query_impl ''Id'' = ''Id''" by code_simp+

lemma lookup_keys: "Lookup_string ''Uri'' = Some (Lookup RP_Uri)" "Lookup_string ''Id'' = Some (Lookup RP_Id)"
  "Lookup_string ''DownloadFilePath'' = Some (Lookup RP_DownloadFilePath)"
  by code_simp+

lemma lookup_ids: "paramId (Lookup RP_Uri) = RP_Uri" "paramId (Lookup RP_Id) = RP_Id"
  "paramId (Lookup RP_DownloadFilePath) = RP_DownloadFilePath"
  by code_simp+

lemma QueryParams_sdk: "QueryParams (sdk_packet v op kvs) = parse_query_items (split_query (query_text kvs)) []"
  by (simp add: QueryParams_def sdk_packet_def rel_components_def)

lemma str_less_keys: "str_less ''DownloadFilePath'' ''Uri''" "\<not> str_less ''Uri'' ''DownloadFilePath''"
  by code_simp+

lemma create_params:
  "GetUri (sdk_packet v op (create_pairs uri path)) = Inr uri \<and> GetDownloadFilePath (sdk_packet v op (create_pairs uri path)) = Inr path"
  by (auto simp: GetUri_def GetDownloadFilePath_def GetStringParam_def QueryStringParam_def QueryParams_sdk split_query_text
      create_pairs_def encode_keys lookup_keys lookup_ids str_less_keys query_codec.dec_enc param_less_def)

lemma id_param: "GetDownloadId (sdk_packet v op [(''Id'', i)]) = Inr i"
  using split_query_text [of "[(''Id'', i)]"]
  by (simp add: GetDownloadId_def GetStringParam_def QueryStringParam_def QueryParams_sdk
      encode_keys lookup_keys lookup_ids query_codec.dec_enc param_less_def)

text \<open>
  C9. The request the client writes to create a download is the one the agent reads, whatever the
  bytes of the URL and of the path: the URL of the request can always be built, and a request of
  at most 2048 bytes, however it arrives, is posted once, as a create request with that URL and path.
\<close>

theorem create_request_reaches_agent:
  "\<exists>url pk. create_url junk uri path = Inr url \<and>
     Method pk = Inr RM_Create \<and> GetUri pk = Inr uri \<and> GetDownloadFilePath pk = Inr path \<and>
     (length (request_text POST url) \<le> hp_capacity \<longrightarrow>
       (\<forall>chunks. concat chunks = request_text POST url \<and> [] \<notin> set chunks \<longrightarrow>
          conn_run junk' (map ReadBytes chunks) hp_init = replicate (length chunks - 1) CaReceive @ [CaPost pk, CaReceive]))"
proof -
  let ?pk = "sdk_packet POST ''create'' (create_pairs uri path)"
  have m: "(''create'', POST, RM_Create) \<in> set ((''create'', POST, RM_Create) # sdk_operations)" by simp
  show ?thesis
    using create_url_text [of junk uri path] sdk_packet_method [OF m] create_params [of POST "''create''" uri path]
      sdk_request_posts [OF sdk_packet_method(1) [OF m], where v = POST and kvs = "create_pairs uri path"]
    by (intro exI [of _ "rel_url ''create'' (query_text (create_pairs uri path))"] exI [of _ ?pk]) auto
qed

theorem create_request_reaches_agent_witness:
  "\<exists>pk. Method pk = Inr RM_Create \<and> GetUri pk = Inr ''http://a/b?c'' \<and> GetDownloadFilePath pk = Inr ''/f'' \<and>
     conn_run 0 [ReadBytes (request_text POST ''download/create?Uri=http://a/b?c&DownloadFilePath=/f'')] hp_init = [CaPost pk, CaReceive]"
proof -
  let ?url = "''download/create?Uri=http://a/b?c&DownloadFilePath=/f''"
  have "rel_url ''create'' (query_text (create_pairs ''http://a/b?c'' ''/f'')) = ?url" by code_simp
  then have u: "create_url 0 ''http://a/b?c'' ''/f'' = Inr ?url" by (simp only: create_url_text)
  have l: "length (request_text POST ?url) \<le> hp_capacity" "request_text POST ?url \<noteq> []" by code_simp+
  obtain url pk where w: "create_url 0 ''http://a/b?c'' ''/f'' = Inr url" "Method pk = Inr RM_Create" "GetUri pk = Inr ''http://a/b?c''"
    "GetDownloadFilePath pk = Inr ''/f''"
    "length (request_text POST url) \<le> hp_capacity \<longrightarrow> (\<forall>chunks. concat chunks = request_text POST url \<and> [] \<notin> set chunks \<longrightarrow>
       conn_run 0 (map ReadBytes chunks) hp_init = replicate (length chunks - 1) CaReceive @ [CaPost pk, CaReceive])"
    using create_request_reaches_agent [of 0 "''http://a/b?c''" "''/f''" 0] by blast
  have "url = ?url" using u w(1) by simp
  with w(5) l have "conn_run 0 (map ReadBytes [request_text POST ?url]) hp_init = [CaPost pk, CaReceive]"
    by (elim impE allE [of _ "[request_text POST ?url]"]) simp_all
  with w(2-4) show ?thesis by auto
qed

lemma operation_packet:
  assumes "(op, v, m) \<in> set sdk_operations"
  shows "\<exists>url pk. operation_url junk op i = Inr url \<and> Method pk = Inr m \<and> GetDownloadId pk = Inr i \<and>
     (length (request_text v url) \<le> hp_capacity \<longrightarrow>
       (\<forall>chunks. concat chunks = request_text v url \<and> [] \<notin> set chunks \<longrightarrow>
          conn_run junk' (map ReadBytes chunks) hp_init = replicate (length chunks - 1) CaReceive @ [CaPost pk, CaReceive]))"
proof -
  have m: "(op, v, m) \<in> set ((''create'', POST, RM_Create) # sdk_operations)" using assms by simp
  show ?thesis
    using operation_url_text [OF sdk_packet_method(1,2) [OF m], of junk i] sdk_packet_method [OF m] id_param [of v op i]
      sdk_request_posts [OF sdk_packet_method(1) [OF m], where v = v and kvs = "[(''Id'', i)]"]
    by (intro exI [of _ "rel_url op (query_text [(''Id'', i)])"] exI [of _ "sdk_packet v op [(''Id'', i)]"]) auto
qed

lemma operation_packet_once:
  assumes "(op, v, m) \<in> set sdk_operations" "operation_url junk op i = Inr url"
    and "length (request_text v url) \<le> hp_capacity" "request_text v url \<noteq> []"
  shows "\<exists>pk. Method pk = Inr m \<and> GetDownloadId pk = Inr i \<and>
    conn_run junk' [ReadBytes (request_text v url)] hp_init = [CaPost pk, CaReceive]"
proof -
  obtain url' pk where w: "operation_url junk op i = Inr url'" "Method pk = Inr m" "GetDownloadId pk = Inr i"
    "length (request_text v url') \<le> hp_capacity \<longrightarrow> (\<forall>chunks. concat chunks = request_text v url' \<and> [] \<notin> set chunks \<longrightarrow>
      conn_run junk' (map ReadBytes chunks) hp_init = replicate (length chunks - 1) CaReceive @ [CaPost pk, CaReceive])"
    using operation_packet [OF assms(1), of junk i junk'] by blast
  with assms(2-) have "conn_run junk' (map ReadBytes [request_text v url]) hp_init = [CaPost pk, CaReceive]"
    by (elim impE allE [of _ "[request_text v url]"]) simp_all
  with w(2,3) show ?thesis by auto
qed

text \<open>
  C8. Each request on a download carries its id to the agent: starting, pausing, finalizing,
  aborting and asking for the status are read as those methods, with the id the client was given.
\<close>

theorem operation_request_reaches_agent:
  assumes "(op, v, m) \<in> set sdk_operations"
  shows "\<exists>url pk. operation_url junk op i = Inr url \<and> Method pk = Inr m \<and> GetDownloadId pk = Inr i \<and>
     (length (request_text v url) \<le> hp_capacity \<longrightarrow>
       (\<forall>chunks. concat chunks = request_text v url \<and> [] \<notin> set chunks \<longrightarrow>
          conn_run junk' (map ReadBytes chunks) hp_init = replicate (length chunks - 1) CaReceive @ [CaPost pk, CaReceive]))"
  using operation_packet [OF assms] by blast

theorem operation_request_reaches_agent_witness:
  "\<exists>pk. Method pk = Inr RM_GetStatus \<and> GetDownloadId pk = Inr ''x'' \<and>
     conn_run 0 [ReadBytes (request_text GET ''download/getstatus?Id=x'')] hp_init = [CaPost pk, CaReceive]"
proof -
  let ?url = "''download/getstatus?Id=x''"
  have "rel_url ''getstatus'' (query_text [(''Id'', ''x'')]) = ?url" "list_all isalpha ''getstatus''" by code_simp+
  then have u: "operation_url 0 ''getstatus'' ''x'' = Inr ?url" using operation_url_text [of "''getstatus''" 0 "''x''"] by simp
  have l: "length (request_text GET ?url) \<le> hp_capacity" "request_text GET ?url \<noteq> []" by code_simp+
  have "(''getstatus'', GET, RM_GetStatus) \<in> set sdk_operations" by (simp add: sdk_operations_def)
  from operation_request_reaches_agent [OF this, of 0 "''x''" 0] obtain url pk where
    w: "operation_url 0 ''getstatus'' ''x'' = Inr url" "Method pk = Inr RM_GetStatus" "GetDownloadId pk = Inr ''x''"
      "length (request_text GET url) \<le> hp_capacity \<longrightarrow> (\<forall>chunks. concat chunks = request_text GET url \<and> [] \<notin> set chunks \<longrightarrow>
       conn_run 0 (map ReadBytes chunks) hp_init = replicate (length chunks - 1) CaReceive @ [CaPost pk, CaReceive])" by blast
  have "url = ?url" using u w(1) by simp
  with w(4) l have "conn_run 0 (map ReadBytes [request_text GET ?url]) hp_init = [CaPost pk, CaReceive]"
    by (elim impE allE [of _ "[request_text GET ?url]"]) simp_all
  with w(2,3) show ?thesis by auto
qed

end
