(* ===== verification/SdkProps.thy ===== *)
theory SdkProps
  imports SdkRequests
begin

text \<open>
  Properties of the client library and of both ends of the REST interface together: what the agent
  answers is what the client returns, the port written by the agent is the one found, and waiting
  for a download ends.
\<close>

section \<open>Reading a reply\<close>

lemma Deserialize_message:
  assumes "cs \<noteq> []" "hp_ok p" "[] \<notin> set cs" "OnData junk (concat cs) p = (Inr (), q)" "hp_state q = Complete"
    "hp_from q = length (hp_buf q)"
  shows "Deserialize junk (map IoData cs) p = Some (Inr q)"
  using assms
proof (induction cs arbitrary: p rule: list_nonempty_induct)
  case (single c)
  then show ?case by (simp add: hp_done_def)
next
  case (cons c cs)
  then have ne: "concat cs \<noteq> []" by (cases cs) auto
  obtain p' where p': "OnData junk c p = (Inr (), p')" "hp_ok p'" "OnData junk (concat cs) p' = (Inr (), q)"
    using OnData_append [of p junk c "concat cs" q] cons.prems ne by auto
  have "hp_state p' \<noteq> Complete" using OnData_after_Complete [OF _ p'(2,3) ne] cons.prems(5) by blast
  with cons p' show ?case by (simp add: hp_done_def)
qed

text \<open>The peer answers with the pieces of one reply.\<close>

definition answers :: "io_attempt \<Rightarrow> string \<Rightarrow> bool" where
  "answers a reply \<longleftrightarrow> at_write a = None \<and> (\<exists>cs. at_reads a = map IoData cs \<and> concat cs = reply \<and> [] \<notin> set cs)"

definition reply_ok :: "string \<Rightarrow> string \<Rightarrow> bool" where
  "reply_ok version reply \<longleftrightarrow> plain_version version \<and> length reply \<le> hp_capacity"

lemma GetResponse_reply:
  assumes "answers a (Reply version code body)" "reply_ok version (Reply version code body)"
  shows "GetResponse lib junk a = Some (Inr (code, if body = [] then [] else case jl_read lib body of Some t \<Rightarrow> t | None \<Rightarrow> []))"
proof -
  obtain cs where cs: "at_reads a = map IoData cs" "concat cs = Reply version code body" "[] \<notin> set cs" "at_write a = None"
    using assms(1) by (auto simp: answers_def)
  let ?pk = "packet_init\<lparr>pk_statusCode := code, pk_contentLength := of_nat (length body)\<rparr>"
  let ?q = "parsed (Reply version code body) ?pk body"
  have "cs \<noteq> []" using cs(2) by (auto simp: Reply_def)
  moreover have "OnData junk (concat cs) hp_init = (Inr (), ?q)"
    unfolding cs(2) using assms(2) by (intro reply_parsed) (simp_all add: reply_ok_def)
  ultimately have "Deserialize junk (map IoData cs) hp_init = Some (Inr ?q)"
    using cs(3) by (intro Deserialize_message) (simp_all add: parsed_def hp_ok_def hp_init_def)
  with cs(1,4) show ?thesis by (simp add: GetResponse_def parsed_def ExtractJsonBody_def)
qed

text \<open>What the client relies on of the JSON reader: the failure body of the agent and integers are read back.\<close>

definition json_ok :: "json_lib \<Rightarrow> bool" where
  "json_ok lib \<longleftrightarrow> (\<forall>hr. jl_read lib (failure_body hr) = Some [(''ErrorCode'', show_int (sint hr))]) \<and>
     (\<forall>hr. jl_int32 lib (show_int (sint hr)) = Some hr) \<and> (\<forall>n. jl_uint64 lib (show_nat (unat n)) = Some n)"

lemma failed_status: "FAILED hr \<Longrightarrow> HttpStatusFromHRESULT hr \<noteq> 200"
  using hr_succeeded(1,2) by (auto simp: HttpStatusFromHRESULT_def http_status_defs)

lemma failure_body_ne: "failure_body hr \<noteq> []"
  by (simp add: failure_body_def)

text \<open>The answer of the agent to a request, and what the client makes of it.\<close>

lemma SendRequest_answer:
  assumes "json_ok lib" "answers a (Reply version (fst ans) (snd ans))" "reply_ok version (Reply version (fst ans) (snd ans))"
    and ans: "ans = (if SUCCEEDED hr then (http_OK, write_json body) else (HttpStatusFromHRESULT hr, failure_body hr))"
  shows "SendRequest_once lib junk a f =
    (if SUCCEEDED hr then Some (Inr (if write_json body = [] then [] else case jl_read lib (write_json body) of Some t \<Rightarrow> t | None \<Rightarrow> []))
     else Some (Inl (SxDo (EcDo hr))))"
proof (cases "SUCCEEDED hr")
  case True
  then show ?thesis using GetResponse_reply [OF assms(2,3), of lib junk]
    by (simp add: ans SendRequest_once_def check_response_def http_OK_def)
next
  case False
  then have "HttpStatusFromHRESULT hr \<noteq> 200" using failed_status by (simp add: FAILED_iff_not_SUCCEEDED)
  then show ?thesis using False GetResponse_reply [OF assms(2,3), of lib junk] assms(1)
    by (simp add: ans SendRequest_once_def check_response_def failure_body_ne json_ok_def)
qed

lemma callback_answer:
  "fst (HttpListenerCallback write_json lo newId key pk m) =
    (let (hr, body) = fst (handle_request lo newId key pk m)
     in if SUCCEEDED hr then (http_OK, write_json body) else (HttpStatusFromHRESULT hr, failure_body hr))"
  by (simp add: HttpListenerCallback_def split: prod.splits)

text \<open>
  The client asks over an open connection; the request reaches the agent, whose reply to it comes
  back in pieces.
\<close>

definition exchange ::
  "json_lib \<Rightarrow> call_env \<Rightarrow> string \<Rightarrow> http_method \<Rightarrow> string \<Rightarrow> http_packet \<Rightarrow> u32 \<times> string \<Rightarrow> bool" where
  "exchange lib env version v url pk ans \<longleftrightarrow> json_ok lib \<and> ce_instance env = None \<and>
     length (request_text v url) \<le> hp_capacity \<and>
     conn_run 0 [ReadBytes (request_text v url)] hp_init = [CaPost pk, CaReceive] \<and>
     answers (ce_first env (request_text v url)) (Reply version (fst ans) (snd ans)) \<and>
     reply_ok version (Reply version (fst ans) (snd ans))"

lemma sdk_request_exchange:
  assumes "exchange lib env version v url pk (fst (HttpListenerCallback write_json lo newId key pk m))"
  shows "sdk_request lib junk time_min env v url =
    (let (hr, body) = fst (handle_request lo newId key pk m)
     in if SUCCEEDED hr then Some (Inr (if write_json body = [] then [] else case jl_read lib (write_json body) of Some t \<Rightarrow> t | None \<Rightarrow> []))
        else Some (Inl (SxDo (EcDo hr))))"
proof -
  obtain hr body where h: "fst (handle_request lo newId key pk m) = (hr, body)" by fastforce
  have "ce_instance env = None" "json_ok lib" using assms by (simp_all add: exchange_def)
  moreover have "SendRequest_once lib junk (ce_first env (request_text v url)) f =
    (if SUCCEEDED hr then Some (Inr (if write_json body = [] then [] else case jl_read lib (write_json body) of Some t \<Rightarrow> t | None \<Rightarrow> []))
     else Some (Inl (SxDo (EcDo hr))))" for f
    using assms by (intro SendRequest_answer [where version = version and ans = "fst (HttpListenerCallback write_json lo newId key pk m)"])
      (simp_all add: exchange_def callback_answer h)
  ultimately show ?thesis by (simp add: sdk_request_def GetInstance_def sdk_bind_def sdk_SendRequest_def h)
qed


text \<open>A reader of JSON for the two texts a test needs: the body \<open>b\<close> written as \<open>S\<close>, and a failure.\<close>

definition read_int :: "string \<Rightarrow> hresult" where
  "read_int s = (if take 1 s = ''-'' then - of_nat (dec_val (drop 1 s)) else of_nat (dec_val s))"

definition sample_lib :: "response_body \<Rightarrow> json_lib" where
  "sample_lib b = \<lparr>jl_read = (\<lambda>s. Some (if s = ''S'' then b else [(''ErrorCode'', take (length s - 17) (drop 15 s))])),
     jl_int32 = (\<lambda>s. Some (read_int s)), jl_uint64 = (\<lambda>s. Some (of_nat (dec_val s)))\<rparr>"

lemma read_int_show: "read_int (show_int (sint hr)) = hr"
proof -
  have "take 1 (show_nat n) \<noteq> ''-''" for n
  proof
    assume "take 1 (show_nat n) = ''-''"
    then have "CHR ''-'' \<in> set (show_nat n)" by (metis in_set_takeD list.set_intros(1))
    then show False using digits_no [of "CHR ''-''" n] by (simp add: isdigit_def ord_def)
  qed
  moreover have "of_nat (nat (sint hr)) = hr" if "\<not> sint hr < 0" using that by simp
  moreover have "- of_nat (nat (- sint hr)) = hr" if "sint hr < 0" using that by simp
  ultimately show ?thesis by (simp add: read_int_def show_int_def)
qed

lemma sample_lib_ok: "json_ok (sample_lib b)"
  by (simp add: json_ok_def sample_lib_def failure_body_def read_int_show)

lemma sample_reply_ok: "length body \<le> 100 \<Longrightarrow> reply_ok ''1'' (Reply ''1'' code body)"
proof -
  assume b: "length body \<le> 100"
  have "length (HttpStatusToString code) \<le> 18" by (simp add: HttpStatusToString_def)
  moreover have "length (show_nat (unat code)) \<le> 10"
  proof -
    have "unat code < 2 ^ LENGTH(32)" by (rule unsigned_less)
    then have "unat code < 10 ^ 10" by simp
    then show ?thesis using length_show_nat [of _ 10] by simp
  qed
  moreover have "length (show_nat (length body)) \<le> 3" using b by (intro length_show_nat) simp_all
  ultimately show ?thesis using b
    by (simp add: reply_ok_def Reply_def hp_capacity_def plain_version_def crlf_def CR_def)
qed

text \<open>
  C20. An operation of the client returns what the operation of the agent came to: the error code
  is the HRESULT of the agent's request when that fails, and no error otherwise, whatever the
  reply is cut into.
\<close>

theorem client_returns_agents_result:
  assumes "operation_url junk op i = Inr url"
    and "exchange lib env version POST url pk (fst (HttpListenerCallback write_json lo newId key pk m))"
  shows "DownloadOperationCall lib junk time_min i env op =
    Returned (let hr = fst (fst (handle_request lo newId key pk m)) in if SUCCEEDED hr then DO_OK else EcDo hr)"
  using assms(1) sdk_request_exchange [OF assms(2), of junk time_min]
  by (simp add: DownloadOperationCall_def Let_def split: prod.splits)



text \<open>A peer that answers every request with the same reply, in one piece.\<close>

definition sample_call_env :: "string \<Rightarrow> call_env" where
  "sample_call_env reply = \<lparr>ce_instance = None, ce_first = (\<lambda>_. \<lparr>at_write = None, at_reads = [IoData reply]\<rparr>),
     ce_polls = [], ce_connects = (\<lambda>_. False), ce_second = (\<lambda>_. \<lparr>at_write = None, at_reads = []\<rparr>)\<rparr>"

lemma failure_body_short: "length (failure_body hr) \<le> 100"
proof -
  have "nat \<bar>sint hr\<bar> < 10 ^ 10" using sint_lt [of hr] sint_ge [of hr] by (auto simp: nat_less_iff abs_less_iff)
  then have "length (show_nat (nat \<bar>sint hr\<bar>)) \<le> 10" by (intro length_show_nat) simp_all
  then show ?thesis by (auto simp: failure_body_def show_int_def abs_if split: if_splits)
qed

lemma exchange_sample:
  assumes "conn_run 0 [ReadBytes (request_text v url)] hp_init = [CaPost pk, CaReceive]"
    and "length (request_text v url) \<le> hp_capacity" "length (snd ans) \<le> 100"
  shows "exchange (sample_lib b) (sample_call_env (Reply ''1'' (fst ans) (snd ans))) ''1'' v url pk ans"
proof -
  have "Reply ''1'' (fst ans) (snd ans) \<noteq> []" by (simp add: Reply_def)
  then have "answers \<lparr>at_write = None, at_reads = [IoData (Reply ''1'' (fst ans) (snd ans))]\<rparr> (Reply ''1'' (fst ans) (snd ans))"
    by (auto simp: answers_def intro!: exI [of _ "[Reply ''1'' (fst ans) (snd ans)]"])
  with assms show ?thesis by (simp add: exchange_def sample_lib_ok sample_reply_ok sample_call_env_def)
qed

text \<open>The packet of a request is the one the agent's method and parameters are read from.\<close>

lemma exchange_packet:
  assumes "exchange lib env version v url pk ans" "(op, v, m) \<in> set sdk_operations" "operation_url junk op i = Inr url"
  shows "Method pk = Inr m" "GetDownloadId pk = Inr i"
proof -
  obtain url' pk' where w: "operation_url junk op i = Inr url'" "Method pk' = Inr m" "GetDownloadId pk' = Inr i"
    "length (request_text v url') \<le> hp_capacity \<longrightarrow> (\<forall>chunks. concat chunks = request_text v url' \<and> [] \<notin> set chunks \<longrightarrow>
      conn_run 0 (map ReadBytes chunks) hp_init = replicate (length chunks - 1) CaReceive @ [CaPost pk', CaReceive])"
    using operation_packet [OF assms(2), of junk i 0] by blast
  have "request_text v url' \<noteq> []" by (simp add: request_text_def)
  with w(1,4) assms(1,3) have "conn_run 0 (map ReadBytes [request_text v url]) hp_init = [CaPost pk', CaReceive]"
    by (elim impE allE [of _ "[request_text v url]"]) (simp_all add: exchange_def)
  with assms(1) have "pk = pk'" by (simp add: exchange_def)
  with w(2,3) show "Method pk = Inr m" "GetDownloadId pk = Inr i" by simp_all
qed

theorem client_returns_agents_result_witness:
  "\<exists>env. DownloadOperationCall (sample_lib []) 0 0 ''x'' env ''abort'' = Returned (EcDo E_NOT_SET)"
proof -
  let ?url = "''download/abort?Id=x''" and ?m = "mg_new sample_world"
  have "rel_url ''abort'' (query_text [(''Id'', ''x'')]) = ?url" "list_all isalpha ''abort''" by code_simp+
  then have u: "operation_url 0 ''abort'' ''x'' = Inr ?url" using operation_url_text [of "''abort''" 0 "''x''"] by simp
  have op: "(''abort'', POST, RM_Abort) \<in> set sdk_operations" by (simp add: sdk_operations_def)
  have l: "length (request_text POST ?url) \<le> hp_capacity" "request_text POST ?url \<noteq> []" by code_simp+
  obtain pk where pk: "conn_run 0 [ReadBytes (request_text POST ?url)] hp_init = [CaPost pk, CaReceive]"
    "Method pk = Inr RM_Abort" "GetDownloadId pk = Inr ''x''"
    using operation_packet_once [OF op u l] by blast
  let ?ans = "fst (HttpListenerCallback (\<lambda>_. ''S'') True sample_guid 0 pk ?m)"
  have "(case ReportFailure_CaughtExceptionCommon FT_Return (DOResult E_NOT_SET) of Inl x \<Rightarrow> S_OK | Inr hr \<Rightarrow> hr) = E_NOT_SET"
    by code_simp
  then have hr: "fst (fst (handle_request True sample_guid 0 pk ?m)) = E_NOT_SET"
    using pk(2,3) by (simp add: handle_request_def mg_validate_remote_def Process_def ParseAndProcess_def process_state_change_def
      AbortDownload_def GetDownload_def mg_new_def Let_def sbind_def sres_def throw_hr_def sthen_def caught_def hr_exn_def split: prod.splits)
  have "length (snd ?ans) \<le> 100" unfolding callback_answer by (simp add: failure_body_short split: prod.splits)
  from client_returns_agents_result [OF u exchange_sample [OF pk(1) l(1) this]] hr show ?thesis
    by (auto simp: SUCCEEDED_def hr_defs Let_def)
qed

section \<open>The status of a download\<close>

primrec sdk_state :: "DownloadState \<Rightarrow> download_state" where
  "sdk_state DS_Created = St_created"
| "sdk_state DS_Transferring = St_transferring"
| "sdk_state DS_Transferred = St_transferred"
| "sdk_state DS_Finalized = St_finalized"
| "sdk_state DS_Aborted = St_aborted"
| "sdk_state DS_Paused = St_paused"

definition sdk_status_of :: "download_status \<Rightarrow> sdk_status" where
  "sdk_status_of st = \<lparr>ss_bytesTotal = BytesTotal st, ss_bytesTransferred = BytesTransferred st, ss_errorCode = Error st,
     ss_extendedErrorCode = ExtendedError st, ss_state = sdk_state (State st)\<rparr>"

lemma state_names: "map_of stateMap (DownloadStateToString s) = Some (sdk_state s)"
  by (cases s) (simp_all add: stateMap_def)

lemma read_status_body: "json_ok lib \<Longrightarrow> read_status lib (status_body st) = Some (Inr (sdk_status_of st))"
  by (simp add: read_status_def status_body_def tree_get_def sdk_bind_def json_ok_def state_names sdk_status_of_def)

lemma agent_status:
  assumes "Method pk = Inr RM_GetStatus" "GetDownloadId pk = Inr i"
    and "GetDownloadStatus i (snd (mg_validate_remote m)) = (Inr st, m')"
  shows "fst (handle_request True newId key pk m) = (S_OK, status_body st)"
  using assms
  by (auto simp add: handle_request_def Process_def ParseAndProcess_def process_get_status_def sbind_def sres_def sret_def Let_def
      split: prod.splits)

text \<open>
  C7. The status the client returns is the status the agent has: sizes, errors and state of the
  download with that id, once the tasks due have run. The reader of JSON must read back what the
  agent's writer wrote.
\<close>

theorem client_reads_agents_status:
  assumes "operation_url junk ''getstatus'' i = Inr url"
    and ex: "exchange lib env version GET url pk (fst (HttpListenerCallback write_json True newId key pk m))"
    and st: "GetDownloadStatus i (snd (mg_validate_remote m)) = (Inr st, m')"
    and "write_json (status_body st) \<noteq> []" "jl_read lib (write_json (status_body st)) = Some (status_body st)"
  shows "sdk_GetStatus lib junk time_min i env = Returned (DO_OK, Some (sdk_status_of st))"
proof -
  have "(''getstatus'', GET, RM_GetStatus) \<in> set sdk_operations" by (simp add: sdk_operations_def)
  note pk = exchange_packet [OF ex this assms(1)]
  have "sdk_request lib junk time_min env GET url = Some (Inr (status_body st))"
    using assms(4,5) unfolding sdk_request_exchange [OF ex] agent_status [OF pk st] by (simp add: SUCCEEDED_def S_OK_def)
  then have "sdk_bind (sdk_request lib junk time_min env GET url) (read_status lib) = Some (Inr (sdk_status_of st))"
    using ex by (simp add: sdk_bind_def read_status_body exchange_def)
  then show ?thesis by (simp add: sdk_GetStatus_def assms(1))
qed

theorem client_reads_agents_status_witness:
  "\<exists>env. sdk_GetStatus (sample_lib (status_body (dl_status sample_download))) 0 0 ''x'' env =
    Returned (DO_OK, Some (sdk_status_of (dl_status sample_download)))"
proof -
  let ?url = "''download/getstatus?Id=x''" and ?st = "dl_status sample_download"
  let ?m = "(mg_new sample_world)\<lparr>mg_downloads := [(''x'', sample_download)]\<rparr>"
  have "rel_url ''getstatus'' (query_text [(''Id'', ''x'')]) = ?url" "list_all isalpha ''getstatus''" by code_simp+
  then have u: "operation_url 0 ''getstatus'' ''x'' = Inr ?url" using operation_url_text [of "''getstatus''" 0 "''x''"] by simp
  have op: "(''getstatus'', GET, RM_GetStatus) \<in> set sdk_operations" by (simp add: sdk_operations_def)
  have l: "length (request_text GET ?url) \<le> hp_capacity" "request_text GET ?url \<noteq> []" by code_simp+
  obtain pk where pk: "conn_run 0 [ReadBytes (request_text GET ?url)] hp_init = [CaPost pk, CaReceive]"
    "Method pk = Inr RM_GetStatus" "GetDownloadId pk = Inr ''x''"
    using operation_packet_once [OF op u l] by blast
  have "w_queue sample_world = []" by (simp add: sample_world_def)
  then have st: "GetDownloadStatus ''x'' (snd (mg_validate_remote ?m)) = (Inr ?st, snd (mg_validate_remote ?m))"
    by (simp add: GetDownloadStatus_def GetDownload_def mg_validate_remote_def mg_new_def due_tasks_def GetStatus_def sthen_def
        sbind_def smod_def sret_def Let_def split: prod.splits)
  let ?ans = "fst (HttpListenerCallback (\<lambda>_. ''S'') True sample_guid 0 pk ?m)"
  have "length (snd ?ans) \<le> 100" unfolding callback_answer by (simp add: failure_body_short split: prod.splits)
  then show ?thesis
    using client_reads_agents_status [OF u exchange_sample [OF pk(1) l(1), of ?ans] st] by (auto simp: sample_lib_def)
qed

end
