(* ===== verification/Apt.thy ===== *)
theory Apt
  imports Sdk
begin

text \<open>
  plugins/linux-apt: the method that lets APT download through the client library. The text
  protocol with APT (main.cpp), the download of one file and its rename, the digests of the file
  (do_hash.cpp) and the loop over the commands. The digests of OpenSSL are parameters; the
  files are a map from paths to contents. The debug log is left out, and an exception keeps what
  its text was made from.
\<close>

section \<open>Strings\<close>

definition HexEncode :: "string \<Rightarrow> string" where
  "HexEncode src = concat (map (\<lambda>c. [tolower (hex_digit (ord c div 16)), tolower (hex_digit (ord c mod 16))]) src)"

definition StartsWith :: "string \<Rightarrow> string \<Rightarrow> bool" where
  "StartsWith str s \<longleftrightarrow> take (length s) str = s"

section \<open>Messages\<close>

datatype APTMsgCodes = Capabilities | Status | UriStart | UriDone | UriFailure | UriAcquire | Configuration

fun apt_code :: "APTMsgCodes \<Rightarrow> nat" where
  "apt_code Capabilities = 100"
| "apt_code Status = 102"
| "apt_code UriStart = 200"
| "apt_code UriDone = 201"
| "apt_code UriFailure = 400"
| "apt_code UriAcquire = 600"
| "apt_code Configuration = 601"

fun apt_string :: "APTMsgCodes \<Rightarrow> string" where
  "apt_string Capabilities = ''Capabilities''"
| "apt_string Status = ''Status''"
| "apt_string UriStart = ''URI Start''"
| "apt_string UriDone = ''URI Done''"
| "apt_string UriFailure = ''URI Failure''"
| "apt_string UriAcquire = ''URI Acquire''"
| "apt_string Configuration = ''Configuration''"

datatype plugin_exn = UnpairedKeyValues nat | UnsupportedProtocol string | DownloadError error_code | RenameError | FileReadError

fun key_value_lines :: "string list \<Rightarrow> string" where
  "key_value_lines (k # v # kvs) = k @ '': '' @ v @ [LF] @ key_value_lines kvs"
| "key_value_lines _ = []"

definition ConstructAPTMessage :: "APTMsgCodes \<Rightarrow> string list \<Rightarrow> plugin_exn + string" where
  "ConstructAPTMessage code keyValues =
     (if odd (length keyValues) then Inl (UnpairedKeyValues (length keyValues))
      else Inr (show_nat (apt_code code) @ '' '' @ apt_string code @ [LF] @ key_value_lines keyValues @ [LF]))"

definition SendUriFailure :: "string \<Rightarrow> string \<Rightarrow> plugin_exn + string" where
  "SendUriFailure url msg = ConstructAPTMessage UriFailure [''URI'', url, ''Message'', msg]"

definition SendUriStart :: "string \<Rightarrow> nat \<Rightarrow> plugin_exn + string" where
  "SendUriStart url sizeBytes = ConstructAPTMessage UriStart [''URI'', url, ''Size'', show_nat sizeBytes]"

definition SendUriDone :: "string \<Rightarrow> nat \<Rightarrow> string \<Rightarrow> string list \<Rightarrow> plugin_exn + string" where
  "SendUriDone url fileSizeBytes filePath hashes =
     ConstructAPTMessage UriDone ([''URI'', url, ''Size'', show_nat fileSizeBytes, ''Filename'', filePath] @ hashes)"

section \<open>Commands\<close>

text \<open>Standard input as \<open>std::getline\<close> sees it: its lines, the last one ended or not.\<close>

fun lines_of :: "string \<Rightarrow> string list" where
  "lines_of [] = []"
| "lines_of (c # cs) =
     (if c = LF then [] # lines_of cs
      else case lines_of cs of [] \<Rightarrow> [[c]] | l # ls \<Rightarrow> (c # l) # ls)"

record apt_command =
  ac_eof :: bool
  ac_code :: string
  ac_codeDescription :: string
  ac_headers :: "string \<rightharpoonup> string"

definition no_line_end :: "string \<Rightarrow> bool" where "no_line_end s \<longleftrightarrow> LF \<notin> set s \<and> CR \<notin> set s"

text \<open>The two regular expressions, matched on a whole line.\<close>

definition rexCommand :: "string \<Rightarrow> (string \<times> string) option" where
  "rexCommand line =
     (let s = c_str line;
          digits = takeWhile isdigit s;
          rest = dropWhile isdigit s
      in case rest of
           c # d \<Rightarrow> if digits \<noteq> [] \<and> c = CHR '' '' \<and> no_line_end d then Some (digits, d) else None
         | [] \<Rightarrow> None)"

definition is_key_char :: "char \<Rightarrow> bool" where "is_key_char c \<longleftrightarrow> isalpha c \<or> c = CHR ''-''"

definition rexHeader :: "string \<Rightarrow> (string \<times> string) option" where
  "rexHeader line =
     (let s = c_str line;
          key = takeWhile is_key_char s
      in case dropWhile isspace (dropWhile is_key_char s) of
           c # d \<Rightarrow>
             (let v = dropWhile isspace d in if key \<noteq> [] \<and> c = CHR '':'' \<and> no_line_end v then Some (key, v) else None)
         | [] \<Rightarrow> None)"

fun skip_empty :: "string list \<Rightarrow> (string \<times> string list) option" where
  "skip_empty [] = None"
| "skip_empty (l # ls) = (if l = [] \<or> l = [LF] then skip_empty ls else Some (l, ls))"

fun read_headers :: "string list \<Rightarrow> (string \<rightharpoonup> string) \<Rightarrow> (string \<rightharpoonup> string) \<times> string list" where
  "read_headers [] h = (h, [])"
| "read_headers (l # ls) h =
     (if l = [] \<or> l = [LF] then (h, ls)
      else read_headers ls (case rexHeader l of Some (key, value) \<Rightarrow> h(key \<mapsto> value) | None \<Rightarrow> h))"

definition ReceiveAPTMessage :: "string list \<Rightarrow> apt_command \<times> string list" where
  "ReceiveAPTMessage cin =
     (case skip_empty cin of
        None \<Rightarrow> (\<lparr>ac_eof = True, ac_code = [], ac_codeDescription = [], ac_headers = Map.empty\<rparr>, [])
      | Some (line, cin) \<Rightarrow>
          (let (code, descr) = (case rexCommand line of Some m \<Rightarrow> m | None \<Rightarrow> ([], []));
               (h, cin) = read_headers cin Map.empty
           in (\<lparr>ac_eof = False, ac_code = code, ac_codeDescription = descr, ac_headers = h\<rparr>, cin)))"

lemma skip_empty_shorter: "skip_empty cin = Some (l, ls) \<Longrightarrow> length ls < length cin"
  by (induction cin rule: skip_empty.induct) (auto split: if_splits)

lemma read_headers_shorter: "length (snd (read_headers cin h)) \<le> length cin"
  by (induction cin h rule: read_headers.induct) (auto simp: le_SucI)

lemma ReceiveAPTMessage_shorter:
  assumes "ReceiveAPTMessage cin = (command, cin')" "\<not> ac_eof command"
  shows "length cin' < length cin"
proof -
  obtain line ls where s: "skip_empty cin = Some (line, ls)"
    using assms by (cases "skip_empty cin") (auto simp: ReceiveAPTMessage_def)
  then have "cin' = snd (read_headers ls Map.empty)" using assms by (auto simp: ReceiveAPTMessage_def Let_def split: prod.splits)
  then show ?thesis using skip_empty_shorter [OF s] read_headers_shorter [of ls Map.empty] by simp
qed

section \<open>Digests\<close>

record 'h hash_alg =
  ha_init :: 'h
  ha_update :: "'h \<Rightarrow> string \<Rightarrow> 'h"
  ha_final :: "'h \<Rightarrow> string"

record 'h hash_lib =
  MD5 :: "'h hash_alg"
  SHA1 :: "'h hash_alg"
  SHA256 :: "'h hash_alg"
  SHA512 :: "'h hash_alg"

record 'h hash_states =
  stateMD5 :: 'h
  stateSHA1 :: 'h
  stateSHA256 :: 'h
  stateSHA512 :: 'h

record hash_result =
  hr_fileSizeBytes :: nat
  hr_md5Digest :: string
  hr_md5SumDigest :: string
  hr_sha1Digest :: string
  hr_sha256Digest :: string
  hr_sha512Digest :: string

definition hash_init :: "'h hash_lib \<Rightarrow> 'h hash_states" where
  "hash_init lib = \<lparr>stateMD5 = ha_init (MD5 lib), stateSHA1 = ha_init (SHA1 lib), stateSHA256 = ha_init (SHA256 lib),
     stateSHA512 = ha_init (SHA512 lib)\<rparr>"

definition hash_update :: "'h hash_lib \<Rightarrow> string \<Rightarrow> 'h hash_states \<Rightarrow> 'h hash_states" where
  "hash_update lib buffer s = \<lparr>stateMD5 = ha_update (MD5 lib) (stateMD5 s) buffer, stateSHA1 = ha_update (SHA1 lib) (stateSHA1 s) buffer,
     stateSHA256 = ha_update (SHA256 lib) (stateSHA256 s) buffer, stateSHA512 = ha_update (SHA512 lib) (stateSHA512 s) buffer\<rparr>"

text \<open>The file is read in blocks of 4096 bytes; \<open>bad\<close> is the read that fails, if one does.\<close>

definition hash_block :: nat where "hash_block = 4096"

function hash_file :: "'h hash_lib \<Rightarrow> nat option \<Rightarrow> string \<Rightarrow> 'h hash_states \<Rightarrow> 'h hash_states option" where
  "hash_file lib bad input s =
     (if bad = Some 0 then None
      else let buffer = take hash_block input;
               s' = (if buffer \<noteq> [] then hash_update lib buffer s else s)
           in if length input < hash_block then Some s'
              else hash_file lib (map_option (\<lambda>n. n - 1) bad) (drop hash_block input) s')"
  by pat_completeness auto
termination
  by (relation "measure (\<lambda>(lib, bad, input, s). length input)") (auto simp: hash_block_def)

declare hash_file.simps [simp del]

text \<open>A file that cannot be opened is found out by the first read, which fails.\<close>

definition FileHashes :: "'h hash_lib \<Rightarrow> nat option \<Rightarrow> string option \<Rightarrow> plugin_exn + hash_result" where
  "FileHashes lib bad content =
     (case content of
        None \<Rightarrow> Inl FileReadError
      | Some input \<Rightarrow>
          (case hash_file lib bad input (hash_init lib) of
             None \<Rightarrow> Inl FileReadError
           | Some s \<Rightarrow>
               (let md5Str = HexEncode (ha_final (MD5 lib) (stateMD5 s))
                in Inr \<lparr>hr_fileSizeBytes = length input, hr_md5Digest = md5Str, hr_md5SumDigest = md5Str,
                        hr_sha1Digest = HexEncode (ha_final (SHA1 lib) (stateSHA1 s)),
                        hr_sha256Digest = HexEncode (ha_final (SHA256 lib) (stateSHA256 s)),
                        hr_sha512Digest = HexEncode (ha_final (SHA512 lib) (stateSHA512 s))\<rparr>)))"

section \<open>One download\<close>

type_synonym files = "string \<rightharpoonup> string"

text \<open>
  What one download meets: the new identifier, making and waiting for the download, what is at the
  temporary path afterwards, and whether the rename, the removal and the reads succeed.
\<close>

record acquire_env =
  aq_guid :: string
  aq_made :: error_code
  aq_endTime :: int
  aq_wait :: wait_env
  aq_written :: "string option"
  aq_renames :: bool
  aq_removes :: bool
  aq_bad :: "nat option"

definition GenerateUniqueCachePath :: "string \<Rightarrow> acquire_env \<Rightarrow> string" where
  "GenerateUniqueCachePath g_cachePath e = g_cachePath @ ''/'' @ aq_guid e @ ''.tmp''"

definition TryDeleteFile :: "bool \<Rightarrow> string \<Rightarrow> files \<Rightarrow> files" where
  "TryDeleteFile removes path fs = (if path \<noteq> [] \<and> removes then fs(path := None) else fs)"

text \<open>\<open>rename\<close> replaces the file at the new path.\<close>

definition rename_file :: "string \<Rightarrow> string \<Rightarrow> files \<Rightarrow> files" where
  "rename_file old new fs = (if old = new then fs else (fs(new := fs old))(old := None))"

record download_result =
  dr_fileSizeBytes :: nat
  dr_hashes :: "string list"

text \<open>\<open>None\<close> is a download that is still waited for.\<close>

definition SimpleDownload ::
  "'h hash_lib \<Rightarrow> string \<Rightarrow> acquire_env \<Rightarrow> string \<Rightarrow> files \<Rightarrow> (plugin_exn + download_result) option \<times> files" where
  "SimpleDownload lib g_cachePath e destFilePath fs =
     (let tempPath = GenerateUniqueCachePath g_cachePath e;
          fs = (case aq_written e of Some d \<Rightarrow> fs(tempPath \<mapsto> d) | None \<Rightarrow> fs)
      in case download_url_to_path (aq_endTime e) (aq_made e) (aq_wait e) of
           None \<Rightarrow> (None, fs)
         | Some errorCode \<Rightarrow>
             if ec_set errorCode then (Some (Inl (DownloadError errorCode)), TryDeleteFile (aq_removes e) tempPath fs)
             else if \<not> (aq_renames e \<and> fs tempPath \<noteq> None) then (Some (Inl RenameError), TryDeleteFile (aq_removes e) tempPath fs)
             else let fs = rename_file tempPath destFilePath fs
                  in (Some (case FileHashes lib (aq_bad e) (fs destFilePath) of
                       Inl ex \<Rightarrow> Inl ex
                     | Inr r \<Rightarrow>
                         Inr \<lparr>dr_fileSizeBytes = hr_fileSizeBytes r,
                              dr_hashes = [''MD5-Hash'', hr_md5Digest r, ''MD5Sum-Hash'', hr_md5SumDigest r,
                                ''SHA1-Hash'', hr_sha1Digest r, ''SHA256-Hash'', hr_sha256Digest r,
                                ''SHA512-Hash'', hr_sha512Digest r]\<rparr>), fs))"

text \<open>The messages sent; sending with keys and values in pairs does not throw.\<close>

definition WorkUriAcquire ::
  "'h hash_lib \<Rightarrow> string \<Rightarrow> acquire_env \<Rightarrow> string \<Rightarrow> string \<Rightarrow> files \<Rightarrow> (plugin_exn + string) option \<times> files" where
  "WorkUriAcquire lib g_cachePath e url filePath fs =
     (if \<not> StartsWith url ''http://'' \<and> \<not> StartsWith url ''https://''
      then (Some (SendUriFailure url filePath), fs)
      else (case SimpleDownload lib g_cachePath e filePath fs of
              (None, fs) \<Rightarrow> (None, fs)
            | (Some (Inl ex), fs) \<Rightarrow> (Some (SendUriFailure url filePath), fs)
            | (Some (Inr r), fs) \<Rightarrow>
                (case SendUriDone url (dr_fileSizeBytes r) filePath (dr_hashes r) of
                   Inl _ \<Rightarrow> (Some (SendUriFailure url filePath), fs)
                 | Inr msg \<Rightarrow> (Some (Inr msg), fs))))"

section \<open>The loop\<close>

definition header_value :: "apt_command \<Rightarrow> string \<Rightarrow> string" where
  "header_value command key = (case ac_headers command key of Some v \<Rightarrow> v | None \<Rightarrow> [])"

datatype work_end = EndOfInput | StillWaiting | Thrown plugin_exn

text \<open>\<open>envs\<close> is what the downloads meet, in order; \<open>i\<close> counts the commands to download.\<close>

function WorkLoop_from ::
  "'h hash_lib \<Rightarrow> string \<Rightarrow> (nat \<Rightarrow> acquire_env) \<Rightarrow> nat \<Rightarrow> string list \<Rightarrow> files \<Rightarrow> string list \<times> work_end \<times> files" where
  "WorkLoop_from lib g_cachePath envs i cin fs =
     (let (command, cin') = ReceiveAPTMessage cin
      in if ac_eof command then ([], EndOfInput, fs)
         else if ac_code command = ''600''
         then (case WorkUriAcquire lib g_cachePath (envs i) (header_value command ''URI'') (header_value command ''Filename'') fs of
                 (None, fs) \<Rightarrow> ([], StillWaiting, fs)
               | (Some (Inl ex), fs) \<Rightarrow> ([], Thrown ex, fs)
               | (Some (Inr msg), fs) \<Rightarrow>
                   (let (out, rest) = WorkLoop_from lib g_cachePath envs (i + 1) cin' fs in (msg # out, rest)))
         else WorkLoop_from lib g_cachePath envs i cin' fs)"
  by pat_completeness auto
termination
  by (relation "measure (\<lambda>(lib, p, envs, i, cin, fs). length cin)") (auto intro: ReceiveAPTMessage_shorter [OF sym])

declare WorkLoop_from.simps [simp del]

definition capability_values :: "version_macros \<Rightarrow> string list" where
  "capability_values v = [''Version'', SimpleVersion v, ''Single-Instance'', ''false'', ''Send-Config'', ''false'', ''Pipeline'', ''true'']"

definition WorkLoop ::
  "version_macros \<Rightarrow> 'h hash_lib \<Rightarrow> string \<Rightarrow> (nat \<Rightarrow> acquire_env) \<Rightarrow> string \<Rightarrow> files \<Rightarrow> string list \<times> work_end \<times> files" where
  "WorkLoop v lib g_cachePath envs stdin fs =
     (case ConstructAPTMessage Capabilities (capability_values v) of
        Inl ex \<Rightarrow> ([], Thrown ex, fs)
      | Inr msg \<Rightarrow> (let (out, rest) = WorkLoop_from lib g_cachePath envs 0 (lines_of stdin) fs in (msg # out, rest)))"

text \<open>The exit code; \<open>None\<close> is a process that has not ended.\<close>

definition apt_main ::
  "version_macros \<Rightarrow> 'h hash_lib \<Rightarrow> string \<Rightarrow> (nat \<Rightarrow> acquire_env) \<Rightarrow> string list \<Rightarrow> string \<Rightarrow> files \<Rightarrow> string list \<times> nat option" where
  "apt_main v lib g_cachePath envs argv stdin fs =
     (case OutputVersionIfNeeded v argv of
        Some t \<Rightarrow> ([t], Some 0)
      | None \<Rightarrow>
          (let (out, e, _) = WorkLoop v lib g_cachePath envs stdin fs
           in (out, case e of EndOfInput \<Rightarrow> Some 0 | StillWaiting \<Rightarrow> None | Thrown _ \<Rightarrow> Some 2)))"

end
