(* ===== verification/AptProps.thy ===== *)
theory AptProps
  imports Apt
begin

text \<open>
  Properties of the APT plugin: a message written is the command read, the digests are those of the
  whole file, a download leaves either the file or nothing, and every command is answered once.
\<close>

section \<open>Strings and lines\<close>

lemma lines_of_line: "LF \<notin> set l \<Longrightarrow> lines_of (l @ LF # s) = l # lines_of s"
  by (induction l) auto

text \<open>Values that a header carries unchanged, and keys that are read as keys.\<close>

definition plain_value :: "string \<Rightarrow> bool" where
  "plain_value v \<longleftrightarrow> no_line_end v \<and> NUL \<notin> set v \<and> (v = [] \<or> \<not> isspace (hd v))"

definition plain_key :: "string \<Rightarrow> bool" where
  "plain_key k \<longleftrightarrow> k \<noteq> [] \<and> list_all is_key_char k"

lemma key_char_facts: "is_key_char c \<Longrightarrow> c \<noteq> CHR '':'' \<and> \<not> isspace c \<and> c \<noteq> NUL \<and> c \<noteq> LF"
  by (auto simp: is_key_char_def isalpha_def isupper_def islower_def isspace_def ord_def NUL_def LF_def)

lemma not_key: "\<not> is_key_char (CHR '':'')" "\<not> isspace (CHR '':'')" "isspace (CHR '' '')"
  by (simp_all add: is_key_char_def isalpha_def isupper_def islower_def isspace_def ord_def)

lemma rexHeader_line:
  assumes "plain_key k" "plain_value v"
  shows "rexHeader (k @ '': '' @ v) = Some (k, v)"
proof -
  have k: "\<forall>c \<in> set k. is_key_char c" using assms(1) by (auto simp: plain_key_def list_all_iff)
  have "NUL \<notin> set (k @ '': '' @ v)" using k key_char_facts assms(2) by (auto simp: plain_value_def NUL_def)
  then have c: "c_str (k @ '': '' @ v) = k @ '': '' @ v" by (rule c_str_id)
  have t: "takeWhile is_key_char (k @ '': '' @ v) = k" "dropWhile is_key_char (k @ '': '' @ v) = '': '' @ v"
    using k not_key(1) by (simp_all add: takeWhile_append2 dropWhile_append2)
  have "dropWhile isspace v = v" using assms(2) by (cases v) (auto simp: plain_value_def)
  then have d: "dropWhile isspace ('' '' @ v) = v" "dropWhile isspace ('': '' @ v) = '': '' @ v" using not_key by simp_all
  show ?thesis using assms d(1) unfolding rexHeader_def c t d(2) plain_key_def plain_value_def Let_def
    by (simp del: dropWhile.simps)
qed

section \<open>Messages\<close>

fun headers_of :: "string list \<Rightarrow> (string \<rightharpoonup> string) \<Rightarrow> (string \<rightharpoonup> string)" where
  "headers_of (k # v # kvs) h = headers_of kvs (h(k \<mapsto> v))"
| "headers_of _ h = h"

fun plain_pairs :: "string list \<Rightarrow> bool" where
  "plain_pairs (k # v # kvs) = (plain_key k \<and> plain_value v \<and> plain_pairs kvs)"
| "plain_pairs kvs = (kvs = [])"

lemma read_header_lines:
  "plain_pairs kvs \<Longrightarrow> read_headers (lines_of (key_value_lines kvs @ LF # rest)) h = (headers_of kvs h, lines_of rest)"
proof (induction kvs arbitrary: h rule: plain_pairs.induct)
  case (1 k v kvs)
  have "LF \<notin> set (k @ '': '' @ v)"
    using 1(2) key_char_facts by (auto simp: plain_key_def plain_value_def no_line_end_def list_all_iff LF_def)
  then have "lines_of (key_value_lines (k # v # kvs) @ LF # rest) = (k @ '': '' @ v) # lines_of (key_value_lines kvs @ LF # rest)"
    using lines_of_line [of "k @ '': '' @ v"] by simp
  moreover have "k \<noteq> []" using 1(2) by (simp add: plain_key_def)
  ultimately show ?case using 1 rexHeader_line [of k v] by simp
qed auto

lemma plain_pairs_even: "plain_pairs kvs \<Longrightarrow> even (length kvs)"
  by (induction kvs rule: plain_pairs.induct) auto

lemma rexCommand_line: "rexCommand (show_nat (apt_code code) @ '' '' @ apt_string code) = Some (show_nat (apt_code code), apt_string code)"
proof -
  have d: "\<forall>c \<in> set (show_nat (apt_code code)). isdigit c" by (rule show_nat_digits)
  have "no_line_end (apt_string code)" "NUL \<notin> set (apt_string code)"
    by (cases code; simp add: no_line_end_def LF_def CR_def NUL_def)+
  moreover have "\<not> isdigit (CHR '' '')" by (simp add: isdigit_def ord_def)
  moreover have "NUL \<notin> set (show_nat (apt_code code))" using d isdigit_not_NUL by auto
  ultimately show ?thesis using d
    by (simp add: rexCommand_def c_str_id takeWhile_append2 dropWhile_append2 Let_def NUL_def)
qed

lemma apt_message_read:
  assumes "plain_pairs kvs"
  shows "\<exists>msg. ConstructAPTMessage code kvs = Inr msg \<and>
    (\<forall>rest. ReceiveAPTMessage (lines_of (msg @ rest)) =
       (\<lparr>ac_eof = False, ac_code = show_nat (apt_code code), ac_codeDescription = apt_string code,
         ac_headers = headers_of kvs Map.empty\<rparr>, lines_of rest))"
proof -
  let ?first = "show_nat (apt_code code) @ '' '' @ apt_string code"
  let ?msg = "?first @ [LF] @ key_value_lines kvs @ [LF]"
  have "\<forall>c \<in> set (show_nat (apt_code code)). c \<noteq> LF" using show_nat_digits [of "apt_code code"] by (auto simp: isdigit_def ord_def LF_def)
  moreover have "LF \<notin> set (apt_string code)" by (cases code) (simp_all add: LF_def)
  ultimately have "LF \<notin> set ?first" by (auto simp: LF_def)
  then have l: "lines_of (?msg @ rest) = ?first # lines_of (key_value_lines kvs @ LF # rest)" for rest
    using lines_of_line [of ?first "key_value_lines kvs @ LF # rest"] by simp
  have f: "?first \<noteq> []" "?first \<noteq> [LF]" using \<open>LF \<notin> set ?first\<close> by (simp, metis list.set_intros(1))
  have "ReceiveAPTMessage (lines_of (?msg @ rest)) = (\<lparr>ac_eof = False, ac_code = show_nat (apt_code code),
      ac_codeDescription = apt_string code, ac_headers = headers_of kvs Map.empty\<rparr>, lines_of rest)" for rest
    unfolding l using f rexCommand_line [of code] read_header_lines [OF assms, of rest Map.empty]
    by (simp add: ReceiveAPTMessage_def)
  moreover have "ConstructAPTMessage code kvs = Inr ?msg"
    using plain_pairs_even [OF assms] by (simp add: ConstructAPTMessage_def)
  ultimately show ?thesis by blast
qed

text \<open>
  C30. What \<open>ConstructAPTMessage\<close> writes, \<open>ReceiveAPTMessage\<close> reads: the code, its text and every
  header, the last of equal keys, and the rest of the input is left for the next command. Keys are
  letters and dashes; values hold no line end and do not start with white space.
\<close>

theorem apt_message_roundtrip:
  assumes "plain_pairs kvs"
  shows "\<exists>msg. ConstructAPTMessage code kvs = Inr msg \<and>
    (\<forall>rest. ReceiveAPTMessage (lines_of (msg @ rest)) =
       (\<lparr>ac_eof = False, ac_code = show_nat (apt_code code), ac_codeDescription = apt_string code,
         ac_headers = headers_of kvs Map.empty\<rparr>, lines_of rest))"
  using apt_message_read [OF assms] by blast

section \<open>Digests\<close>

text \<open>What the plugin relies on of a digest: updates with parts are one update with the whole.\<close>

definition alg_ok :: "'h hash_alg \<Rightarrow> bool" where
  "alg_ok a \<longleftrightarrow> (\<forall>s x y. ha_update a (ha_update a s x) y = ha_update a s (x @ y)) \<and> (\<forall>s. ha_update a s [] = s)"

definition hash_ok :: "'h hash_lib \<Rightarrow> bool" where
  "hash_ok lib \<longleftrightarrow> alg_ok (MD5 lib) \<and> alg_ok (SHA1 lib) \<and> alg_ok (SHA256 lib) \<and> alg_ok (SHA512 lib)"

definition digest :: "'h hash_alg \<Rightarrow> string \<Rightarrow> string" where
  "digest a d = HexEncode (ha_final a (ha_update a (ha_init a) d))"

definition digests :: "'h hash_lib \<Rightarrow> string \<Rightarrow> string list" where
  "digests lib d = [''MD5-Hash'', digest (MD5 lib) d, ''MD5Sum-Hash'', digest (MD5 lib) d, ''SHA1-Hash'', digest (SHA1 lib) d,
     ''SHA256-Hash'', digest (SHA256 lib) d, ''SHA512-Hash'', digest (SHA512 lib) d]"

lemma hash_update_append: "hash_ok lib \<Longrightarrow> hash_update lib y (hash_update lib x s) = hash_update lib (x @ y) s"
  by (simp add: hash_ok_def alg_ok_def hash_update_def)

lemma hash_update_Nil: "hash_ok lib \<Longrightarrow> hash_update lib [] s = s"
  by (simp add: hash_ok_def alg_ok_def hash_update_def)

lemma hash_file_step:
  assumes "hash_ok lib"
  shows "hash_file lib bad input s =
    (if bad = Some 0 then None else if length input < hash_block then Some (hash_update lib input s)
     else hash_file lib (map_option (\<lambda>n. n - 1) bad) (drop hash_block input) (hash_update lib (take hash_block input) s))"
proof -
  have "(if take hash_block input \<noteq> [] then hash_update lib (take hash_block input) s else s) = hash_update lib (take hash_block input) s"
    using assms by (auto simp: hash_update_Nil)
  moreover have "length input < hash_block \<Longrightarrow> take hash_block input = input" by simp
  ultimately show ?thesis unfolding hash_file.simps [of lib bad input s] Let_def
    using assms by (simp add: hash_update_Nil)
qed

lemma hash_file_whole:
  assumes "hash_ok lib"
  shows "(hash_file lib bad input s = Some (hash_update lib input s) \<or> hash_file lib bad input s = None) \<and>
    (bad = None \<longrightarrow> hash_file lib bad input s \<noteq> None)"
proof (induction input arbitrary: bad s rule: length_induct)
  case (1 input)
  show ?case
  proof (cases "length input < hash_block")
    case True
    then show ?thesis by (auto simp: hash_file_step [OF assms, of _ input s])
  next
    case False
    then have "length (drop hash_block input) < length input" by (simp add: hash_block_def)
    note ih = 1 [rule_format, OF this, of "map_option (\<lambda>n. n - 1) bad" "hash_update lib (take hash_block input) s"]
    then show ?thesis using False
      by (auto simp: hash_file_step [OF assms, of _ input s] hash_update_append [OF assms])
  qed
qed

lemma FileHashes_result:
  assumes "hash_ok lib"
  shows "FileHashes lib bad (Some d) = Inl FileReadError \<and> bad \<noteq> None \<or>
    (\<exists>r. FileHashes lib bad (Some d) = Inr r \<and> hr_fileSizeBytes r = length d \<and>
       [''MD5-Hash'', hr_md5Digest r, ''MD5Sum-Hash'', hr_md5SumDigest r, ''SHA1-Hash'', hr_sha1Digest r,
        ''SHA256-Hash'', hr_sha256Digest r, ''SHA512-Hash'', hr_sha512Digest r] = digests lib d)"
  using hash_file_whole [OF assms, of bad d "hash_init lib"]
  by (cases "hash_file lib bad d (hash_init lib)"; cases bad)
    (auto simp: FileHashes_def digests_def digest_def hash_update_def hash_init_def Let_def)

section \<open>One download\<close>

text \<open>
  C18. A download ends with the whole file or without a trace: the reply is \<open>URI Done\<close> exactly when
  the destination now holds what was downloaded, with its length and its digests; after a reply of
  failure the destination is as before, unless reading the renamed file failed. The temporary file
  is gone and no other file was touched.
\<close>

theorem acquire_all_or_nothing:
  assumes "hash_ok lib" "WorkUriAcquire lib g_cachePath e url path fs = (Some reply, fs')"
    and "temp = GenerateUniqueCachePath g_cachePath e" "path \<noteq> temp" "fs temp = None" "aq_removes e"
  shows "fs' temp = None \<and> (\<forall>q. q \<noteq> path \<longrightarrow> fs' q = fs q) \<and>
    ((\<exists>d. aq_written e = Some d \<and> fs' path = Some d \<and> reply = SendUriDone url (length d) path (digests lib d)) \<or>
     reply = SendUriFailure url path \<and> (fs' path = fs path \<or> aq_bad e \<noteq> None))"
proof -
  have sent: "\<exists>m. SendUriDone url n path (digests lib d) = Inr m" for n d
    by (simp add: SendUriDone_def ConstructAPTMessage_def digests_def)
  show ?thesis
  proof (cases "StartsWith url ''http://'' \<or> StartsWith url ''https://''")
    case False
    then show ?thesis using assms by (auto simp: WorkUriAcquire_def)
  next
    case True
    define fs1 where "fs1 = (case aq_written e of Some d \<Rightarrow> fs(temp \<mapsto> d) | None \<Rightarrow> fs)"
    have f: "fs1(temp := None) = fs" "fs1 temp = aq_written e" "q \<noteq> temp \<Longrightarrow> fs1 q = fs q" for q
      using assms(5) by (auto simp: fs1_def fun_eq_iff split: option.splits)
    have t: "TryDeleteFile True temp fs1 = fs" using f(1) assms(3) by (simp add: TryDeleteFile_def GenerateUniqueCachePath_def)
    obtain ec where ec: "download_url_to_path (aq_endTime e) (aq_made e) (aq_wait e) = Some ec"
      using assms(2) True by (auto simp: WorkUriAcquire_def SimpleDownload_def Let_def split: option.splits)
    show ?thesis
    proof (cases "ec_set ec \<or> \<not> (aq_renames e \<and> fs1 temp \<noteq> None)")
      case True': True
      then have "(Some reply, fs') = (Some (SendUriFailure url path), fs)"
        using assms(2,6) True t ec unfolding WorkUriAcquire_def SimpleDownload_def Let_def assms(3) [symmetric] fs1_def [symmetric]
        by (auto split: if_splits)
      then show ?thesis using assms(5) by simp
    next
      case False
      then obtain d where d: "aq_written e = Some d" using f(2) by auto
      let ?fs = "rename_file temp path fs1"
      have r: "?fs path = Some d" "?fs temp = None" "q \<noteq> path \<Longrightarrow> ?fs q = fs q" for q
        using assms(4,5) d f by (auto simp: rename_file_def)
      show ?thesis
        using assms(2) True False ec FileHashes_result [OF assms(1), of "aq_bad e" d] sent [of "length d" d] r
        unfolding WorkUriAcquire_def SimpleDownload_def Let_def assms(3) [symmetric] fs1_def [symmetric]
        by (auto simp: d split: if_splits)
    qed
  qed
qed

section \<open>The loop\<close>

text \<open>The command APT sends for a URL, and a reply to it.\<close>

definition acquire_command :: "string \<times> string \<Rightarrow> string" where
  "acquire_command r = (case ConstructAPTMessage UriAcquire [''URI'', fst r, ''Filename'', snd r] of Inr msg \<Rightarrow> msg | Inl _ \<Rightarrow> [])"

definition replies_to :: "string \<times> string \<Rightarrow> string \<Rightarrow> bool" where
  "replies_to r msg \<longleftrightarrow> (\<exists>n hashes. SendUriDone (fst r) n (snd r) hashes = Inr msg) \<or> SendUriFailure (fst r) (snd r) = Inr msg"

definition acquire_ends :: "acquire_env \<Rightarrow> bool" where
  "acquire_ends e \<longleftrightarrow> download_url_to_path (aq_endTime e) (aq_made e) (aq_wait e) \<noteq> None"

lemma acquire_read:
  assumes "plain_value (fst r)" "plain_value (snd r)"
  shows "\<exists>command. ReceiveAPTMessage (lines_of (acquire_command r @ rest)) = (command, lines_of rest) \<and> \<not> ac_eof command \<and>
    ac_code command = ''600'' \<and> header_value command ''URI'' = fst r \<and> header_value command ''Filename'' = snd r"
proof -
  have "plain_key ''URI''" "plain_key ''Filename''" by code_simp+
  then have "plain_pairs [''URI'', fst r, ''Filename'', snd r]" using assms by simp
  from apt_message_read [OF this, of UriAcquire] obtain msg where
    m: "ConstructAPTMessage UriAcquire [''URI'', fst r, ''Filename'', snd r] = Inr msg"
    and read: "ReceiveAPTMessage (lines_of (msg @ rest)) = (\<lparr>ac_eof = False, ac_code = show_nat 600,
      ac_codeDescription = apt_string UriAcquire, ac_headers = headers_of [''URI'', fst r, ''Filename'', snd r] Map.empty\<rparr>, lines_of rest)"
    by auto
  moreover have "show_nat 600 = ''600''" by (simp add: show_nat_eval)
  ultimately show ?thesis by (simp add: acquire_command_def header_value_def)
qed

lemma WorkUriAcquire_replies:
  assumes "acquire_ends e"
  shows "\<exists>msg fs'. WorkUriAcquire lib g_cachePath e (fst r) (snd r) fs = (Some (Inr msg), fs') \<and> replies_to r msg"
proof -
  have f: "\<exists>m. SendUriFailure (fst r) (snd r) = Inr m" by (simp add: SendUriFailure_def ConstructAPTMessage_def)
  obtain ec where ec: "download_url_to_path (aq_endTime e) (aq_made e) (aq_wait e) = Some ec"
    using assms by (auto simp: acquire_ends_def)
  obtain x fs' where x: "SimpleDownload lib g_cachePath e (snd r) fs = (Some x, fs')"
    using ec by (cases "SimpleDownload lib g_cachePath e (snd r) fs") (auto simp: SimpleDownload_def Let_def split: if_splits)
  show ?thesis
  proof (cases x)
    case (Inl ex)
    then show ?thesis using x f by (auto simp: WorkUriAcquire_def replies_to_def)
  next
    case (Inr res)
    then show ?thesis using x f
      by (cases "SendUriDone (fst r) (dr_fileSizeBytes res) (snd r) (dr_hashes res)") (auto simp: WorkUriAcquire_def replies_to_def)
  qed
qed

lemma WorkLoop_replies:
  assumes "\<forall>i. acquire_ends (envs i)" "\<forall>r \<in> set reqs. plain_value (fst r) \<and> plain_value (snd r)"
  shows "\<exists>out fs'. WorkLoop_from lib g_cachePath envs i (lines_of (concat (map acquire_command reqs))) fs = (out, EndOfInput, fs') \<and>
    list_all2 replies_to reqs out"
  using assms(2)
proof (induction reqs arbitrary: i fs)
  case Nil
  then show ?case by (simp add: WorkLoop_from.simps [of _ _ _ _ "[]"] ReceiveAPTMessage_def)
next
  case (Cons r reqs)
  let ?rest = "concat (map acquire_command reqs)"
  obtain command where c: "ReceiveAPTMessage (lines_of (acquire_command r @ ?rest)) = (command, lines_of ?rest)" "\<not> ac_eof command"
    "ac_code command = ''600''" "header_value command ''URI'' = fst r" "header_value command ''Filename'' = snd r"
    using acquire_read [of r ?rest] Cons.prems by auto
  obtain msg fs1 where m: "WorkUriAcquire lib g_cachePath (envs i) (fst r) (snd r) fs = (Some (Inr msg), fs1)" "replies_to r msg"
    using WorkUriAcquire_replies [of "envs i"] assms(1) by blast
  obtain out fs' where o: "WorkLoop_from lib g_cachePath envs (i + 1) (lines_of ?rest) fs1 = (out, EndOfInput, fs')" "list_all2 replies_to reqs out"
    using Cons.IH [of "i + 1" fs1] Cons.prems by auto
  then show ?case
    by (subst WorkLoop_from.simps) (simp add: c m)
qed

text \<open>
  C19. The plugin announces its capabilities and then answers each download command once, in the
  order of the commands, with the URL asked for, and ends with the input, provided that every wait
  for a download ends.
\<close>

theorem apt_commands_answered_once:
  assumes "\<forall>i. acquire_ends (envs i)" "\<forall>r \<in> set reqs. plain_value (fst r) \<and> plain_value (snd r)"
  shows "\<exists>caps out fs'. WorkLoop v lib g_cachePath envs (concat (map acquire_command reqs)) fs = (caps # out, EndOfInput, fs') \<and>
    ConstructAPTMessage Capabilities (capability_values v) = Inr caps \<and> list_all2 replies_to reqs out"
proof -
  have "\<exists>caps. ConstructAPTMessage Capabilities (capability_values v) = Inr caps"
    by (simp add: ConstructAPTMessage_def capability_values_def)
  then show ?thesis using WorkLoop_replies [OF assms, of lib g_cachePath 0 fs] by (fastforce simp: WorkLoop_def)
qed

section \<open>Concrete runs\<close>

text \<open>A digest for tests that keeps the bytes, and a download that ends at once.\<close>

definition byte_alg :: "string hash_alg" where
  "byte_alg = \<lparr>ha_init = [], ha_update = (\<lambda>s x. s @ x), ha_final = (\<lambda>s. s)\<rparr>"

definition byte_lib :: "string hash_lib" where
  "byte_lib = \<lparr>MD5 = byte_alg, SHA1 = byte_alg, SHA256 = byte_alg, SHA512 = byte_alg\<rparr>"

lemma byte_lib_ok: "hash_ok byte_lib"
  by (simp add: hash_ok_def alg_ok_def byte_lib_def byte_alg_def)

definition sample_acquire :: acquire_env where
  "sample_acquire = \<lparr>aq_guid = ''g'', aq_made = DO_OK, aq_endTime = 10, aq_wait = \<lparr>we_start = DO_OK, we_status = (DO_OK, sdk_status_init),
     we_polls = [\<lparr>pe_cancelled = False, pe_status = (DO_OK, sdk_status_init\<lparr>ss_state := St_transferred\<rparr>), pe_now = 5\<rparr>],
     we_finalize = DO_OK, we_abort = DO_OK, we_cancelled = False\<rparr>, aq_written = Some ''data'', aq_renames = True, aq_removes = True, aq_bad = None\<rparr>"

lemma sample_acquire_ends: "download_url_to_path (aq_endTime sample_acquire) (aq_made sample_acquire) (aq_wait sample_acquire) = Some DO_OK"
  by code_simp

theorem apt_message_roundtrip_witness:
  "\<exists>msg. ConstructAPTMessage UriStart [''URI'', ''http://a'', ''Size'', ''5''] = Inr msg \<and>
     ac_headers (fst (ReceiveAPTMessage (lines_of (msg @ ''x'')))) ''URI'' = Some ''http://a''"
proof -
  have "plain_pairs [''URI'', ''http://a'', ''Size'', ''5'']" by code_simp
  from apt_message_roundtrip [OF this, of UriStart] show ?thesis by auto
qed

theorem acquire_all_or_nothing_witness:
  "\<exists>reply fs'. WorkUriAcquire byte_lib ''/c'' sample_acquire ''http://a'' ''/f'' Map.empty = (Some reply, fs') \<and>
     fs' ''/c/g.tmp'' = None"
proof -
  have "acquire_ends sample_acquire" using sample_acquire_ends by (simp add: acquire_ends_def)
  from WorkUriAcquire_replies [OF this, of byte_lib "''/c''" "(''http://a'', ''/f'')" Map.empty]
  obtain reply fs' where w: "WorkUriAcquire byte_lib ''/c'' sample_acquire ''http://a'' ''/f'' Map.empty = (Some reply, fs')" by auto
  have t: "''/c/g.tmp'' = GenerateUniqueCachePath ''/c'' sample_acquire"
    by (simp add: GenerateUniqueCachePath_def sample_acquire_def)
  have "aq_removes sample_acquire" by (simp add: sample_acquire_def)
  with acquire_all_or_nothing [OF byte_lib_ok w t _ _ this] w show ?thesis by auto
qed

theorem apt_commands_answered_once_witness:
  "\<exists>caps out fs'. WorkLoop \<lparr>g_appBuilder = [], g_appName = ''a'', g_appVersion = ''1'', g_appBuildTime = [], g_gitHeadRev = [], g_gitHeadName = []\<rparr>
     byte_lib ''/c'' (\<lambda>_. sample_acquire) (concat (map acquire_command [(''http://a'', ''/f''), (''ftp://b'', ''/g'')])) Map.empty =
     (caps # out, EndOfInput, fs') \<and> list_all2 replies_to [(''http://a'', ''/f''), (''ftp://b'', ''/g'')] out"
proof -
  have a: "\<forall>i::nat. acquire_ends sample_acquire" using sample_acquire_ends by (simp add: acquire_ends_def)
  have "\<forall>r \<in> set [(''http://a'', ''/f''), (''ftp://b'', ''/g'')]. plain_value (fst r) \<and> plain_value (snd r)" by code_simp
  from apt_commands_answered_once [where envs = "\<lambda>_. sample_acquire", OF a this] show ?thesis by blast
qed

end
