(* ===== verification/Process.thy ===== *)
theory Process
  imports Listener Log
begin

text \<open>
  client-lite: the agent as a process (exe/docs.cpp, util/proc_launch_helper.h,
  util/do_persistence.cpp). The paths, the start-up in the order of \<open>Run\<close>, giving up the
  privileges of root, signals and the wait for shutdown. The answers of the operating system are
  values of an environment; the paths of the build are parameters.
\<close>

section \<open>Paths\<close>

text \<open>The build for a snap puts everything below the directory the environment names.\<close>

definition ConstructPath :: "bool \<Rightarrow> string option \<Rightarrow> string \<Rightarrow> string res" where
  "ConstructPath for_snap snapDataRoot suffix =
     (if \<not> for_snap then Inr suffix
      else case snapDataRoot of
             None \<Rightarrow> Inl (hr_exn E_UNEXPECTED)
           | Some root \<Rightarrow>
               if root = [] then Inl (hr_exn E_UNEXPECTED)
               else Inr (root @ (if last root \<noteq> CHR ''/'' then ''/'' else []) @
                         (if suffix \<noteq> [] \<and> hd suffix = CHR ''/'' then tl suffix else suffix)))"

section \<open>Users and paths\<close>

record credentials =
  cr_uid :: nat
  cr_gid :: nat
  cr_groups :: "nat list"

record path_entry =
  pt_uid :: nat
  pt_gid :: nat
  pt_mode :: nat

text \<open>
  The state of the process: its credentials, the directories, the port it listens at, the files of
  the runtime directory and its logger.
\<close>

record process =
  pr_creds :: credentials
  pr_paths :: "string \<rightharpoonup> path_entry"
  pr_port :: "(16 word) option"
  pr_runDir :: "dir_entry list"
  pr_log :: "logger option"

record sys_env =
  sy_getgrnam :: "string \<Rightarrow> nat option"
  sy_getpwnam :: "string \<Rightarrow> nat option"
  sy_chown :: "string \<Rightarrow> bool"
  sy_chmod :: "string \<Rightarrow> bool"
  sy_create :: "string \<Rightarrow> bool"
  sy_umask_mode :: nat
  sy_initgroups :: "nat list option"
  sy_setgid :: bool
  sy_setuid :: bool

definition GetGroupIdByName :: "sys_env \<Rightarrow> string \<Rightarrow> nat res" where
  "GetGroupIdByName s name = (case sy_getgrnam s name of None \<Rightarrow> Inl (hr_exn E_FAIL) | Some g \<Rightarrow> Inr g)"

definition GetUserIdByName :: "sys_env \<Rightarrow> string \<Rightarrow> nat res" where
  "GetUserIdByName s name = (case sy_getpwnam s name of None \<Rightarrow> Inl (hr_exn E_FAIL) | Some u \<Rightarrow> Inr u)"

text \<open>Failures to change the owner or the mode are only logged.\<close>

definition SetDOPathPermissions :: "sys_env \<Rightarrow> string \<Rightarrow> nat \<Rightarrow> (process, unit) sm" where
  "SetDOPathPermissions s path mode =
     sbind (sres (GetUserIdByName s ''do'')) (\<lambda>userid.
     sbind (sres (GetGroupIdByName s ''do'')) (\<lambda>groupid.
     smod (\<lambda>p. case pr_paths p path of
         None \<Rightarrow> p
       | Some d \<Rightarrow>
           (let d1 = (if sy_chown s path then d\<lparr>pt_uid := userid, pt_gid := groupid\<rparr> else d);
                d2 = (if sy_chmod s path then d1\<lparr>pt_mode := mode\<rparr> else d1)
            in p\<lparr>pr_paths := (pr_paths p)(path \<mapsto> d2)\<rparr>))))"

text \<open>An exception is logged and the directory stays as it is.\<close>

definition InitializePath :: "bool \<Rightarrow> sys_env \<Rightarrow> string \<Rightarrow> nat \<Rightarrow> process \<Rightarrow> process" where
  "InitializePath for_snap s path mode p =
     (if pr_paths p path \<noteq> None \<or> \<not> sy_create s path then p
      else let p1 = p\<lparr>pr_paths := (pr_paths p)(path \<mapsto>
                       \<lparr>pt_uid = cr_uid (pr_creds p), pt_gid = cr_gid (pr_creds p), pt_mode = sy_umask_mode s\<rparr>)\<rparr>
           in if mode \<noteq> 0 \<and> \<not> for_snap then snd (SetDOPathPermissions s path mode p1) else p1)"

text \<open>The modes in octal: 775 for the configuration, 755 for the logs.\<close>

definition config_mode :: nat where "config_mode = 7 * 64 + 7 * 8 + 5"
definition log_mode :: nat where "log_mode = 7 * 64 + 5 * 8 + 5"

record do_paths =
  dp_config :: string
  dp_log :: string
  dp_run :: string

definition InitializeDOPaths :: "bool \<Rightarrow> sys_env \<Rightarrow> do_paths \<Rightarrow> process \<Rightarrow> process" where
  "InitializeDOPaths for_snap s d p =
     InitializePath for_snap s (dp_run d) 0
       (InitializePath for_snap s (dp_log d) log_mode
         (InitializePath for_snap s (dp_config d) config_mode p))"

definition DropPermissions :: "bool \<Rightarrow> sys_env \<Rightarrow> (process, unit) sm" where
  "DropPermissions dev_debug s =
     sbind (sget (\<lambda>p. cr_uid (pr_creds p))) (\<lambda>uid.
       if uid = 0 then
         sbind (sres (GetGroupIdByName s ''do'')) (\<lambda>groupid.
         sthen (case sy_initgroups s of
                  None \<Rightarrow> throw_hr E_FAIL
                | Some gs \<Rightarrow> smod (\<lambda>p. p\<lparr>pr_creds := (pr_creds p)\<lparr>cr_groups := gs\<rparr>\<rparr>))
        (sthen (if \<not> sy_setgid s then throw_hr E_FAIL
                else smod (\<lambda>p. p\<lparr>pr_creds := (pr_creds p)\<lparr>cr_gid := groupid\<rparr>\<rparr>))
        (sbind (sres (GetUserIdByName s ''do'')) (\<lambda>userid.
           if \<not> sy_setuid s then throw_hr E_FAIL
           else smod (\<lambda>p. p\<lparr>pr_creds := (pr_creds p)\<lparr>cr_uid := userid\<rparr>\<rparr>)))))
       else if dev_debug then sret () else throw_hr E_FAIL)"

section \<open>Signals and shutdown\<close>

datatype signal = SIGINT | SIGTERM | SIGHUP | OtherSignal

text \<open>What a signal does: the shutdown event is set, or the configuration is refreshed.\<close>

record signals =
  sg_shutdown :: bool
  sg_refreshes :: nat

definition SignalHandler :: "signal \<Rightarrow> signals \<Rightarrow> signals" where
  "SignalHandler n st =
     (if n = SIGINT \<or> n = SIGTERM then st\<lparr>sg_shutdown := True\<rparr>
      else if n = SIGHUP then st\<lparr>sg_refreshes := sg_refreshes st + 1\<rparr>
      else st)"

text \<open>
  Each round lists the signals that arrive within its minute, and whether the process is idle
  after it. \<open>None\<close> is a process that still waits.
\<close>

fun WaitForShutdown :: "(signal list \<times> bool) list \<Rightarrow> signals \<Rightarrow> signals option" where
  "WaitForShutdown [] st = (if sg_shutdown st then Some st else None)"
| "WaitForShutdown ((arrived, idle) # rounds) st =
     (let st' = fold SignalHandler arrived st
      in if sg_shutdown st' then Some st' else if idle then Some st' else WaitForShutdown rounds st')"

section \<open>Running\<close>

text \<open>Everything the start meets. The check for idleness of the process always answers no.\<close>

record run_env =
  re_for_snap :: bool
  re_dev_debug :: bool
  re_sys :: sys_env
  re_paths :: do_paths
  re_can_write :: bool
  re_admin_file :: json_file
  re_sdk_file :: json_file
  re_bind :: "16 word \<Rightarrow> bind_outcome"
  re_removable :: "string \<Rightarrow> bool"
  re_opened :: bool
  re_written :: nat
  re_now :: int
  re_pid :: nat
  re_log :: log_env
  re_log_files :: log_dir
  re_signals :: "signal list list"

definition advertise :: "run_env \<Rightarrow> (process, unit) sm" where
  "advertise e p =
     (case pr_port p of
        None \<Rightarrow> (Inr (), p)
      | Some port \<Rightarrow>
          (let (r, dir) = RestPortAdvertiser (re_removable e) (re_opened e) (re_written e) (re_now e) (re_pid e) port (pr_runDir p)
           in (r, p\<lparr>pr_runDir := dir\<rparr>)))"

text \<open>\<open>startup\<close> is \<open>Run\<close> up to the wait; \<open>None\<close> in the result is a process that still waits.\<close>

definition startup :: "run_env \<Rightarrow> (process, unit) sm" where
  "startup e =
     sthen (smod (InitializeDOPaths (re_for_snap e) (re_sys e) (re_paths e)))
    (sbind (sres (ConfigManager_new (re_can_write e) (re_admin_file e) (re_sdk_file e))) (\<lambda>_.
     sbind (sres (listener_Start (re_bind e))) (\<lambda>port.
     sthen (smod (\<lambda>p. p\<lparr>pr_port := Some port\<rparr>))
    (sthen (advertise e)
    (sthen (if re_for_snap e then sret () else DropPermissions (re_dev_debug e) (re_sys e))
      (smod (\<lambda>p. p\<lparr>pr_log := log_Init (re_log e) (dp_log (re_paths e)) LvVerbose (re_log_files e) (pr_log p)\<rparr>)))))))"

text \<open>Leaving \<open>Run\<close> destroys the controller, which stops listening.\<close>

definition Run :: "run_env \<Rightarrow> process \<Rightarrow> hresult option \<times> process" where
  "Run e p =
     (case startup e p of
        (Inl ex, p') \<Rightarrow> (Some (caught ex), p'\<lparr>pr_port := None\<rparr>)
      | (Inr _, p') \<Rightarrow>
          (case WaitForShutdown (map (\<lambda>arrived. (arrived, False)) (re_signals e)) \<lparr>sg_shutdown = False, sg_refreshes = 0\<rparr> of
             None \<Rightarrow> (None, p')
           | Some _ \<Rightarrow> (Some S_OK, p'\<lparr>pr_port := None\<rparr>)))"

text \<open>The exit status; \<open>version\<close> is what \<open>OutputVersionIfNeeded\<close> printed.\<close>

definition agent_main :: "version_macros \<Rightarrow> string list \<Rightarrow> run_env \<Rightarrow> log_line \<Rightarrow> process \<Rightarrow> hresult option \<times> process" where
  "agent_main v argv e stats p =
     (case OutputVersionIfNeeded v argv of
        Some _ \<Rightarrow> (Some 0, p)
      | None \<Rightarrow>
          (case Run e p of
             (None, p') \<Rightarrow> (None, p')
           | (Some hr, p') \<Rightarrow> (Some hr, p'\<lparr>pr_log := snd (log_Close (re_log e) stats (pr_log p'))\<rparr>)))"

end
