(* ===== verification/SdkRuns.thy ===== *)
theory SdkRuns
  imports Sdk ListenerProps
begin

text \<open>
  The client library over time: finding the port the agent advertised, and waiting for a download
  to complete.
\<close>

section \<open>The port\<close>

lemma most_recent_newest:
  assumes "\<forall>x \<in> set dir. has_substring ''restport'' (de_name x) \<longrightarrow> de_time x < de_time e"
    and "has_substring ''restport'' (de_name e)" "fst acc < de_time e"
  shows "snd (most_recent (dir @ [e]) acc) = Some e"
  using assms(1,3) by (induction dir arbitrary: acc) (auto simp: assms(2) split: prod.splits)

lemma has_substring_prefix: "has_substring s (s @ t)"
proof (cases "s @ t")
  case (Cons c cs)
  moreover have "take (length s) (s @ t) = s" by simp
  ultimately show ?thesis by simp
qed simp

lemma strtoul_show_nat: "n < 2 ^ 64 \<Longrightarrow> strtoul (show_nat n) = of_nat n"
  by (simp add: strtoul_def stoul_show_nat)

lemma getline_show_nat: "getline (show_nat n @ [LF]) = show_nat n"
proof -
  have "\<forall>c \<in> set (show_nat n). c \<noteq> LF" using show_nat_digits [of n] isdigit_facts by blast
  then show ?thesis by (simp add: getline_def takeWhile_append2)
qed

text \<open>
  The port the agent advertises is the one the client connects to: after a successful
  \<open>RestPortAdvertiser\<close>, when no file of another agent that is left is as new, the first attempt to
  connect reads that port, whatever other files the directory holds.
\<close>

theorem advertised_port_is_found:
  assumes "RestPortAdvertiser removable opened written now pid port dir = (Inr (), dir')"
    and "\<forall>e \<in> set dir. has_substring ''restport'' (de_name e) \<and> \<not> removable (de_name e) \<longrightarrow> de_time e < now"
    and "time_min < now" "connects (ucast port)"
  shows "InitializeDOConnection time_min (Some dir' # polls) connects = Some (Inr (ucast port))"
proof -
  let ?e = "\<lparr>de_name = port_file_name pid, de_time = now, de_data = show_nat (unat port) @ [LF]\<rparr>"
  let ?rest = "filter (\<lambda>x. de_name x \<noteq> de_name ?e) (DeleteOlderPortFiles removable dir)"
  have d: "dir' = ?rest @ [?e]"
    using assms(1) by (auto simp: RestPortAdvertiser_def put_file_def Let_def split: if_splits)
  have "snd (most_recent dir' (time_min, None)) = Some ?e"
    unfolding d using assms(2,3)
    by (intro most_recent_newest) (auto simp: DeleteOlderPortFiles_def restPortFileNamePrefix_def port_file_name_def has_substring_prefix)
  then have d0: "DiscoverDOPort time_min (Some dir') = show_nat (unat port)"
    by (simp add: DiscoverDOPort_def getline_show_nat)
  have p: "unat port < 2 ^ 16" using unsigned_less [of port] by simp
  then have P: "strtoul (show_nat (unat port)) = ucast port" "\<not> 65535 < (ucast port :: u64)"
    by (simp_all add: strtoul_show_nat of_nat_unat word_less_nat_alt unsigned_ucast_eq take_bit_nat_eq_self)
  from d0 have "GetDOPort_loop (Suc 11) time_min (Some dir' # polls) = Some (Inr (show_nat (unat port)))"
    by (simp only: GetDOPort_loop.simps Let_def) simp
  then have "GetDOPort time_min (Some dir' # polls) = Some (Inr (show_nat (unat port)))"
    by (simp add: GetDOPort_def g_maxNumPortFileReadAttempts_def)
  with P show ?thesis using assms(4) by (simp add: InitializeDOConnection_def Let_def)
qed

text \<open>A file left by another process, which cannot be removed.\<close>

definition old_port_files :: "dir_entry list" where
  "old_port_files = [\<lparr>de_name = ''restport.7'', de_time = 1, de_data = ''50000'' @ [LF]\<rparr>]"

theorem advertised_port_is_found_witness:
  "InitializeDOConnection 0 [Some (snd (RestPortAdvertiser (\<lambda>_. False) True 6 5 8 50001 old_port_files))] (\<lambda>p. p = 50001) =
    Some (Inr 50001)"
proof -
  have "show_nat 50001 = ''50001''" by (simp add: show_nat_eval)
  then have "RestPortAdvertiser (\<lambda>_. False) True 6 5 8 50001 old_port_files =
    (Inr (), snd (RestPortAdvertiser (\<lambda>_. False) True 6 5 8 50001 old_port_files))"
    by (simp add: RestPortAdvertiser_def Let_def)
  from advertised_port_is_found [OF this, where time_min = 0 and connects = "\<lambda>p. p = 50001" and polls = "[]"] show ?thesis
    by (simp add: old_port_files_def)
qed

section \<open>Waiting\<close>

text \<open>What the status read last says when the loop ends without an error.\<close>

definition statuses_seen :: "sdk_status \<Rightarrow> poll_env list \<Rightarrow> sdk_status set" where
  "statuses_seen s ps = insert s ((\<lambda>p. snd (pe_status p)) ` set ps)"

lemma wait_loop_ends:
  assumes "clock_ok now pollTime ps" "ps \<noteq> []" "endTime - now \<le> 500 * int (length ps)" "500 \<le> pollTime"
  shows "wait_loop endTime s t ps \<noteq> None"
  using assms
proof (induction ps arbitrary: now pollTime s t)
  case (Cons p ps)
  have p: "now + pollTime \<le> pe_now p" "clock_ok (pe_now p) (next_poll_time pollTime) ps" "500 \<le> next_poll_time pollTime"
    using Cons.prems by (simp_all add: next_poll_time_def)
  show ?case
  proof (cases "ps = []")
    case True
    then have "endTime \<le> pe_now p" using Cons.prems(3,4) p(1) by simp
    then show ?thesis by (simp add: Let_def split: prod.splits)
  next
    case False
    moreover have "endTime - pe_now p \<le> 500 * int (length ps)" using Cons.prems(3,4) p(1) by simp
    ultimately show ?thesis using Cons.IH [OF p(2) _ _ p(3)] by (simp add: Let_def split: prod.splits)
  qed
qed simp

lemma wait_loop_result:
  assumes "wait_loop endTime s t ps = Some (Inr (s', t'))"
  shows "s' \<in> statuses_seen s ps" "\<not> t' \<Longrightarrow> (\<exists>p \<in> set ps. pe_cancelled p) \<or> \<not> still_active s'"
  using assms
proof (induction ps arbitrary: s t)
  case (Cons p ps)
  { case 1
    then show ?case using Cons.IH(1) [of "snd (pe_status p)" "endTime \<le> pe_now p"]
      by (auto simp: statuses_seen_def Let_def split: prod.splits if_splits)
  next
    case 2
    then show ?case using Cons.IH(2) [of "snd (pe_status p)" "endTime \<le> pe_now p"]
      by (auto simp: Let_def split: prod.splits if_splits) }
qed simp_all

lemma wait_loop_error: "wait_loop endTime s t ps = Some (Inl ec) \<Longrightarrow> ec_set ec"
  by (induction ps arbitrary: s t) (auto simp: Let_def split: prod.splits if_splits)

text \<open>A state in which waiting may end without an error.\<close>

definition ended_well :: "sdk_status \<Rightarrow> bool" where
  "ended_well s \<longleftrightarrow> ss_state s \<in> {St_transferred, St_finalized, St_aborted} \<or>
     ss_state s = St_paused \<and> ss_errorCode s = 0 \<and> ss_extendedErrorCode s = 0"


text \<open>A download that is transferring at the first poll and transferred at the second.\<close>

definition sample_wait :: wait_env where
  "sample_wait = (let poll = (\<lambda>s n. \<lparr>pe_cancelled = False, pe_status = (DO_OK, sdk_status_init\<lparr>ss_state := s\<rparr>), pe_now = n\<rparr>)
    in \<lparr>we_start = DO_OK, we_status = (DO_OK, sdk_status_init), we_polls = [poll St_transferring 600, poll St_transferred 1700],
        we_finalize = DO_OK, we_abort = DO_OK, we_cancelled = False\<rparr>)"


end
