(* ===== verification/ProcessProps.thy ===== *)
theory ProcessProps
  imports Process SdkRuns
begin

text \<open>
  Properties of the agent as a process: it never serves with the privileges it started with, and a
  client finds the agent that has started.
\<close>

section \<open>Privileges\<close>

definition do_credentials :: "sys_env \<Rightarrow> credentials \<Rightarrow> bool" where
  "do_credentials s c \<longleftrightarrow> sy_getpwnam s ''do'' = Some (cr_uid c) \<and> sy_getgrnam s ''do'' = Some (cr_gid c) \<and>
     sy_initgroups s = Some (cr_groups c)"

lemma DropPermissions_done:
  assumes "DropPermissions False s p = (Inr (), p')"
  shows "cr_uid (pr_creds p) = 0 \<and> do_credentials s (pr_creds p') \<and> p' = p\<lparr>pr_creds := pr_creds p'\<rparr>"
  using assms
  by (auto simp: DropPermissions_def sbind_def sthen_def sget_def sres_def smod_def throw_hr_def sthrow_def
      GetGroupIdByName_def GetUserIdByName_def do_credentials_def split: prod.splits option.splits if_splits)

lemma DropPermissions_frame: "pr_log (snd (DropPermissions d s p)) = pr_log p" "pr_port (snd (DropPermissions d s p)) = pr_port p"
  "pr_runDir (snd (DropPermissions d s p)) = pr_runDir p"
  by (auto simp: DropPermissions_def sbind_def sthen_def sget_def sres_def smod_def throw_hr_def sthrow_def sret_def
      GetGroupIdByName_def GetUserIdByName_def
      split: prod.splits option.splits if_splits sum.splits)

lemma InitializePath_frame:
  "pr_creds (InitializePath b s d m p) = pr_creds p" "pr_log (InitializePath b s d m p) = pr_log p"
  "pr_runDir (InitializePath b s d m p) = pr_runDir p"
  by (simp_all add: InitializePath_def SetDOPathPermissions_def GetUserIdByName_def GetGroupIdByName_def sbind_def sres_def smod_def
      Let_def split: option.split)

lemma InitializeDOPaths_frame:
  "pr_creds (InitializeDOPaths b s d p) = pr_creds p" "pr_log (InitializeDOPaths b s d p) = pr_log p"
  "pr_runDir (InitializeDOPaths b s d p) = pr_runDir p"
  by (simp_all add: InitializeDOPaths_def InitializePath_frame)

lemma advertise_frame: "pr_creds (snd (advertise e p)) = pr_creds p" "pr_log (snd (advertise e p)) = pr_log p"
  "pr_port (snd (advertise e p)) = pr_port p"
  by (auto simp: advertise_def Let_def split: option.splits prod.splits)

text \<open>The parts of a start that succeeds.\<close>

lemma startup_done:
  assumes "startup e p = (Inr (), p')"
  obtains port p1 p2 p3 where "listener_Start (re_bind e) = Inr port"
    "p1 = (InitializeDOPaths (re_for_snap e) (re_sys e) (re_paths e) p)\<lparr>pr_port := Some port\<rparr>"
    "advertise e p1 = (Inr (), p2)"
    "(if re_for_snap e then sret () else DropPermissions (re_dev_debug e) (re_sys e)) p2 = (Inr (), p3)"
    "p' = p3\<lparr>pr_log := log_Init (re_log e) (dp_log (re_paths e)) LvVerbose (re_log_files e) (pr_log p3)\<rparr>"
proof -
  let ?p0 = "InitializeDOPaths (re_for_snap e) (re_sys e) (re_paths e) p"
  obtain c where c: "ConfigManager_new (re_can_write e) (re_admin_file e) (re_sdk_file e) = Inr c"
    using assms by (cases "ConfigManager_new (re_can_write e) (re_admin_file e) (re_sdk_file e)")
      (simp_all add: startup_def sbind_def sthen_def sres_def smod_def)
  obtain port where l: "listener_Start (re_bind e) = Inr port"
    using assms c by (cases "listener_Start (re_bind e)") (simp_all add: startup_def sbind_def sthen_def sres_def smod_def)
  obtain r p2 where a: "advertise e (?p0\<lparr>pr_port := Some port\<rparr>) = (r, p2)" by fastforce
  then have "r = Inr ()" using assms c l by (cases r) (simp_all add: startup_def sbind_def sthen_def sres_def smod_def)
  moreover obtain r' p3 where d: "(if re_for_snap e then sret () else DropPermissions (re_dev_debug e) (re_sys e)) p2 = (r', p3)"
    by fastforce
  moreover have "r' = Inr ()" "p' = p3\<lparr>pr_log := log_Init (re_log e) (dp_log (re_paths e)) LvVerbose (re_log_files e) (pr_log p3)\<rparr>"
    using assms c l a d \<open>r = Inr ()\<close> by (cases r'; simp add: startup_def sbind_def sthen_def sres_def smod_def)+
  ultimately show ?thesis using that l a by blast
qed

text \<open>A start that fails has not opened the log.\<close>

lemma startup_failed:
  assumes "startup e p = (Inl ex, p')"
  shows "pr_log p' = pr_log p"
proof -
  note s = startup_def sbind_def sthen_def sres_def smod_def sret_def
  have drop: "pr_log q' = pr_log q" if "DropPermissions (re_dev_debug e) (re_sys e) q = (r, q')" for q q' r
    using DropPermissions_frame(1) [of "re_dev_debug e" "re_sys e" q] that by simp
  have adv: "pr_log q = pr_log p" if "advertise e ((InitializeDOPaths b s d p)\<lparr>pr_port := Some port\<rparr>) = (r, q)" for b s d port r q
    using advertise_frame(2) [of e "(InitializeDOPaths b s d p)\<lparr>pr_port := Some port\<rparr>"] that InitializeDOPaths_frame(2) by simp
  show ?thesis
    using assms by (auto simp: s InitializeDOPaths_frame dest!: drop adv split: sum.splits prod.splits if_splits)
qed


text \<open>A start as root on a machine with the user \<open>do\<close>, where the process then waits.\<close>

definition sample_sys :: sys_env where
  "sample_sys = \<lparr>sy_getgrnam = (\<lambda>_. Some 50), sy_getpwnam = (\<lambda>_. Some 40), sy_chown = (\<lambda>_. True), sy_chmod = (\<lambda>_. True),
     sy_create = (\<lambda>_. True), sy_umask_mode = 493, sy_initgroups = Some [50], sy_setgid = True, sy_setuid = True\<rparr>"

definition sample_run :: run_env where
  "sample_run = \<lparr>re_for_snap = False, re_dev_debug = False, re_sys = sample_sys,
     re_paths = \<lparr>dp_config = ''/c'', dp_log = ''/l'', dp_run = ''/r''\<rparr>, re_can_write = True, re_admin_file = JsonAbsent,
     re_sdk_file = JsonAbsent, re_bind = (\<lambda>_. BindOk), re_removable = (\<lambda>_. True), re_opened = True, re_written = 6,
     re_now = 9, re_pid = 7, re_log = \<lparr>le_scandir = True, le_removes = \<lambda>_. True, le_opens = \<lambda>_. True, le_writes = True, le_time = ''t''\<rparr>,
     re_log_files = [], re_signals = [[SIGHUP]]\<rparr>"

definition sample_process :: process where
  "sample_process = \<lparr>pr_creds = \<lparr>cr_uid = 0, cr_gid = 0, cr_groups = []\<rparr>, pr_paths = Map.empty, pr_port = None, pr_runDir = [], pr_log = None\<rparr>"

lemma sample_run_waits: "\<exists>p'. Run sample_run sample_process = (None, p')"
proof -
  have "show_nat 50000 = ''50000''" by (simp add: show_nat_eval)
  then have a: "\<exists>dir. RestPortAdvertiser (\<lambda>_. True) True 6 9 7 50000 [] = (Inr (), dir)" by (simp add: RestPortAdvertiser_def Let_def)
  have l: "listener_Start (\<lambda>_. BindOk) = Inr 50000"
    by (simp add: listener_Start_def listen_from.simps restPortFirst_def)
  have "\<exists>q. startup sample_run sample_process = (Inr (), q)"
    using a l
    by (auto simp: startup_def sbind_def sthen_def sres_def smod_def sret_def sget_def ConfigManager_new_def JsonParser_new_def rbind_def
        advertise_def DropPermissions_def GetGroupIdByName_def GetUserIdByName_def InitializeDOPaths_frame sample_run_def
        sample_process_def sample_sys_def Let_def)
  then obtain q where q: "startup sample_run sample_process = (Inr (), q)" by blast
  have "WaitForShutdown [([SIGHUP], False)] \<lparr>sg_shutdown = False, sg_refreshes = 0\<rparr> = None" by code_simp
  then show ?thesis by (simp add: Run_def q) (simp add: sample_run_def)
qed


section \<open>Finding the agent\<close>

lemma listen_from_ok: "listen_from bind_to p = Inr q \<Longrightarrow> bind_to q = BindOk"
  by (induction bind_to p rule: listen_from.induct) (auto simp: listen_from.simps split: bind_outcome.splits if_splits)

text \<open>
  C17. A client finds an agent that has started: while \<open>Run\<close> waits, the agent listens at a port that
  was free, and the first look of a client at the runtime directory gives that port, when no file of
  another agent that could not be removed is as new.
\<close>

theorem started_agent_is_found:
  assumes "Run e p = (None, p')" "pr_port p = None"
    and "\<forall>f \<in> set (pr_runDir p). has_substring ''restport'' (de_name f) \<and> \<not> re_removable e (de_name f) \<longrightarrow> de_time f < re_now e"
    and "time_min < re_now e"
  shows "\<exists>port. pr_port p' = Some port \<and> re_bind e port = BindOk \<and>
    (connects (ucast port) \<longrightarrow> InitializeDOConnection time_min (Some (pr_runDir p') # polls) connects = Some (Inr (ucast port)))"
proof -
  have "\<exists>q. startup e p = (Inr (), q) \<and> p' = q"
    using assms(1) by (cases "startup e p"; cases "fst (startup e p)") (auto simp: Run_def split: option.splits)
  then obtain port p1 p2 p3 where s: "listener_Start (re_bind e) = Inr port"
    "p1 = (InitializeDOPaths (re_for_snap e) (re_sys e) (re_paths e) p)\<lparr>pr_port := Some port\<rparr>"
    "advertise e p1 = (Inr (), p2)"
    "(if re_for_snap e then sret () else DropPermissions (re_dev_debug e) (re_sys e)) p2 = (Inr (), p3)"
    "p' = p3\<lparr>pr_log := log_Init (re_log e) (dp_log (re_paths e)) LvVerbose (re_log_files e) (pr_log p3)\<rparr>"
    by (elim exE conjE startup_done) auto
  have "pr_port p3 = pr_port p2" "pr_runDir p3 = pr_runDir p2"
    using s(4) DropPermissions_frame [of "re_dev_debug e" "re_sys e" p2] by (auto simp: sret_def split: if_splits)
  then have p': "pr_port p' = pr_port p2" "pr_runDir p' = pr_runDir p2" using s(5) by simp_all
  have "RestPortAdvertiser (re_removable e) (re_opened e) (re_written e) (re_now e) (re_pid e) port (pr_runDir p) = (Inr (), pr_runDir p2)"
    using s(2,3) by (auto simp: advertise_def InitializeDOPaths_frame Let_def split: prod.splits)
  from advertised_port_is_found [OF this assms(3,4)] have
    "connects (ucast port) \<Longrightarrow> InitializeDOConnection time_min (Some (pr_runDir p') # polls) connects = Some (Inr (ucast port))"
    by (simp add: p')
  moreover have "pr_port p2 = Some port" using advertise_frame(3) [of e p1] s(2,3) by simp
  moreover have "re_bind e port = BindOk" using listen_from_ok s(1) by (simp add: listener_Start_def)
  ultimately show ?thesis using p' by auto
qed

theorem started_agent_is_found_witness:
  "\<exists>p' port. Run sample_run sample_process = (None, p') \<and>
     InitializeDOConnection 0 [Some (pr_runDir p')] (\<lambda>_. True) = Some (Inr (ucast (port :: 16 word)))"
proof -
  obtain p' where r: "Run sample_run sample_process = (None, p')" using sample_run_waits by blast
  have "pr_port sample_process = None" "\<forall>f \<in> set (pr_runDir sample_process). has_substring ''restport'' (de_name f) \<and>
      \<not> re_removable sample_run (de_name f) \<longrightarrow> de_time f < re_now sample_run" "0 < re_now sample_run"
    by (simp_all add: sample_process_def sample_run_def)
  from started_agent_is_found [OF r this, where connects = "\<lambda>_. True" and polls = "[]"] r show ?thesis by blast
qed

end
