(* ===== verification/SdkConfig.thy ===== *)
theory SdkConfig
  imports Sdk
begin

text \<open>
  sdk-cpp/src/internal/rest/do_config_internal.cpp: the connection string an application hands to
  the agent through a configuration file, and the versions of the installed components. Writing
  JSON, looking for files and running a program are answers of the environment.
\<close>

section \<open>The connection string\<close>

text \<open>What is known of a path: the query can fail with a code.\<close>

datatype path_status = PathFound | PathMissing | PathError int

text \<open>\<open>fs::exists\<close> with an error code clears it unless the query failed.\<close>

fun exists_ec :: "path_status \<Rightarrow> bool \<times> int" where
  "exists_ec PathFound = (True, 0)"
| "exists_ec PathMissing = (False, 0)"
| "exists_ec (PathError n) = (False, n)"

datatype json_write = JwOk | JwBadData | JwBadPath | JwPtreeError | JwOtherError

text \<open>The code returned and the file afterwards; \<open>left\<close> is what a failed write leaves.\<close>

definition WriteIoTConnectionStringToConfigFile :: "path_status \<Rightarrow> json_write \<Rightarrow> json_file \<Rightarrow> string \<Rightarrow> json_file \<Rightarrow> int \<times> json_file" where
  "WriteIoTConnectionStringToConfigFile parent_path write left val file =
     (let (found, ec) = exists_ec parent_path
      in if found
         then (case write of
                 JwOk \<Rightarrow> (0, JsonTree [(''ADUC_IoTConnectionString'', c_str val)])
               | JwBadData \<Rightarrow> (- 1, left)
               | JwBadPath \<Rightarrow> (- 2, left)
               | JwPtreeError \<Rightarrow> (- 3, left)
               | JwOtherError \<Rightarrow> (- 4, left))
         else (ec, file))"

section \<open>Versions\<close>

text \<open>\<open>fgets\<close> with a buffer of 256: at most 255 bytes, up to and including a line end.\<close>

function fgets_pieces :: "nat \<Rightarrow> string \<Rightarrow> string list" where
  "fgets_pieces n s =
     (if s = [] \<or> n = 0 then []
      else let l = takeWhile (\<lambda>c. c \<noteq> LF) (take n s);
               piece = (if length l < length (take n s) then l @ [LF] else l)
           in piece # fgets_pieces n (drop (length piece) s))"
  by pat_completeness auto
termination
proof (relation "measure (\<lambda>(n, s). length s)", simp)
  fix n s and l piece :: string
  assume ne: "\<not> (s = [] \<or> n = 0)" and l: "l = takeWhile (\<lambda>c. c \<noteq> LF) (take n s)"
    and piece: "piece = (if length l < length (take n s) then l @ [LF] else l)"
  have "length (take n s) \<noteq> 0" using ne by simp
  then have "0 < length piece" using piece by (cases l) auto
  then show "((n, drop (length piece) s), n, s) \<in> measure (\<lambda>(n, s). length s)" using ne by simp
qed

declare fgets_pieces.simps [simp del]

record version_env =
  ve_status :: "string \<Rightarrow> path_status"
  ve_popen :: "string \<Rightarrow> string option"

definition path_append :: "string \<Rightarrow> string \<Rightarrow> string" where
  "path_append dir name = (if name \<noteq> [] \<and> hd name = CHR ''/'' then name else dir @ ''/'' @ name)"

text \<open>The query of \<open>fs::exists\<close> without an error code throws when it fails.\<close>

definition GetBinaryVersion :: "version_env \<Rightarrow> string \<Rightarrow> string res" where
  "GetBinaryVersion e binaryFilePath =
     (case ve_status e binaryFilePath of
        PathError _ \<Rightarrow> Inl (StdExn ''filesystem_error'')
      | PathMissing \<Rightarrow> Inr []
      | PathFound \<Rightarrow>
          Inr (case ve_popen e (binaryFilePath @ '' --version'') of
                 None \<Rightarrow> []
               | Some output \<Rightarrow> filter (\<lambda>c. c \<noteq> LF) (concat (map c_str (fgets_pieces 255 output)))))"

definition AppendBinaryVersion :: "version_env \<Rightarrow> string \<Rightarrow> string \<Rightarrow> string res" where
  "AppendBinaryVersion e binFileName allVersions =
     rbind (GetBinaryVersion e (path_append ''/usr/local/bin'' binFileName)) (\<lambda>v1.
     rbind (if v1 = [] then GetBinaryVersion e (path_append ''/usr/bin'' binFileName) else Inr v1) (\<lambda>v.
       Inr (if v \<noteq> [] then allVersions @ '','' @ v else allVersions)))"

text \<open>\<open>boost::erase_all\<close>: every occurrence, from the left; what is joined is not looked at again.\<close>

function erase_all :: "string \<Rightarrow> string \<Rightarrow> string" where
  "erase_all pat [] = []"
| "erase_all pat (c # cs) =
     (if pat \<noteq> [] \<and> take (length pat) (c # cs) = pat then erase_all pat (drop (length pat) (c # cs))
      else c # erase_all pat cs)"
  by pat_completeness auto
termination
proof (relation "measure (\<lambda>(pat, s). length s)")
  fix pat c and cs :: string
  assume "pat \<noteq> [] \<and> take (length pat) (c # cs) = pat"
  then show "((pat, drop (length pat) (c # cs)), pat, c # cs) \<in> measure (\<lambda>(pat, s). length s)" by (cases pat) auto
qed simp_all

text \<open>The names of the binaries are macros of the build. \<open>None\<close> is memory that cannot be had.\<close>

definition GetAllVersions :: "version_macros \<Rightarrow> string \<Rightarrow> string \<Rightarrow> version_env \<Rightarrow> bool \<Rightarrow> string option" where
  "GetAllVersions v g_dosvcBinName g_doPluginAptBinName e has_memory =
     (let allVersions =
            (case rbind (if g_dosvcBinName \<noteq> [] then AppendBinaryVersion e g_dosvcBinName (ComponentVersion v False)
                         else Inr (ComponentVersion v False)) (\<lambda>s.
                   if g_doPluginAptBinName \<noteq> [] then AppendBinaryVersion e g_doPluginAptBinName s else Inr s) of
               Inr s \<Rightarrow> erase_all ''deliveryoptimization-'' s
             | Inl _ \<Rightarrow> [])
      in if has_memory then Some (c_str allVersions) else None)"

text \<open>The C interface passes its arguments on; freeing leaves a null pointer.\<close>

definition set_iot_connection_string :: "path_status \<Rightarrow> json_write \<Rightarrow> json_file \<Rightarrow> string \<Rightarrow> json_file \<Rightarrow> int \<times> json_file" where
  "set_iot_connection_string parent_path write left val file = WriteIoTConnectionStringToConfigFile parent_path write left val file"

definition get_components_version :: "version_macros \<Rightarrow> string \<Rightarrow> string \<Rightarrow> version_env \<Rightarrow> bool \<Rightarrow> string option" where
  "get_components_version v g_dosvcBinName g_doPluginAptBinName e has_memory =
     GetAllVersions v g_dosvcBinName g_doPluginAptBinName e has_memory"

definition free_version_buf :: "string option \<Rightarrow> string option" where
  "free_version_buf ppBuffer = (case ppBuffer of Some _ \<Rightarrow> None | None \<Rightarrow> None)"

section \<open>The string reaches the agent\<close>

text \<open>The file is not written when its directory is missing, and the call still returns 0.\<close>

lemma missing_directory_reported_as_success:
  "set_iot_connection_string PathMissing write left val file = (0, file)"
  by (simp add: set_iot_connection_string_def WriteIoTConnectionStringToConfigFile_def)

lemma strcasestr_first:
  assumes "\<forall>n < length pre. map tolower (take (length pat) (drop n (pre @ pat @ rest))) \<noteq> map tolower pat"
  shows "strcasestr (pre @ pat @ rest) pat = Some (pat @ rest)"
  using assms
proof (induction pre)
  case Nil
  have "map tolower (take (length pat) (pat @ rest)) = map tolower pat" by simp
  then show ?case by (cases "pat @ rest") (auto simp del: take_append)
next
  case (Cons c pre)
  have "map tolower (take (length pat) (c # pre @ pat @ rest)) \<noteq> map tolower pat" using Cons.prems [rule_format, of 0] by simp
  moreover have "\<forall>n < length pre. map tolower (take (length pat) (drop n (pre @ pat @ rest))) \<noteq> map tolower pat"
    using Cons.prems [rule_format, of "Suc _"] by simp
  ultimately show ?case using Cons.IH by simp
qed

text \<open>
  C31. The gateway that an application names in its connection string is the cache host the agent
  uses: after the call returned 0 with the directory in place, an agent whose refresh of that file is
  due, and whose administrator named no cache host, takes the host after \<open>GatewayHostName=\<close>, up to
  the next semicolon.
\<close>

theorem gateway_reaches_agent:
  assumes "set_iot_connection_string PathFound write left (pre @ ''GatewayHostName='' @ host @ rest) file = (0, file')"
    and "NUL \<notin> set (pre @ ''GatewayHostName='' @ host @ rest)" "CHR '';'' \<notin> set host" "rest = [] \<or> hd rest = CHR '';''"
    and "\<forall>n < length pre. map tolower (take 16 (drop n (pre @ ''GatewayHostName='' @ host @ rest))) \<noteq> map tolower ''GatewayHostName=''"
    and "ce_sdk_file env = file'" "jp_next (cm_sdk c) \<le> ce_now env" "fst (CacheHostServer env c) = None"
  shows "fst (GetHost env c) = host"
proof -
  let ?s = "pre @ ''GatewayHostName='' @ host @ rest"
  have w: "file' = JsonTree [(''ADUC_IoTConnectionString'', ?s)]"
    using assms(1,2) by (cases "write") (simp_all add: set_iot_connection_string_def WriteIoTConnectionStringToConfigFile_def c_str_id)
  obtain c1 where c1: "CacheHostServer env c = (None, c1)" "cm_sdk c1 = cm_sdk c"
    using assms(8) by (auto simp: CacheHostServer_def admin_Get_def split: prod.splits)
  have "fst (IoTConnectionString env c1) = ?s"
    using assms(6,7) c1(2) unfolding w
    by (simp add: IoTConnectionString_def json_Get_def TryRefresh_def ConfigName_AduIoTConnectionString_def or_empty_def Let_def)
  moreover have "GetHostNameFromIoTConnectionString ?s = host"
  proof -
    have "strcasestr ?s ''GatewayHostName='' = Some (''GatewayHostName='' @ host @ rest)"
    proof (rule strcasestr_first)
      have "length ''GatewayHostName='' = 16" by simp
      then show "\<forall>n < length pre. map tolower (take (length ''GatewayHostName='') (drop n ?s)) \<noteq> map tolower ''GatewayHostName=''"
        using assms(5) by (simp only:)
    qed
    moreover have "find_char (CHR '';'') (host @ rest) = (if rest = [] then None else Some (length host))"
      using assms(3,4) find_char_split [of "CHR '';''" host "tl rest"] by (cases rest) (auto simp: find_char_None)
    ultimately show ?thesis using assms(2) by (simp add: GetHostNameFromIoTConnectionString_def c_str_id Let_def)
  qed
  ultimately show ?thesis using c1(1) by (cases "IoTConnectionString env c1") (auto simp: GetHost_def)
qed

text \<open>An agent that has just started, and the environment it reads its configuration in.\<close>

definition sample_config_env :: "json_file \<Rightarrow> config_env" where
  "sample_config_env file = \<lparr>ce_now = 1, ce_admin_file = JsonAbsent, ce_sdk_file = file, ce_get_int = (\<lambda>_. None), ce_get_bool = (\<lambda>_. None)\<rparr>"

definition sample_config :: config_manager where
  "sample_config = \<lparr>cm_admin = \<lparr>jp_tree = [], jp_next = 0\<rparr>, cm_sdk = \<lparr>jp_tree = [], jp_next = 0\<rparr>\<rparr>"

theorem gateway_reaches_agent_witness:
  "fst (GetHost (sample_config_env (snd (set_iot_connection_string PathFound JwOk JsonAbsent ''HostName=h;GatewayHostName=10.0.0.1;x'' JsonAbsent)))
     sample_config) = ''10.0.0.1''"
proof -
  let ?pre = "''HostName=h;''" and ?host = "''10.0.0.1''" and ?rest = "'';x''"
  let ?s = "?pre @ ''GatewayHostName='' @ ?host @ ?rest"
  let ?file = "snd (set_iot_connection_string PathFound JwOk JsonAbsent ?s JsonAbsent)"
  have a: "set_iot_connection_string PathFound JwOk JsonAbsent ?s JsonAbsent = (0, ?file)" by code_simp
  have "list_all (\<lambda>n. map tolower (take 16 (drop n ?s)) \<noteq> map tolower ''GatewayHostName='') [0..<length ?pre]" by code_simp
  then have b: "\<forall>n < length ?pre. map tolower (take 16 (drop n ?s)) \<noteq> map tolower ''GatewayHostName=''"
    by (simp only: list_all_iff set_upt) simp
  have c: "NUL \<notin> set ?s" "CHR '';'' \<notin> set ?host" "?rest = [] \<or> hd ?rest = CHR '';''" by code_simp+
  have d: "ce_sdk_file (sample_config_env ?file) = ?file" "jp_next (cm_sdk sample_config) \<le> ce_now (sample_config_env ?file)"
    "fst (CacheHostServer (sample_config_env ?file) sample_config) = None"
    by (simp_all add: sample_config_env_def sample_config_def CacheHostServer_def admin_Get_def json_Get_def TryRefresh_def Let_def)
  from gateway_reaches_agent [OF a c b d] show ?thesis by simp
qed

end
