(* ===== verification/Spec2Isabelle.thy ===== *)
theory Spec2Isabelle
  imports LogProps DownloadRuns DownloadBytes ManagerProps ListenerProps SdkProps AptProps ProcessProps SdkConfig
begin

text \<open>
  Verification library of the Delivery Optimization client (client-lite, sdk-cpp, common and
  plugins/linux-apt under src/).

  The program. The agent (client-lite) downloads files for other processes. A request reaches it
  over HTTP on a local port: the listener reads it, the parser of lib-dohttp turns the bytes into
  a packet, the controller finds its method and parameters and calls the download manager, which
  keeps the table of downloads. A download is a state machine whose tasks all run on one task
  thread; it talks to an HTTP agent, and the transfers of all HTTP agents are driven by one worker
  over libcurl. The client library (sdk-cpp) finds the port of the agent in a file, sends the
  requests and reads the replies. The APT plugin is a program on top of the client library.

  Theories and sources, in the order of their imports.

  \<^item> DoPrelude: machine types, exceptions as values, the monads of results (\<open>res\<close>) and of
    results over a state that survives a throw (\<open>sm\<close>), C strings, decimal text; the locales
    \<open>ordered_map\<close> (the contract of \<open>std::map\<close> with a comparison), \<open>codec\<close> (an encoder with its
    decoder) and \<open>inductive_machine\<close> (an invariant kept by the steps of a machine).
  \<^item> Errors (hresult_helpers.h, do_error.h, error_macros, safe_int.h), StringOps (string_ops),
    Util (do_file, stop_watch.h, proxy_finder, do_guid).
  \<^item> UriParse and UriBuilder (lib-dohttp/do_cpprest_uri, uri_builder): parser, printer, encoding,
    splitting, resolution. HttpParser (do_http_parser, do_http_packet.h): the incremental parser.
  \<^item> Threading (threading/): the timed queue behind the locale \<open>timed_queue\<close>, the turn of the task
    thread, events and the call counter. Config (config/, do_json_parser): settings, cache host
    and its bans, network check.
  \<^item> Curl (do_curl_wrappers) and HttpAgent (http_agent): the set of transfers and one request.
  \<^item> DownloadState (download_status.h, download_progress_tracker.h), Download (download.cpp),
    DownloadSystem (a download with queue, transfers, files and clock, and the locale
    \<open>task_owner\<close>: whose tasks are in the queue), with the properties in DownloadProps,
    DownloadRest (the end of a download) and DownloadBytes (the account of its bytes) and runs
    that end badly in DownloadRuns.
  \<^item> Manager (download_manager.cpp) and ManagerProps: every request and task over the table.
  \<^item> RestApi (ipc/rest_api_params, rest_api_parser, rest_api_request, rest_http_controller),
    Listener (rest_http_listener, its connections, rest_port_advertiser, lib-doversion) and
    ListenerProps.
  \<^item> Log and LogProps (trace/do_log.cpp). Process and ProcessProps (exe/docs.cpp,
    util/proc_launch_helper.h, util/do_persistence.cpp).
  \<^item> Sdk (sdk-cpp/src and src/internal/rest), SdkConfig (do_config_internal.cpp), SdkRequests and
    SdkProps (client and agent together), SdkRuns (the client over time).
  \<^item> Apt and AptProps (plugins/linux-apt).

  State and effects. A class is a record, a method a function that returns the record changed; a
  method that can throw is in \<open>sm\<close>, which keeps the changes made before the throw. A lambda given
  to the task thread is a constructor of a datatype of tasks, run by one function when it leaves
  the queue. What the system answers (system calls, libcurl, sockets, clocks, directories) is an
  argument or a list of answers consumed in order, so a theorem over all of them covers every
  error path. Locks are the order of the steps: one step is what the code does while it holds the
  lock, and the step functions of DownloadSystem and Manager interleave requests, tasks, callbacks
  of transfers, passes of the worker and the clock in any order.

  What the groups of lemmas show.

  \<^item> Text: printing and parsing of URIs, encoding, queries and messages are inverse; the HTTP parser
    finds one message however it is cut into reads; dot segments go as RFC 3986 describes.
  \<^item> Queue: the multimap refines a log of scheduled tasks; equal times keep their order.
  \<^item> Transfers: the handles of the set, of libcurl and of the callbacks stay consistent; removing one
    returns; the events of a client follow the protocol headers, data, completion.
  \<^item> Downloads: the table of state changes, retries and their delays, the sources tried, and that a
    finalized or aborted download is at rest and that until then the bytes in its file are the
    bytes counted and the bytes waiting to be counted; over the manager, that no task outlives its download
    and that requests do not touch other downloads.
  \<^item> Both ends: the requests of the client are read by the agent as they were meant, and the results
    and the status of the agent are what the client returns; a client finds a started agent; the
    gateway an application sets is the cache host that is used.
  \<^item> Logger, process, plugin: no line is lost or repeated and the files stay few; the agent serves
    without the privileges of root; each command of APT is answered once and a download leaves the
    whole file or nothing.

  Bounds and fuel. HRESULTs, byte counts and status codes are words of the width of the code and
  wrap as it does. No definition takes fuel: scanning loops recurse on what is left of the text,
  the search for a port on the distance to the last port, the delivery of a message on its reads.
  A loop that waits recurses on the answers it gets and yields \<open>None\<close> when they run out, and that
  it ends is a theorem about enough answers: twelve polls for the port, one poll for each half
  second until the deadline of a wait.

  Parameters. libcurl, the JSON reader and writer and the property tree of Boost, libproxy, the
  digests of OpenSSL and the macros of the build are arguments. Their laws are hypotheses of the
  theorems that need them: the reader returns what the writer wrote for a status and a failure, and
  the digest of parts is that of the whole.

  Not modelled. Telemetry and the texts of dates (text for the log only; the logger takes it as an
  argument), expansion of printf formats, Boost.Asio and the asynchronous writes of replies,
  the memory of C strings beyond their length, and the random generator of GUIDs. The
  implementation of the client library over COM calls a Windows service and a generated header that
  are not part of the repository. A new log file is taken to be empty, since its name carries the
  time. The build for debugging (keyboard thread of the agent, file log of the plugin) is left out.
\<close>

end
